(* ===== verification/Prelude.thy ===== *)
theory Prelude
  imports Main "HOL-Library.Char_ord" "HOL-Library.List_Lexorder"
    "HOL-Library.Product_Lexorder" "HOL-Library.Option_ord"
begin

text \<open>
  Shared vocabulary of the development: Python strings (lists of code points below 256) and the
  string operations the program uses, exceptions as values, and the reading of SQL result lists
  (\<open>fetchone\<close>, \<open>ORDER BY ... LIMIT 1\<close>, \<open>MAX\<close>). Every other theory imports this one.
\<close>

named_theorems py_string \<comment> \<open>facts on the Python string operations\<close>
named_theorems row_laws \<comment> \<open>what table operations keep of a row\<close>

section \<open>Exceptions\<close>

datatype py_error =
    ValueError string
  | OverflowError string
  | LookupError string
  | RuntimeError string
  | IntegrityError string
  | OsError string
  | ProcessError string
  | TypeError string

type_synonym 'a result = "py_error + 'a"

abbreviation is_ok :: "'a result \<Rightarrow> bool" where
  "is_ok r \<equiv> (case r of Inl _ \<Rightarrow> False | Inr _ \<Rightarrow> True)"

definition bind_result :: "'a result \<Rightarrow> ('a \<Rightarrow> 'b result) \<Rightarrow> 'b result" where
  "bind_result r f = (case r of Inl e \<Rightarrow> Inl e | Inr x \<Rightarrow> f x)"

lemma bind_result_simps [simp]:
  "bind_result (Inl e) f = Inl e"
  "bind_result (Inr x) f = f x"
  by (simp_all add: bind_result_def)

lemma bind_result_Inr_conv [simp]:
  "bind_result r f = Inr y \<longleftrightarrow> (\<exists>x. r = Inr x \<and> f x = Inr y)"
  by (cases r) simp_all

text \<open>A Python loop that appends the converted element or raises: the first error wins.\<close>

fun map_result :: "('a \<Rightarrow> 'b result) \<Rightarrow> 'a list \<Rightarrow> 'b list result" where
  "map_result f [] = Inr []"
| "map_result f (x # xs) =
     bind_result (f x) (\<lambda>y. bind_result (map_result f xs) (\<lambda>ys. Inr (y # ys)))"

lemma map_result_map:
  assumes "\<And>x. x \<in> set xs \<Longrightarrow> f (g x) = Inr (h x)"
  shows "map_result f (map g xs) = Inr (map h xs)"
  using assms by (induction xs) auto

lemma map_result_Inr_length: "map_result f xs = Inr ys \<Longrightarrow> length ys = length xs"
  by (induction xs arbitrary: ys) auto

lemma map_result_Inr_all:
  "map_result f xs = Inr ys \<Longrightarrow> y \<in> set ys \<Longrightarrow> \<exists>x \<in> set xs. f x = Inr y"
  by (induction xs arbitrary: ys) auto

section \<open>Characters and strings\<close>

abbreviation nl :: char where "nl \<equiv> CHR 0x0A"
abbreviation sp :: char where "sp \<equiv> CHR 0x20"
abbreviation tab :: char where "tab \<equiv> CHR 0x09"

text \<open>\<open>str.isspace\<close> on the code points below 256.\<close>

definition is_py_space :: "char \<Rightarrow> bool" where
  "is_py_space c \<longleftrightarrow>
     (let n = of_char c :: nat
      in 9 \<le> n \<and> n \<le> 13 \<or> 28 \<le> n \<and> n \<le> 32 \<or> n = 133 \<or> n = 160)"

definition starts_with :: "string \<Rightarrow> string \<Rightarrow> bool" where
  "starts_with s p \<longleftrightarrow> take (length p) s = p"

definition ends_with :: "string \<Rightarrow> string \<Rightarrow> bool" where
  "ends_with s p \<longleftrightarrow> length p \<le> length s \<and> drop (length s - length p) s = p"

definition rstrip_by :: "('a \<Rightarrow> bool) \<Rightarrow> 'a list \<Rightarrow> 'a list" where
  "rstrip_by P s = rev (dropWhile P (rev s))"

definition strip :: "string \<Rightarrow> string" where
  "strip s = rstrip_by is_py_space (dropWhile is_py_space s)"

lemma strip_plain:
  assumes "\<forall>c \<in> set s. \<not> is_py_space c"
  shows "strip s = s"
proof -
  have "dropWhile is_py_space t = t" if "\<forall>c \<in> set t. \<not> is_py_space c" for t using that by (cases t) simp_all
  then have "dropWhile is_py_space s = s" "dropWhile is_py_space (rev s) = rev s" using assms by (metis set_rev)+
  then show ?thesis by (simp add: strip_def rstrip_by_def)
qed

text \<open>\<open>str.split(c)\<close> for a one-character separator; \<open>"".split("/")\<close> is \<open>[""]\<close>.\<close>

fun split_on :: "'a \<Rightarrow> 'a list \<Rightarrow> 'a list list" where
  "split_on c [] = [[]]"
| "split_on c (x # xs) =
     (if x = c then [] # split_on c xs
      else (case split_on c xs of [] \<Rightarrow> [[x]] | w # ws \<Rightarrow> (x # w) # ws))"

text \<open>\<open>sub in s\<close>.\<close>

fun occurs :: "string \<Rightarrow> string \<Rightarrow> bool" where
  "occurs sub [] \<longleftrightarrow> sub = []"
| "occurs sub (c # cs) \<longleftrightarrow> starts_with (c # cs) sub \<or> occurs sub cs"

text \<open>\<open>s[1:-1]\<close>.\<close>

definition inner :: "'a list \<Rightarrow> 'a list" where
  "inner s = butlast (tl s)"

lemma starts_with_iff: "starts_with s p \<longleftrightarrow> (\<exists>r. s = p @ r)"
  by (metis append_eq_conv_conj append_take_drop_id starts_with_def)

lemma starts_with_append [simp, py_string]: "starts_with (p @ r) p"
  by (simp add: starts_with_def)

lemma starts_with_Nil [simp]: "starts_with s []"
  by (simp add: starts_with_def)

lemma starts_with_Cons [simp, py_string]:
  "starts_with [] (c # p) = False"
  "starts_with (x # s) (c # p) = (x = c \<and> starts_with s p)"
  by (auto simp: starts_with_def)

lemma ends_with_iff: "ends_with s p \<longleftrightarrow> (\<exists>r. s = r @ p)"
proof
  assume "ends_with s p"
  then have "s = take (length s - length p) s @ p"
    by (metis append_take_drop_id ends_with_def)
  then show "\<exists>r. s = r @ p" ..
qed (auto simp: ends_with_def)

lemma split_on_nonempty [simp]: "split_on c xs \<noteq> []"
  by (cases xs) (auto split: list.splits)

lemma split_on_no_sep: "c \<notin> set xs \<Longrightarrow> split_on c xs = [xs]"
  by (induction xs) auto

lemma split_on_parts: "w \<in> set (split_on c xs) \<Longrightarrow> c \<notin> set w"
proof (induction xs arbitrary: w)
  case (Cons x xs)
  then show ?case
    by (cases "split_on c xs") (auto split: if_splits)
qed simp

lemma set_split_on: "w \<in> set (split_on c xs) \<Longrightarrow> set w \<subseteq> set xs"
proof (induction xs arbitrary: w)
  case (Cons x xs)
  obtain v vs where v: "split_on c xs = v # vs"
    by (cases "split_on c xs") auto
  then have "set v \<subseteq> set xs" and "\<And>u. u \<in> set vs \<Longrightarrow> set u \<subseteq> set xs"
    using Cons.IH by auto
  then show ?case using Cons.prems v by (fastforce split: if_splits)
qed simp

lemma length_split_on: "length (split_on c xs) = Suc (count_list xs c)"
proof (induction xs)
  case (Cons x xs)
  then show ?case by (cases "split_on c xs") auto
qed simp

lemma split_on_append:
  "split_on c (xs @ c # ys) = split_on c xs @ split_on c ys"
proof (induction xs)
  case (Cons x xs)
  then show ?case by (cases "split_on c xs") auto
qed simp

text \<open>\<open>sep.join(parts)\<close> for a one-character separator, and \<open>str.replace(p, "")\<close>.\<close>

fun join_on :: "'a \<Rightarrow> 'a list list \<Rightarrow> 'a list" where
  "join_on c [] = []"
| "join_on c [w] = w"
| "join_on c (w # v # ws) = w @ c # join_on c (v # ws)"

lemma join_on_Cons: "ws \<noteq> [] \<Longrightarrow> join_on c (w # ws) = w @ c # join_on c ws"
  by (cases ws) simp_all

lemma join_split_on [simp]: "join_on c (split_on c xs) = xs"
proof (induction xs)
  case (Cons x xs)
  obtain v vs where v: "split_on c xs = v # vs"
    by (cases "split_on c xs") auto
  show ?case
  proof (cases vs)
    case Nil
    with v Cons.IH show ?thesis by simp
  next
    case (Cons w ws)
    with v \<open>join_on c (split_on c xs) = xs\<close> show ?thesis by simp
  qed
qed simp

lemma split_join_on:
  "ws \<noteq> [] \<Longrightarrow> \<forall>w \<in> set ws. c \<notin> set w \<Longrightarrow> split_on c (join_on c ws) = ws"
  by (induction c ws rule: join_on.induct) (auto simp: split_on_append split_on_no_sep)

fun remove_all :: "string \<Rightarrow> string \<Rightarrow> string" where
  "remove_all p [] = []"
| "remove_all p (c # cs) =
     (if p \<noteq> [] \<and> starts_with (c # cs) p then remove_all p (drop (length p - 1) cs)
      else c # remove_all p cs)"

lemma remove_all_absent: "c \<notin> set s \<Longrightarrow> remove_all (c # p) s = s"
  by (induction s) auto

lemma filter_absent: "c \<notin> set s \<Longrightarrow> filter (\<lambda>x. x \<noteq> c) s = s"
  by (induction s) auto

lemma remove_all_char: "remove_all [c] s = filter (\<lambda>x. x \<noteq> c) s"
  by (induction s) auto

lemma set_rstrip_by: "set (rstrip_by P s) \<subseteq> set s"
  by (auto simp: rstrip_by_def dest: set_dropWhileD)

lemma rstrip_by_decomp: "\<exists>t. s = rstrip_by P s @ t \<and> (\<forall>c \<in> set t. P c)"
proof (intro exI conjI)
  have "rev s = takeWhile P (rev s) @ dropWhile P (rev s)"
    by simp
  then show "s = rstrip_by P s @ rev (takeWhile P (rev s))"
    unfolding rstrip_by_def by (metis rev_append rev_rev_ident)
  show "\<forall>c \<in> set (rev (takeWhile P (rev s))). P c"
    by (auto dest: set_takeWhileD)
qed

lemma rstrip_by_eq_Nil: "rstrip_by P s = [] \<longleftrightarrow> (\<forall>c \<in> set s. P c)"
  by (simp add: rstrip_by_def)

section \<open>Reading SQL results\<close>

text \<open>\<open>cursor.fetchone()\<close>: the first row of the result, or \<open>None\<close>.\<close>

fun fetchone :: "'a list \<Rightarrow> 'a option" where
  "fetchone [] = None"
| "fetchone (x # _) = Some x"

text \<open>\<open>ORDER BY key LIMIT 1\<close>.\<close>

definition first_by :: "('a \<Rightarrow> 'k::linorder) \<Rightarrow> 'a list \<Rightarrow> 'a option" where
  "first_by key xs = fetchone (sort_key key xs)"

text \<open>\<open>MAX(column)\<close> over the rows of a group; \<open>NULL\<close> when there are none.\<close>

fun sql_max :: "'k::linorder list \<Rightarrow> 'k option" where
  "sql_max [] = None"
| "sql_max (x # xs) = (case sql_max xs of None \<Rightarrow> Some x | Some m \<Rightarrow> Some (max x m))"

lemma fetchone_None [simp]: "fetchone xs = None \<longleftrightarrow> xs = []"
  by (cases xs) simp_all

lemma fetchone_in: "fetchone xs = Some x \<Longrightarrow> x \<in> set xs"
  by (cases xs) simp_all

lemma fetchone_filter: "fetchone (filter P xs) = find P xs"
  by (induction xs) auto

lemma first_by_None [simp]: "first_by key xs = None \<longleftrightarrow> xs = []"
  by (metis first_by_def fetchone_None length_0_conv length_sort)

lemma first_by_least:
  assumes "first_by key xs = Some x"
  shows "x \<in> set xs" and "\<And>y. y \<in> set xs \<Longrightarrow> key x \<le> key y"
proof -
  from assms obtain ys where ys: "sort_key key xs = x # ys"
    unfolding first_by_def by (cases "sort_key key xs") auto
  have "set (x # ys) = set xs"
    unfolding ys [symmetric] by simp
  moreover have "sorted (map key (x # ys))"
    unfolding ys [symmetric] by simp
  ultimately show "x \<in> set xs" and "\<And>y. y \<in> set xs \<Longrightarrow> key x \<le> key y"
    by auto
qed

lemma in_map_filter: "v \<in> set (List.map_filter f xs) \<longleftrightarrow> (\<exists>x \<in> set xs. f x = Some v)"
  by (induction xs) (auto simp: List.map_filter_simps split: option.splits)

lemma map_filter_Nil: "List.map_filter f xs = [] \<longleftrightarrow> (\<forall>x \<in> set xs. f x = None)"
  by (induction xs) (auto simp: List.map_filter_simps split: option.splits)

lemma sql_max_None [simp]: "sql_max xs = None \<longleftrightarrow> xs = []"
  by (cases xs) (auto split: option.splits)

lemma sql_max_upper: "sql_max xs = Some m \<Longrightarrow> x \<in> set xs \<Longrightarrow> x \<le> m"
proof (induction xs arbitrary: m)
  case (Cons a xs)
  then show ?case
    by (cases "sql_max xs") (auto simp: le_max_iff_disj)
qed simp

lemma sql_max_in: "sql_max xs = Some m \<Longrightarrow> m \<in> set xs"
  by (induction xs arbitrary: m) (auto simp: max_def split: option.splits if_splits)

lemma find_Some_filter: "find P xs = Some x \<Longrightarrow> x \<in> set xs \<and> P x"
  by (auto simp: find_Some_iff)

end
