(* ===== verification/Headers.thy ===== *)
theory Headers
  imports Prelude
begin

text \<open>
  The include policy of \<open>headers.py\<close>: comments are blanked out, line continuations are spliced,
  and every line that is an \<open>#include\<close> directive for the program's regular expression is checked
  against the administrator's allowlist. The regular expression
  \<open>^[ \t]*#[ \t]*include[ \t]+(.+?)[ \t]*$\<close> (with \<open>re.MULTILINE\<close>) never matches across a
  newline, so it is run line by line; \<open>directive_shape\<close> states what it accepts and
  \<open>match_directive_iff\<close> proves that the matcher decides it.
\<close>

section \<open>Comment removal\<close>

definition comment_open :: string where "comment_open = ''/*''"
definition comment_close :: string where "comment_close = ''*/''"
definition line_comment :: string where "line_comment = ''//''"

lemmas comment_marks = comment_open_def comment_close_def line_comment_def

text \<open>
  The loop over \<open>index\<close>, as a function of the rest of the source and of \<open>in_block\<close>. The inner
  loop of the line comment blanks everything up to the next newline.
\<close>

function strip_comments_from :: "bool \<Rightarrow> string \<Rightarrow> string" where
  "strip_comments_from in_block [] = []"
| "strip_comments_from True (c # cs) =
     (if starts_with (c # cs) comment_close
      then [sp, sp] @ strip_comments_from False (tl cs)
      else (if c = nl then nl else sp) # strip_comments_from True cs)"
| "strip_comments_from False (c # cs) =
     (if starts_with (c # cs) comment_open
      then [sp, sp] @ strip_comments_from True (tl cs)
      else if starts_with (c # cs) line_comment
      then map (\<lambda>_. sp) (takeWhile (\<lambda>x. x \<noteq> nl) (c # cs))
             @ strip_comments_from False (dropWhile (\<lambda>x. x \<noteq> nl) (c # cs))
      else c # strip_comments_from False cs)"
  by pat_completeness auto
termination
  by (relation "measure (\<lambda>(b, s). length s)")
     (auto simp: line_comment_def less_Suc_eq_le length_dropWhile_le)

definition strip_comments :: "string \<Rightarrow> string" where
  "strip_comments source = strip_comments_from False source"

section \<open>Splicing and the directive pattern\<close>

text \<open>\<open>str.replace("\\\n", " ")\<close>.\<close>

fun splice_lines :: "string \<Rightarrow> string" where
  "splice_lines (c # d # cs) =
     (if c = CHR 0x5C \<and> d = nl then sp # splice_lines cs else c # splice_lines (d # cs))"
| "splice_lines cs = cs"

definition is_blank :: "char \<Rightarrow> bool" where
  "is_blank c \<longleftrightarrow> c = sp \<or> c = tab"

text \<open>
  One line against the pattern: group 1 of the match. The greedy \<open>[ \t]+\<close> takes all the blanks;
  only when nothing is left does it give the last one back to \<open>(.+?)\<close>.
\<close>

definition match_directive :: "string \<Rightarrow> string option" where
  "match_directive line =
     (case dropWhile is_blank line of
        [] \<Rightarrow> None
      | c # after_hash \<Rightarrow>
          if c \<noteq> CHR ''#'' then None
          else
            let word = dropWhile is_blank after_hash
            in if \<not> starts_with word ''include'' then None
               else
                 let gap = drop 7 word; body = dropWhile is_blank gap
                 in if gap = [] \<or> \<not> is_blank (hd gap) then None
                    else if body \<noteq> [] then Some (rstrip_by is_blank body)
                    else if 2 \<le> length gap then Some [last gap]
                    else None)"

section \<open>The policy\<close>

record include_error =
  ie_line :: nat
  ie_code :: string
  ie_value :: string

definition traverses :: "string \<Rightarrow> bool" where
  "traverses name \<longleftrightarrow> starts_with name ''/'' \<or> ''..'' \<in> set (split_on CHR ''/'' name)"

definition check_include :: "string set \<Rightarrow> nat \<Rightarrow> string \<Rightarrow> include_error list" where
  "check_include allowed line value =
     (if starts_with value [CHR 0x22] \<and> ends_with value [CHR 0x22]
      then [\<lparr>ie_line = line, ie_code = ''local_header_forbidden'', ie_value = inner value\<rparr>]
      else if starts_with value ''<'' \<and> ends_with value ''>'' then
        let name = strip (inner value)
        in if traverses name
           then [\<lparr>ie_line = line, ie_code = ''absolute_header_forbidden'', ie_value = name\<rparr>]
           else if name \<notin> allowed
           then [\<lparr>ie_line = line, ie_code = ''header_not_allowed'', ie_value = name\<rparr>]
           else []
      else [\<lparr>ie_line = line, ie_code = ''dynamic_header_forbidden'', ie_value = value\<rparr>])"

fun check_lines :: "string set \<Rightarrow> nat \<Rightarrow> string list \<Rightarrow> include_error list" where
  "check_lines allowed n [] = []"
| "check_lines allowed n (line # lines) =
     (case match_directive line of
        None \<Rightarrow> []
      | Some g \<Rightarrow> check_include allowed n (strip g))
     @ check_lines allowed (Suc n) lines"

definition cleaned_lines :: "string \<Rightarrow> string list" where
  "cleaned_lines source = split_on nl (splice_lines (strip_comments source))"

definition validate_direct_includes :: "string \<Rightarrow> string set \<Rightarrow> include_error list" where
  "validate_direct_includes source allowed = check_lines allowed 1 (cleaned_lines source)"

section \<open>Lemmas on comment removal\<close>

lemma strip_comments_from_length: "length (strip_comments_from b s) = length s"
proof (induction b s rule: strip_comments_from.induct)
  case (2 c cs)
  then show ?case by (cases cs) (auto simp: comment_marks)
next
  case (3 c cs)
  show ?case
  proof (cases "starts_with (c # cs) line_comment")
    case True
    then obtain ds where cs: "cs = CHR ''/'' # ds" "c = CHR ''/''"
      by (cases cs) (auto simp: comment_marks)
    have "length (strip_comments_from False (dropWhile (\<lambda>x. x \<noteq> nl) ds))
            = length (dropWhile (\<lambda>x. x \<noteq> nl) ds)"
      using "3.IH"(2) True cs by (auto simp: comment_marks)
    moreover have "length (takeWhile (\<lambda>x. x \<noteq> nl) ds) + length (dropWhile (\<lambda>x. x \<noteq> nl) ds)
            = length ds"
      by (metis length_append takeWhile_dropWhile_id)
    ultimately show ?thesis
      using cs by (simp add: comment_marks)
  next
    case False
    with 3 show ?thesis by (cases cs) (auto simp: comment_marks)
  qed
qed simp

text \<open>
  What one output character may be: the input character itself, or a blank in the place of
  something that is not a newline.
\<close>

definition kept_or_blanked :: "char \<Rightarrow> char \<Rightarrow> bool" where
  "kept_or_blanked c d \<longleftrightarrow> d = c \<or> d = sp \<and> c \<noteq> nl"

lemma kept_or_blanked_refl [simp]: "kept_or_blanked c c"
  by (simp add: kept_or_blanked_def)

lemma kept_or_blanked_blank [simp]: "c \<noteq> nl \<Longrightarrow> kept_or_blanked c sp"
  by (simp add: kept_or_blanked_def)

lemma blanked_run:
  assumes "list_all2 kept_or_blanked (dropWhile (\<lambda>x. x \<noteq> nl) s) t"
  shows "list_all2 kept_or_blanked s (map (\<lambda>_. sp) (takeWhile (\<lambda>x. x \<noteq> nl) s) @ t)"
  using assms by (induction s) auto

lemma strip_comments_from_pointwise:
  "list_all2 kept_or_blanked s (strip_comments_from b s)"
proof (induction b s rule: strip_comments_from.induct)
  case (2 c cs)
  then show ?case by (cases cs) (auto simp: comment_marks kept_or_blanked_def)
next
  case (3 c cs)
  show ?case
  proof (cases "starts_with (c # cs) line_comment")
    case True
    then obtain ds where cs: "cs = CHR ''/'' # ds" "c = CHR ''/''"
      by (cases cs) (auto simp: comment_marks)
    have "list_all2 kept_or_blanked (dropWhile (\<lambda>x. x \<noteq> nl) ds)
            (strip_comments_from False (dropWhile (\<lambda>x. x \<noteq> nl) ds))"
      using "3.IH"(2) True cs by (auto simp: comment_marks)
    from blanked_run [OF this] show ?thesis
      using cs by (simp add: comment_marks)
  next
    case False
    with 3 show ?thesis by (cases cs) (auto simp: comment_marks)
  qed
qed simp

lemma strip_comments_from_blanks:
  "strip_comments_from False (map (\<lambda>_. sp) xs @ s) = map (\<lambda>_. sp) xs @ strip_comments_from False s"
  by (induction xs) (simp_all add: comment_marks)

lemma no_newline_step [simp]: "strip_comments_from False (nl # s) = nl # strip_comments_from False s"
  by (simp add: comment_marks)

text \<open>
  No comment opener survives: a slash that is kept is not followed by a kept slash or star.
\<close>

fun opener_free :: "string \<Rightarrow> bool" where
  "opener_free (c # d # cs) \<longleftrightarrow>
     \<not> (c = CHR ''/'' \<and> (d = CHR ''/'' \<or> d = CHR ''*'')) \<and> opener_free (d # cs)"
| "opener_free cs \<longleftrightarrow> True"

lemma opener_free_not_slash: "c \<noteq> CHR ''/'' \<Longrightarrow> opener_free (c # s) = opener_free s"
  by (cases s) auto

lemma opener_free_blanks: "opener_free (map (\<lambda>_. sp) xs @ s) = opener_free s"
  by (induction xs) (simp_all add: opener_free_not_slash)

lemma strip_head:
  assumes "strip_comments_from False s = d # r"
  shows "d = sp \<or> (\<exists>cs. s = d # cs)"
  using assms by (cases s) (auto simp: comment_marks split: if_splits)

lemma strip_comments_from_opener_free: "opener_free (strip_comments_from b s)"
proof (induction b s rule: strip_comments_from.induct)
  case (2 c cs)
  then show ?case by (auto simp: opener_free_not_slash)
next
  case (3 c cs)
  show ?case
  proof (cases "starts_with (c # cs) line_comment \<or> starts_with (c # cs) comment_open")
    case True
    then obtain d ds where cs: "cs = d # ds" "c = CHR ''/''"
      by (cases cs) (auto simp: comment_marks)
    show ?thesis
      using 3 True cs
      by (auto simp: comment_marks opener_free_not_slash opener_free_blanks)
  next
    case False
    have IH: "opener_free (strip_comments_from False cs)"
      using 3 False by blast
    have "opener_free (c # strip_comments_from False cs)"
    proof (cases "strip_comments_from False cs")
      case (Cons d r)
      from strip_head [OF this] have "d = sp \<or> (\<exists>es. cs = d # es)" .
      with IH Cons False show ?thesis by (auto simp: comment_marks)
    qed simp
    with False show ?thesis by auto
  qed
qed simp

lemma strip_opener_free: "opener_free s \<Longrightarrow> strip_comments_from False s = s"
proof (induction s rule: opener_free.induct)
  case (1 c d cs)
  then show ?case by (auto simp: comment_marks)
qed (simp_all add: comment_marks)


text \<open>What becomes of a character inside a comment.\<close>

definition blank_out :: "char \<Rightarrow> char" where
  "blank_out c = (if c = nl then nl else sp)"

lemma strip_from_block:
  "strip_comments_from False (''/*'' @ t) = [sp, sp] @ strip_comments_from True t"
  by (simp add: comment_marks)

lemma strip_from_line:
  assumes "nl \<notin> set b"
  shows "strip_comments_from False (''//'' @ b @ nl # s)
    = map blank_out (''//'' @ b) @ nl # strip_comments_from False s"
proof -
  from assms have "takeWhile (\<lambda>x. x \<noteq> nl) (b @ nl # s) = b"
    and "dropWhile (\<lambda>x. x \<noteq> nl) (b @ nl # s) = nl # s"
    by (induction b) auto
  moreover from assms have "map blank_out b = map (\<lambda>_. sp) b"
    by (auto simp: blank_out_def)
  ultimately show ?thesis by (simp add: comment_marks blank_out_def)
qed

lemma strip_block_body:
  assumes "\<And>a r. b @ ''*'' \<noteq> a @ ''*/'' @ r"
  shows "strip_comments_from True (b @ ''*/'' @ s)
    = map blank_out b @ [sp, sp] @ strip_comments_from False s"
  using assms
proof (induction b)
  case Nil
  then show ?case by (simp add: comment_marks)
next
  case (Cons c b)
  have no_close: "\<not> starts_with ((c # b) @ ''*/'' @ s) comment_close"
  proof
    assume "starts_with ((c # b) @ ''*/'' @ s) comment_close"
    then have "\<exists>r. (c # b) @ ''*'' = ''*/'' @ r"
      by (cases b) (auto simp: comment_marks)
    with Cons.prems [of "[]"] show False by auto
  qed
  have "b @ ''*'' \<noteq> a @ ''*/'' @ r" for a r
    using Cons.prems [of "c # a" r] by simp
  from Cons.IH [OF this] no_close show ?case by (simp add: blank_out_def)
qed

lemma strip_open_block_body:
  assumes "\<And>a r. b \<noteq> a @ ''*/'' @ r"
  shows "strip_comments_from True b = map blank_out b"
  using assms
proof (induction b)
  case (Cons c b)
  have "\<not> starts_with (c # b) comment_close"
    using Cons.prems [of "[]"] by (auto simp: comment_marks starts_with_iff)
  moreover have "b \<noteq> a @ ''*/'' @ r" for a r
    using Cons.prems [of "c # a" r] by simp
  ultimately show ?case using Cons.IH by (simp add: blank_out_def)
qed simp

text \<open>Code in front of a comment is kept as it is.\<close>

lemma strip_code_prefix:
  assumes "opener_free (a @ [CHR ''/''])"
  shows "strip_comments_from False (a @ s) = a @ strip_comments_from False s"
  using assms
proof (induction a)
  case (Cons c a)
  have "\<not> starts_with ((c # a) @ s) comment_open \<and> \<not> starts_with ((c # a) @ s) line_comment"
    using Cons.prems by (cases a) (auto simp: comment_marks)
  moreover have "opener_free (a @ [CHR ''/''])"
    using Cons.prems by (cases a) auto
  ultimately show ?case using Cons.IH by simp
qed simp

lemma strip_comments_newlines:
  "length (split_on nl (strip_comments s)) = length (split_on nl s)"
proof -
  have "count_list t nl = count_list u nl" if "list_all2 kept_or_blanked t u" for t u
    using that by (induction rule: list_all2_induct) (auto simp: kept_or_blanked_def)
  then show ?thesis
    using strip_comments_from_pointwise [of s False]
    by (simp add: length_split_on strip_comments_def)
qed

section \<open>Lemmas on the directive pattern\<close>

text \<open>What \<open>re\<close> accepts: the decompositions of a line along the pattern.\<close>

definition directive_shape :: "string \<Rightarrow> string \<Rightarrow> bool" where
  "directive_shape line g \<longleftrightarrow>
     (\<exists>a b c d. line = a @ ''#'' @ b @ ''include'' @ c @ g @ d
        \<and> c \<noteq> [] \<and> g \<noteq> [] \<and> (\<forall>x \<in> set (a @ b @ c @ d). is_blank x))"

lemma blank_chars [simp]:
  "is_blank sp" "is_blank tab" "\<not> is_blank CHR ''#''" "\<not> is_blank CHR ''i''" "\<not> is_blank nl"
  by (simp_all add: is_blank_def)

lemma dropWhile_all_append:
  "\<forall>x \<in> set a. P x \<Longrightarrow> dropWhile P (a @ s) = dropWhile P s"
  by (induction a) auto

lemma dropWhile_blank_decomp:
  "\<exists>a. s = a @ dropWhile is_blank s \<and> (\<forall>x \<in> set a. is_blank x)"
  by (metis set_takeWhileD takeWhile_dropWhile_id)

lemma match_directive_after_include:
  assumes "\<forall>x \<in> set (a @ b). is_blank x"
  shows "match_directive (a @ ''#'' @ b @ ''include'' @ gap) =
    (let body = dropWhile is_blank gap
     in if gap = [] \<or> \<not> is_blank (hd gap) then None
        else if body \<noteq> [] then Some (rstrip_by is_blank body)
        else if 2 \<le> length gap then Some [last gap]
        else None)"
  using assms by (simp add: match_directive_def dropWhile_all_append)

lemma match_directive_head:
  assumes "match_directive line = Some g"
  shows "\<exists>a b gap. line = a @ ''#'' @ b @ ''include'' @ gap
    \<and> (\<forall>x \<in> set (a @ b). is_blank x)"
proof -
  from assms obtain s where hash: "dropWhile is_blank line = CHR ''#'' # s"
    and word: "starts_with (dropWhile is_blank s) ''include''"
    by (auto simp: match_directive_def Let_def split: list.splits if_splits)
  from word obtain gap where gap: "dropWhile is_blank s = ''include'' @ gap"
    by (auto simp: starts_with_iff)
  obtain a where a: "line = a @ dropWhile is_blank line" "\<forall>x \<in> set a. is_blank x"
    using dropWhile_blank_decomp by blast
  obtain b where b: "s = b @ dropWhile is_blank s" "\<forall>x \<in> set b. is_blank x"
    using dropWhile_blank_decomp by blast
  have "line = a @ ''#'' @ b @ ''include'' @ gap"
    using a(1) b(1) hash gap by simp
  with a(2) b(2) show ?thesis by auto
qed

lemma match_directive_shape:
  assumes "match_directive line = Some g"
  shows "directive_shape line g"
proof -
  from match_directive_head [OF assms] obtain a b gap where
    line: "line = a @ ''#'' @ b @ ''include'' @ gap" and blanks: "\<forall>x \<in> set (a @ b). is_blank x"
    by blast
  obtain c where c: "gap = c @ dropWhile is_blank gap" "\<forall>x \<in> set c. is_blank x"
    using dropWhile_blank_decomp by blast
  have m: "gap \<noteq> [] \<and> is_blank (hd gap)"
    using assms match_directive_after_include [OF blanks, of gap] line
    by (auto simp: Let_def split: if_splits)
  show ?thesis
  proof (cases "dropWhile is_blank gap")
    case Nil
    with assms have g: "g = [last gap]" and len: "2 \<le> length gap"
      using match_directive_after_include [OF blanks, of gap] line m
      by (auto simp: Let_def split: if_splits)
    have "\<forall>x \<in> set gap. is_blank x" using Nil c by simp
    moreover have "gap = butlast gap @ [last gap]" using m by simp
    moreover have "butlast gap \<noteq> []" using len by (cases gap rule: rev_cases) auto
    ultimately have "gap = butlast gap @ g @ [] \<and> butlast gap \<noteq> [] \<and> g \<noteq> []
        \<and> (\<forall>x \<in> set (butlast gap). is_blank x)"
      using g by (auto dest: in_set_butlastD)
    with line blanks show ?thesis
      unfolding directive_shape_def
      by (intro exI [of _ a] exI [of _ b] exI [of _ "butlast gap"] exI [of _ "[]"]) auto
  next
    case (Cons y ys)
    with assms have g: "g = rstrip_by is_blank (y # ys)"
      using match_directive_after_include [OF blanks, of gap] line m
      by (auto simp: Let_def split: if_splits)
    obtain d where d: "y # ys = g @ d" "\<forall>x \<in> set d. is_blank x"
      using rstrip_by_decomp g by metis
    have "\<not> is_blank y" using Cons by (metis dropWhile_eq_Cons_conv)
    then have "g \<noteq> []" using g by (auto simp: rstrip_by_eq_Nil)
    moreover have "c \<noteq> []" using m c(1) Cons \<open>\<not> is_blank y\<close> by auto
    ultimately show ?thesis
      unfolding directive_shape_def using line blanks c d Cons
      by (intro exI [of _ a] exI [of _ b] exI [of _ c] exI [of _ d]) auto
  qed
qed

lemma directive_shape_match:
  assumes "directive_shape line g"
  shows "match_directive line \<noteq> None"
proof -
  from assms obtain a b c d where
    shape: "line = a @ ''#'' @ b @ ''include'' @ c @ g @ d \<and> c \<noteq> [] \<and> g \<noteq> []
      \<and> (\<forall>x \<in> set (a @ b @ c @ d). is_blank x)"
    unfolding directive_shape_def by blast
  then have line: "line = a @ ''#'' @ b @ ''include'' @ c @ g @ d" and ne: "c \<noteq> []" "g \<noteq> []"
    and all: "\<forall>x \<in> set (a @ b @ c @ d). is_blank x"
    by blast+
  from all have blanks: "\<forall>x \<in> set (a @ b). is_blank x" and c: "\<forall>x \<in> set c. is_blank x"
    by auto
  have "is_blank (hd (c @ g @ d))" using ne c by (cases c) auto
  moreover have "2 \<le> length (c @ g @ d)" using ne by (cases c; cases g) auto
  ultimately show ?thesis
    using ne line match_directive_after_include [OF blanks, of "c @ g @ d"]
    by (auto simp: Let_def)
qed

lemma no_hash_no_directive:
  assumes "CHR ''#'' \<notin> set w"
  shows "match_directive w = None"
proof -
  have "c \<noteq> CHR ''#''" if "dropWhile is_blank w = c # ds" for c ds
    using that assms by (metis list.set_intros(1) set_dropWhileD)
  then show ?thesis by (simp add: match_directive_def split: list.splits)
qed

section \<open>Lemmas on the policy\<close>

definition header_permitted :: "string set \<Rightarrow> string \<Rightarrow> bool" where
  "header_permitted allowed value \<longleftrightarrow>
     starts_with value ''<'' \<and> ends_with value ''>''
     \<and> strip (inner value) \<in> allowed \<and> \<not> traverses (strip (inner value))"

lemma check_include_Nil: "check_include allowed n v = [] \<longleftrightarrow> header_permitted allowed v"
  by (cases v) (auto simp: check_include_def header_permitted_def Let_def)

lemma check_lines_Nil:
  "check_lines allowed n lines = [] \<longleftrightarrow>
     (\<forall>line \<in> set lines. \<forall>g. match_directive line = Some g \<longrightarrow> header_permitted allowed (strip g))"
  by (induction lines arbitrary: n) (auto simp: check_include_Nil split: option.splits)

lemma check_include_line: "e \<in> set (check_include allowed n v) \<Longrightarrow> ie_line e = n"
  by (auto simp: check_include_def Let_def split: if_splits)

lemma check_lines_location:
  assumes "e \<in> set (check_lines allowed n lines)"
  shows "n \<le> ie_line e" and "ie_line e < n + length lines"
    and "match_directive (lines ! (ie_line e - n)) \<noteq> None"
  using assms
proof (induction lines arbitrary: n)
  case (Cons line lines)
  {
    case 1 then show ?case using Cons.IH(1) [of "Suc n"]
      by (auto dest: check_include_line split: option.splits)
  next
    case 2 then show ?case using Cons.IH(2) [of "Suc n"]
      by (auto dest: check_include_line split: option.splits)
  next
    case 3
    then consider "e \<in> set (check_lines allowed (Suc n) lines)"
      | g where "match_directive line = Some g" "e \<in> set (check_include allowed n (strip g))"
      by (cases "match_directive line") auto
    then show ?case
    proof cases
      case 1
      from Cons.IH(1) [OF 1] have "Suc n \<le> ie_line e" .
      then have "ie_line e - n = Suc (ie_line e - Suc n)" by simp
      then have "(line # lines) ! (ie_line e - n) = lines ! (ie_line e - Suc n)" by simp
      with Cons.IH(3) [OF 1] show ?thesis by simp
    next
      case 2
      then show ?thesis by (auto dest: check_include_line)
    qed
  }
qed simp_all

fun splice_free :: "string \<Rightarrow> bool" where
  "splice_free (c # d # cs) \<longleftrightarrow> \<not> (c = CHR 0x5C \<and> d = nl) \<and> splice_free (d # cs)"
| "splice_free cs \<longleftrightarrow> True"

lemma splice_lines_id: "splice_free s \<Longrightarrow> splice_lines s = s"
  by (induction s rule: splice_lines.induct) auto

lemma splice_lines_no_nl: "nl \<notin> set s \<Longrightarrow> splice_lines s = s"
  by (induction s rule: splice_lines.induct) auto

lemma strip_comments_no_nl: "nl \<notin> set s \<Longrightarrow> nl \<notin> set (strip_comments s)"
proof -
  have "list_all2 kept_or_blanked s t \<Longrightarrow> nl \<in> set t \<Longrightarrow> nl \<in> set s" for t
    by (induction rule: list_all2_induct) (auto simp: kept_or_blanked_def)
  then show "nl \<notin> set s \<Longrightarrow> nl \<notin> set (strip_comments s)"
    using strip_comments_from_pointwise [of s False] by (auto simp: strip_comments_def)
qed


section \<open>Properties\<close>

text \<open>Comment removal keeps the layout. Every output character is the input character or a
  blank in the place of a character that is not a newline (so offsets and line numbers stay
  right), no comment opener is left, and running it again changes nothing.\<close>

theorem strip_comments_layout:
  "list_all2 kept_or_blanked source (strip_comments source)
   \<and> opener_free (strip_comments source)
   \<and> strip_comments (strip_comments source) = strip_comments source"
  by (simp add: strip_comments_def strip_comments_from_pointwise strip_comments_from_opener_free
      strip_opener_free)

text \<open>What comment removal does to source text of the form code, comment, rest. Code before
  the comment is kept; a block comment becomes blanks and its own newlines and scanning resumes
  after it; an unclosed block comment swallows the rest; a line comment is blanked up to the
  newline, which ends it.\<close>

theorem strip_comments_functional:
  assumes "opener_free (a @ [CHR ''/''])"
  shows "((\<forall>u r. b @ ''*'' \<noteq> u @ ''*/'' @ r) \<longrightarrow>
      strip_comments (a @ ''/*'' @ b @ ''*/'' @ s)
        = a @ [sp, sp] @ map blank_out b @ [sp, sp] @ strip_comments s)
    \<and> ((\<forall>u r. b \<noteq> u @ ''*/'' @ r) \<longrightarrow>
      strip_comments (a @ ''/*'' @ b) = a @ [sp, sp] @ map blank_out b)
    \<and> (nl \<notin> set b \<longrightarrow>
      strip_comments (a @ ''//'' @ b @ nl # s)
        = a @ map blank_out (''//'' @ b) @ nl # strip_comments s)"
  unfolding strip_comments_def strip_code_prefix [OF assms] strip_from_block
  using strip_block_body [of b s] strip_open_block_body [of b] strip_from_line [of b s]
  by blast

theorem strip_comments_functional_witness:
  "strip_comments (''int x; '' @ ''/*'' @ ''a'' @ ''*/'' @ ''y'')
     = ''int x; '' @ [sp, sp] @ [sp] @ [sp, sp] @ ''y''"
proof -
  have pre: "opener_free (''int x; '' @ [CHR ''/''])" by simp
  have none: "\<forall>u r. ''a'' @ ''*'' \<noteq> u @ ''*/'' @ r"
    by (auto simp: Cons_eq_append_conv)
  have "strip_comments (''int x; '' @ ''/*'' @ ''a'' @ ''*/'' @ ''y'')
      = ''int x; '' @ [sp, sp] @ map blank_out ''a'' @ [sp, sp] @ strip_comments ''y''"
    using strip_comments_functional [OF pre, of "''a''" "''y''"] none by blast
  then show ?thesis
    by (simp add: strip_comments_def comment_marks blank_out_def)
qed

text \<open>The line matcher decides the directive pattern: it returns a group exactly when the line
  decomposes along \<open>^[ \t]*#[ \t]*include[ \t]+(.+?)[ \t]*$\<close>, and the group it returns is one of
  the pattern's.\<close>

theorem match_directive_iff:
  "(match_directive line \<noteq> None \<longleftrightarrow> (\<exists>g. directive_shape line g))
   \<and> (\<forall>g. match_directive line = Some g \<longrightarrow> directive_shape line g)"
  using match_directive_shape directive_shape_match by (metis not_None_eq)

theorem match_directive_iff_witness:
  "match_directive ''  # include <vector> '' = Some ''<vector>''
   \<and> directive_shape ''  # include <vector> '' ''<vector>''"
proof -
  have "match_directive ''  # include <vector> '' = Some ''<vector>''"
    by (simp add: match_directive_def is_blank_def starts_with_def rstrip_by_def Let_def)
  with match_directive_iff [of "''  # include <vector> ''"] show ?thesis by blast
qed



text \<open>For a source without line continuations every reported error names the right place: its
  line number lies within the source and the comment-stripped source has a directive there.\<close>

theorem include_error_location:
  assumes "splice_free (strip_comments source)"
    and "e \<in> set (validate_direct_includes source allowed)"
  shows "1 \<le> ie_line e \<and> ie_line e \<le> length (split_on nl source)
    \<and> match_directive (split_on nl (strip_comments source) ! (ie_line e - 1)) \<noteq> None"
proof -
  have lines: "cleaned_lines source = split_on nl (strip_comments source)"
    using assms(1) by (simp add: cleaned_lines_def splice_lines_id)
  have e: "e \<in> set (check_lines allowed 1 (cleaned_lines source))"
    using assms(2) by (simp add: validate_direct_includes_def)
  show ?thesis
    using check_lines_location [OF e] lines strip_comments_newlines [of source] by auto
qed

theorem include_error_location_witness:
  "ie_line \<lparr>ie_line = 2, ie_code = ''dynamic_header_forbidden'', ie_value = ''H''\<rparr>
     \<le> length (split_on nl ([nl] @ ''#include H''))"
proof -
  have free: "splice_free (strip_comments ([nl] @ ''#include H''))"
    by (simp add: strip_comments_def comment_marks)
  have "\<lparr>ie_line = 2, ie_code = ''dynamic_header_forbidden'', ie_value = ''H''\<rparr>
      \<in> set (validate_direct_includes ([nl] @ ''#include H'') {})"
    by (simp add: validate_direct_includes_def cleaned_lines_def strip_comments_def comment_marks
        match_directive_def is_blank_def rstrip_by_def starts_with_def Let_def check_include_def
        strip_def is_py_space_def)
  from include_error_location [OF free this] show ?thesis by simp
qed

text \<open>A directive without a blank after the keyword is never inspected. A line that starts
  \<open>#include<\<close> or \<open>#include"\<close>, which every C++ compiler takes, passes with any header name and any
  allowlist, because the pattern demands a blank there.\<close>

theorem include_without_blank_unchecked:
  assumes "nl \<notin> set name" and "q = CHR ''<'' \<or> q = CHR 0x22"
  shows "validate_direct_includes (''#include'' @ q # name) allowed = []"
proof -
  have open_free: "opener_free ((''#include'' @ [q]) @ [CHR ''/''])"
    using assms(2) by auto
  have "strip_comments (''#include'' @ q # name) = ''#include'' @ q # strip_comments name"
    using strip_code_prefix [OF open_free, of name] by (simp add: strip_comments_def)
  moreover have "nl \<notin> set (''#include'' @ q # strip_comments name)"
    using assms strip_comments_no_nl by auto
  ultimately have "cleaned_lines (''#include'' @ q # name) = [''#include'' @ q # strip_comments name]"
    unfolding cleaned_lines_def by (simp only: splice_lines_no_nl split_on_no_sep not_False_eq_True)
  moreover have "match_directive (''#include'' @ q # strip_comments name) = None"
    using assms(2) by (auto simp: match_directive_def is_blank_def starts_with_def Let_def)
  ultimately show ?thesis by (simp add: validate_direct_includes_def)
qed

theorem include_without_blank_unchecked_witness:
  "validate_direct_includes ''#include</etc/passwd>'' {} = []"
  using include_without_blank_unchecked [of "''/etc/passwd>''" "CHR ''<''" "{}"] by simp

text \<open>A comment opener inside a string literal hides every later directive. After a line that
  opens no comment but holds the literal \<open>"/*"\<close>, the rest of the source is blanked as long as it
  does not close a comment, so a forbidden include on the next line is accepted.\<close>

theorem include_after_literal_unchecked:
  assumes "\<forall>a r. rest \<noteq> a @ ''*/'' @ r"
  shows "validate_direct_includes (''auto s='' @ [CHR 0x22] @ ''/*'' @ rest) allowed = []"
proof -
  define src where "src = ''auto s='' @ [CHR 0x22] @ ''/*'' @ rest"
  define out where "out = ''auto s='' @ [CHR 0x22] @ [sp, sp] @ map blank_out rest"
  have open_free: "opener_free ((''auto s='' @ [CHR 0x22]) @ [CHR ''/''])" by simp
  have stripped: "strip_comments src = out"
    using strip_code_prefix [OF open_free, of "''/*'' @ rest"] strip_open_block_body [of rest] assms
    unfolding strip_comments_def src_def out_def strip_from_block by simp
  have "set (splice_lines t) \<subseteq> insert sp (set t)" for t
    by (induction t rule: splice_lines.induct) auto
  moreover have "CHR ''#'' \<notin> insert sp (set out)"
    unfolding out_def by (auto simp: blank_out_def)
  ultimately have no_hash: "CHR ''#'' \<notin> set (splice_lines out)" by blast
  have "match_directive w = None" if "w \<in> set (cleaned_lines src)" for w
  proof (rule no_hash_no_directive)
    from that have "set w \<subseteq> set (splice_lines out)"
      unfolding cleaned_lines_def stripped by (rule set_split_on)
    with no_hash show "CHR ''#'' \<notin> set w" by blast
  qed
  then have "validate_direct_includes src allowed = []"
    unfolding validate_direct_includes_def check_lines_Nil by simp
  then show ?thesis unfolding src_def .
qed

theorem include_after_literal_unchecked_witness:
  "validate_direct_includes
     (''auto s='' @ [CHR 0x22] @ ''/*'' @ [CHR 0x22, nl] @ ''#include <evil>'') {} = []"
proof -
  have "\<forall>a r. [CHR 0x22, nl] @ ''#include <evil>'' \<noteq> a @ ''*/'' @ r"
    by (auto simp: Cons_eq_append_conv)
  from include_after_literal_unchecked [OF this] show ?thesis .
qed

end
