(* ===== verification/Execution.thy ===== *)
theory Execution
  imports Prelude
begin

text \<open>
  The constants of \<open>constants.py\<close>, the job states, and the result dataclasses of \<open>runner.py\<close> that
  the runner produces, the broker carries and the database stores.
\<close>

section \<open>Immutable ceilings\<close>

definition MAX_SOURCE_BYTES :: int where "MAX_SOURCE_BYTES = 1048576"
definition MAX_INPUT_BYTES :: int where "MAX_INPUT_BYTES = 1048576"
definition MAX_CASES :: nat where "MAX_CASES = 20"
definition MAX_DEVELOPER_ACCOUNTS :: nat where "MAX_DEVELOPER_ACCOUNTS = 3"
definition MAX_USER_INFLIGHT :: int where "MAX_USER_INFLIGHT = 5"
definition MAX_USER_RUNNING_MEMORY_MIB :: int where "MAX_USER_RUNNING_MEMORY_MIB = 256"
definition MIN_TIME_MS :: int where "MIN_TIME_MS = 100"
definition MIN_MEMORY_MIB :: int where "MIN_MEMORY_MIB = 16"
definition DEFAULT_WORKSPACE_QUOTA_MIB :: int where "DEFAULT_WORKSPACE_QUOTA_MIB = 1024"

lemmas ceilings = MAX_SOURCE_BYTES_def MAX_INPUT_BYTES_def MAX_CASES_def
  MAX_DEVELOPER_ACCOUNTS_def MAX_USER_INFLIGHT_def MAX_USER_RUNNING_MEMORY_MIB_def
  MIN_TIME_MS_def MIN_MEMORY_MIB_def DEFAULT_WORKSPACE_QUOTA_MIB_def

section \<open>Job states\<close>

datatype job_state =
    Queued | Compiling | Running | Completed | CompileError
  | RuntimeErr | TimeLimit | MemoryLimit | OutputLimit
  | Cancelled | SystemError

fun state_name :: "job_state \<Rightarrow> string" where
  "state_name Queued = ''queued''"
| "state_name Compiling = ''compiling''"
| "state_name Running = ''running''"
| "state_name Completed = ''completed''"
| "state_name CompileError = ''compile_error''"
| "state_name RuntimeErr = ''runtime_error''"
| "state_name TimeLimit = ''time_limit''"
| "state_name MemoryLimit = ''memory_limit''"
| "state_name OutputLimit = ''output_limit''"
| "state_name Cancelled = ''cancelled''"
| "state_name SystemError = ''system_error''"

definition JOB_STATES :: "job_state list" where
  "JOB_STATES =
     [Queued, Compiling, Running, Completed, CompileError, RuntimeErr, TimeLimit, MemoryLimit,
      OutputLimit, Cancelled, SystemError]"

definition TERMINAL_STATES :: "job_state list" where
  "TERMINAL_STATES =
     [Completed, CompileError, RuntimeErr, TimeLimit, MemoryLimit, OutputLimit, Cancelled,
      SystemError]"

text \<open>The states the database queries call unfinished and active.\<close>

definition unfinished :: "job_state \<Rightarrow> bool" where
  "unfinished st \<longleftrightarrow> st = Queued \<or> st = Compiling \<or> st = Running"

definition active :: "job_state \<Rightarrow> bool" where
  "active st \<longleftrightarrow> st = Compiling \<or> st = Running"

abbreviation terminal :: "job_state \<Rightarrow> bool" where
  "terminal st \<equiv> st \<in> set TERMINAL_STATES"

lemma terminal_iff: "terminal st \<longleftrightarrow> \<not> unfinished st"
  by (cases st) (simp_all add: TERMINAL_STATES_def unfinished_def)

lemma active_unfinished: "active st \<Longrightarrow> unfinished st"
  by (simp add: active_def unfinished_def)

lemma state_name_inject [simp]: "state_name a = state_name b \<longleftrightarrow> a = b"
  by (cases a; cases b) simp_all

section \<open>Results\<close>

record compile_result =
  cr_status :: job_state
  cr_stdout :: string
  cr_stderr :: string
  cr_exit_code :: "int option"
  cr_wall_time_ms :: "int option"
  cr_output_truncated :: bool

record case_result =
  ca_position :: int
  ca_status :: job_state
  ca_stdout :: string
  ca_stderr :: string
  ca_exit_code :: "int option"
  ca_term_signal :: "int option"
  ca_wall_time_ms :: "int option"
  ca_peak_memory_kib :: "int option"
  ca_output_truncated :: bool

record execution_result =
  ex_status :: job_state
  ex_compile :: compile_result
  ex_cases :: "case_result list"

end
