(* ===== verification/Db_Schema.thy ===== *)
theory Db_Schema
  imports Execution
begin

text \<open>
  The tables of \<open>database.py\<close>: one record per row type, a table with its AUTOINCREMENT counter,
  and the statements the queries are made of (INSERT, UPDATE ... WHERE with its rowcount, DELETE,
  SELECT). Timestamps are UTC instants in microseconds: the fields \<open>iso()\<close> prints have
  fixed width but for the microseconds, left out when they are zero, and since \<open>+\<close> precedes \<open>.\<close> the
  text order SQLite compares by is still the order of the instants. Rows are listed in
  rowid order. The interface \<open>keyed_row\<close> states what a row type needs for the id discipline of an
  AUTOINCREMENT table; it is interpreted for every table below.
\<close>

type_synonym stamp = int

section \<open>Tables\<close>

record 'r table =
  t_rows :: "'r list"
  t_seq :: int

definition empty_table :: "'r table" where
  "empty_table = \<lparr>t_rows = [], t_seq = 0\<rparr>"

definition insert_row :: "(int \<Rightarrow> 'r \<Rightarrow> 'r) \<Rightarrow> 'r \<Rightarrow> 'r table \<Rightarrow> int \<times> 'r table" where
  "insert_row put r t =
     (let i = t_seq t + 1 in (i, t\<lparr>t_rows := t_rows t @ [put i r], t_seq := i\<rparr>))"

definition update_where :: "('r \<Rightarrow> bool) \<Rightarrow> ('r \<Rightarrow> 'r) \<Rightarrow> 'r table \<Rightarrow> 'r table" where
  "update_where P f t = t\<lparr>t_rows := map (\<lambda>r. if P r then f r else r) (t_rows t)\<rparr>"

definition delete_where :: "('r \<Rightarrow> bool) \<Rightarrow> 'r table \<Rightarrow> 'r table" where
  "delete_where P t = t\<lparr>t_rows := filter (\<lambda>r. \<not> P r) (t_rows t)\<rparr>"

definition select_where :: "('r \<Rightarrow> bool) \<Rightarrow> 'r table \<Rightarrow> 'r list" where
  "select_where P t = filter P (t_rows t)"

definition rowcount :: "('r \<Rightarrow> bool) \<Rightarrow> 'r table \<Rightarrow> nat" where
  "rowcount P t = length (filter P (t_rows t))"

text \<open>The id discipline: distinct ids between 1 and the counter.\<close>

definition keys_ok :: "('r \<Rightarrow> int) \<Rightarrow> 'r table \<Rightarrow> bool" where
  "keys_ok rid t \<longleftrightarrow>
     0 \<le> t_seq t \<and> distinct (map rid (t_rows t)) \<and> (\<forall>r \<in> set (t_rows t). 1 \<le> rid r \<and> rid r \<le> t_seq t)"

lemma table_rows [simp]:
  "t_rows empty_table = []"
  "t_rows (snd (insert_row put r t)) = t_rows t @ [put (t_seq t + 1) r]"
  "t_rows (update_where P f t) = map (\<lambda>r. if P r then f r else r) (t_rows t)"
  "t_rows (delete_where P t) = filter (\<lambda>r. \<not> P r) (t_rows t)"
  by (simp_all add: empty_table_def insert_row_def Let_def update_where_def delete_where_def)

lemma table_seq [simp]:
  "t_seq empty_table = 0"
  "t_seq (snd (insert_row put r t)) = t_seq t + 1"
  "t_seq (update_where P f t) = t_seq t"
  "t_seq (delete_where P t) = t_seq t"
  by (simp_all add: empty_table_def insert_row_def Let_def update_where_def delete_where_def)

lemma insert_row_id [simp]: "fst (insert_row put r t) = t_seq t + 1"
  by (simp add: insert_row_def Let_def)

lemma insert_row_pair:
  "insert_row put r t = (i, t') \<longleftrightarrow> i = t_seq t + 1 \<and> t' = snd (insert_row put r t)"
  by (auto simp: insert_row_def Let_def)

lemma in_update_where:
  "r \<in> set (t_rows (update_where P f t)) \<longleftrightarrow>
     (\<exists>q \<in> set (t_rows t). r = (if P q then f q else q))"
  by auto

lemma keys_ok_unique:
  assumes "keys_ok rid t" and "r \<in> set (t_rows t)" and "q \<in> set (t_rows t)" and "rid r = rid q"
  shows "r = q"
  using assms by (auto simp: keys_ok_def distinct_map dest: inj_onD)

lemma keys_ok_find:
  assumes "keys_ok rid t" and "r \<in> set (t_rows t)"
  shows "find (\<lambda>q. rid q = rid r) (t_rows t) = Some r"
proof -
  from assms(2) obtain q where q: "find (\<lambda>q. rid q = rid r) (t_rows t) = Some q"
    by (metis (mono_tags, lifting) find_None_iff not_None_eq)
  then have "q \<in> set (t_rows t)" and "rid q = rid r"
    by (auto dest: find_Some_filter)
  with assms q show ?thesis using keys_ok_unique by metis
qed

lemma keys_ok_empty [simp]: "keys_ok rid empty_table"
  by (simp add: keys_ok_def)

lemma keys_ok_delete: "keys_ok rid t \<Longrightarrow> keys_ok rid (delete_where P t)"
  by (auto simp: keys_ok_def distinct_map inj_on_def)

lemma delete_where_none: "(\<And>r. r \<in> set (t_rows t) \<Longrightarrow> \<not> P r) \<Longrightarrow> delete_where P t = t"
  by (cases t) (simp add: delete_where_def filter_True)

lemma keys_ok_update:
  assumes "\<And>r. rid (f r) = rid r" and "keys_ok rid t"
  shows "keys_ok rid (update_where P f t)"
proof -
  have "map rid (t_rows (update_where P f t)) = map rid (t_rows t)"
    using assms(1) by simp
  then have "distinct (map rid (t_rows (update_where P f t)))"
    using assms(2) by (simp only: keys_ok_def)
  then show ?thesis using assms unfolding keys_ok_def in_update_where by auto
qed

lemma key_image_update:
  assumes "\<And>r. rid (f r) = rid r"
  shows "rid ` set (t_rows (update_where P f t)) = rid ` set (t_rows t)"
proof -
  have "map rid (t_rows (update_where P f t)) = map rid (t_rows t)" using assms by simp
  then show ?thesis by (metis list.set_map)
qed

lemma update_where_key:
  assumes "r \<in> set (t_rows (update_where (\<lambda>q. rid q = i) f t))" and "rid r = i"
    and "\<And>q. rid (f q) = rid q"
  obtains q where "q \<in> set (t_rows t)" and "rid q = i" and "r = f q"
proof -
  from assms(1) obtain q where q: "q \<in> set (t_rows t)" "r = (if rid q = i then f q else q)"
    unfolding in_update_where by blast
  show ?thesis
  proof (cases "rid q = i")
    case True
    with q that show ?thesis by simp
  next
    case False
    with q assms(2) show ?thesis by simp
  qed
qed

lemma rowcount_key:
  assumes "keys_ok rid t" and "r \<in> set (t_rows t)" and "rid r = i"
  shows "rowcount (\<lambda>q. rid q = i \<and> Q q) t = (if Q r then 1 else 0)"
proof -
  have "filter (\<lambda>q. rid q = i \<and> Q q) (t_rows t) = (if Q r then [r] else [])"
  proof -
    from assms(2) obtain xs ys where xs: "t_rows t = xs @ r # ys"
      by (meson split_list)
    from assms(1,3) have "i \<notin> rid ` set xs" "i \<notin> rid ` set ys"
      unfolding keys_ok_def xs by auto
    then have "filter (\<lambda>q. rid q = i \<and> Q q) xs = []" "filter (\<lambda>q. rid q = i \<and> Q q) ys = []"
      by (auto simp: filter_empty_conv)
    with assms(3) show ?thesis unfolding xs by simp
  qed
  then show ?thesis by (simp add: rowcount_def)
qed

section \<open>The interface of an AUTOINCREMENT row\<close>

locale keyed_row =
  fixes rid :: "'r \<Rightarrow> int"
    and put :: "int \<Rightarrow> 'r \<Rightarrow> 'r"
  assumes rid_put: "rid (put i r) = i"
begin

lemma insert_keys_ok: "keys_ok rid t \<Longrightarrow> keys_ok rid (snd (insert_row put r t))"
  by (auto simp: keys_ok_def rid_put)

lemma insert_fresh: "keys_ok rid t \<Longrightarrow> t_seq t + 1 \<notin> rid ` set (t_rows t)"
  by (auto simp: keys_ok_def)

lemma insert_find:
  assumes "keys_ok rid t"
  shows "find (\<lambda>q. rid q = t_seq t + 1) (t_rows (snd (insert_row put r t)))
    = Some (put (t_seq t + 1) r)"
proof -
  have "put (t_seq t + 1) r \<in> set (t_rows (snd (insert_row put r t)))" by simp
  from keys_ok_find [OF insert_keys_ok [OF assms] this] show ?thesis
    by (simp only: rid_put)
qed

lemma insert_find_other:
  assumes "i \<noteq> t_seq t + 1"
  shows "find (\<lambda>q. rid q = i) (t_rows (snd (insert_row put r t)))
    = find (\<lambda>q. rid q = i) (t_rows t)"
proof -
  have "find P (xs @ [x]) = find P xs" if "\<not> P x" for P x and xs :: "'r list"
    using that by (induction xs) auto
  with assms show ?thesis by (simp add: rid_put)
qed

end

section \<open>Rows\<close>

datatype role = Admin | Developer
datatype user_status = Active | Disabled

record user_row =
  u_id :: int
  u_public_id :: string
  u_username :: string
  u_role :: role
  u_password_hash :: string
  u_api_token_hash :: "string option"
  u_status :: user_status
  u_workspace_path :: "string option"
  u_workspace_quota_mib :: int
  u_created_at :: stamp
  u_last_login_at :: "stamp option"

record session_row =
  s_id :: int
  s_user_id :: int
  s_token_hash :: string
  s_csrf_token :: string
  s_expires_at :: stamp
  s_created_at :: stamp

record header_row =
  h_name :: string
  h_enabled :: bool
  h_builtin :: bool
  h_updated_at :: stamp

record job_row =
  j_id :: int
  j_user_id :: int
  j_filename :: string
  j_source :: string
  j_compiler :: string
  j_time_limit_ms :: int
  j_memory_limit_mib :: int
  j_status :: job_state
  j_created_at :: stamp
  j_started_at :: "stamp option"
  j_finished_at :: "stamp option"
  j_cancel_requested :: bool
  j_compile_status :: "job_state option"
  j_compile_stdout :: string
  j_compile_stderr :: string
  j_compile_exit_code :: "int option"
  j_compile_wall_time_ms :: "int option"
  j_grant_id :: "int option"

record case_row =
  c_id :: int
  c_job_id :: int
  c_position :: int
  c_input_text :: string
  c_status :: job_state
  c_stdout :: string
  c_stderr :: string
  c_wall_time_ms :: "int option"
  c_peak_memory_kib :: "int option"
  c_exit_code :: "int option"
  c_term_signal :: "int option"
  c_output_truncated :: bool

record grant_row =
  g_id :: int
  g_user_id :: int
  g_memory_limit_mib :: "int option"
  g_time_limit_ms :: "int option"
  g_max_inflight :: "int option"
  g_remaining_uses :: "int option"
  g_expires_at :: "stamp option"
  g_active :: bool
  g_created_at :: stamp
  g_created_by :: int

record catalog_row =
  x_id :: int
  x_extension_id :: string
  x_version :: string
  x_sha256 :: string
  x_enabled :: bool
  x_created_at :: stamp

datatype request_status = Pending | Approved | Rejected | Revoked

record ext_request_row =
  r_id :: int
  r_user_id :: int
  r_catalog_id :: int
  r_status :: request_status
  r_scope :: "string option"
  r_created_at :: stamp
  r_decided_at :: "stamp option"
  r_decided_by :: "int option"

record login_failure_row =
  l_scope :: string
  l_username :: string
  l_source :: string
  l_failures :: int
  l_first_failed_at :: stamp
  l_blocked_until :: "stamp option"

text \<open>The value of \<open>details_json\<close> is the JSON text of a dictionary of these values.\<close>

datatype detail = Detail_Text string | Detail_Int int | Detail_Bool bool | Detail_Null

type_synonym details = "(string \<times> detail) list"

record audit_row =
  a_id :: int
  a_actor_user_id :: "int option"
  a_action :: string
  a_target_type :: "string option"
  a_target_id :: "string option"
  a_details :: details
  a_created_at :: stamp

record db =
  users :: "user_row table"
  sessions :: "session_row table"
  header_policy :: "header_row list"
  jobs :: "job_row table"
  job_cases :: "case_row table"
  quota_grants :: "grant_row table"
  extension_catalog :: "catalog_row table"
  extension_requests :: "ext_request_row table"
  login_failures :: "login_failure_row list"
  audit_log :: "audit_row table"

definition empty_db :: db where
  "empty_db =
     \<lparr>users = empty_table, sessions = empty_table, header_policy = [], jobs = empty_table,
      job_cases = empty_table, quota_grants = empty_table, extension_catalog = empty_table,
      extension_requests = empty_table, login_failures = [], audit_log = empty_table\<rparr>"

interpretation user_key: keyed_row u_id "\<lambda>i. u_id_update (\<lambda>_. i)"
  by unfold_locales simp
interpretation session_key: keyed_row s_id "\<lambda>i. s_id_update (\<lambda>_. i)"
  by unfold_locales simp
interpretation job_key: keyed_row j_id "\<lambda>i. j_id_update (\<lambda>_. i)"
  by unfold_locales simp
interpretation case_key: keyed_row c_id "\<lambda>i. c_id_update (\<lambda>_. i)"
  by unfold_locales simp
interpretation grant_key: keyed_row g_id "\<lambda>i. g_id_update (\<lambda>_. i)"
  by unfold_locales simp
interpretation catalog_key: keyed_row x_id "\<lambda>i. x_id_update (\<lambda>_. i)"
  by unfold_locales simp
interpretation request_key: keyed_row r_id "\<lambda>i. r_id_update (\<lambda>_. i)"
  by unfold_locales simp
interpretation audit_key: keyed_row a_id "\<lambda>i. a_id_update (\<lambda>_. i)"
  by unfold_locales simp

end
