(* ===== verification/Db_Jobs.thy ===== *)
theory Db_Jobs
  imports Db_Schema
begin

text \<open>
  The job queue of \<open>database.py\<close>: quota grants and the limits they give, submission, the scheduling
  query of \<open>claim_next_job\<close>, completion, failure and cancellation. An operation that reads the clock
  several times takes the readings as a function of their number. An operation returns its value
  and the new database, or an exception, and then nothing is committed.
\<close>

type_synonym clock = "nat \<Rightarrow> stamp"

section \<open>Submission\<close>

record job_payload =
  p_filename :: string
  p_source :: string
  p_compiler :: string
  p_time_limit_ms :: int
  p_memory_limit_mib :: int
  p_inputs :: "string list"

record effective =
  lim_memory_mib :: int
  lim_time_ms :: int
  lim_inflight :: int

record job_detail =
  jd_job :: job_row
  jd_cases :: "case_row list"
  jd_case_count :: nat

definition user_exists :: "db \<Rightarrow> int \<Rightarrow> bool" where
  "user_exists s uid \<longleftrightarrow> find (\<lambda>u. u_id u = uid) (t_rows (users s)) \<noteq> None"

text \<open>The condition shared by the grant queries.\<close>

definition live_grant :: "stamp \<Rightarrow> grant_row \<Rightarrow> bool" where
  "live_grant now g \<longleftrightarrow>
     g_active g
     \<and> (case g_expires_at g of None \<Rightarrow> True | Some e \<Rightarrow> e > now)
     \<and> (case g_remaining_uses g of None \<Rightarrow> True | Some n \<Rightarrow> n > 0)"

text \<open>\<open>[r[c] for r in rows if r[c]]\<close>: neither NULL nor zero.\<close>

definition truthy_values :: "('r \<Rightarrow> int option) \<Rightarrow> 'r list \<Rightarrow> int list" where
  "truthy_values col rows = filter (\<lambda>v. v \<noteq> 0) (List.map_filter col rows)"

definition py_max :: "int \<Rightarrow> int list \<Rightarrow> int" where
  "py_max base vs = foldl max base vs"

definition effective_limits :: "db \<Rightarrow> stamp \<Rightarrow> int \<Rightarrow> effective" where
  "effective_limits s now uid =
     (let rows = select_where (\<lambda>g. g_user_id g = uid \<and> live_grant now g) (quota_grants s)
      in \<lparr>lim_memory_mib = py_max 256 (truthy_values g_memory_limit_mib rows),
          lim_time_ms = py_max 60000 (truthy_values g_time_limit_ms rows),
          lim_inflight = py_max MAX_USER_INFLIGHT (truthy_values g_max_inflight rows)\<rparr>)"

definition inflight :: "db \<Rightarrow> int \<Rightarrow> nat" where
  "inflight s uid = rowcount (\<lambda>j. j_user_id j = uid \<and> unfinished (j_status j)) (jobs s)"

text \<open>SQL's \<open>?<=base OR column>=?\<close>, where a NULL column is not at least anything.\<close>

definition covers :: "int \<Rightarrow> int option \<Rightarrow> int \<Rightarrow> bool" where
  "covers base column wanted \<longleftrightarrow>
     wanted \<le> base \<or> (case column of None \<Rightarrow> False | Some v \<Rightarrow> v \<ge> wanted)"

definition find_grant :: "db \<Rightarrow> stamp \<Rightarrow> int \<Rightarrow> job_payload \<Rightarrow> grant_row option" where
  "find_grant s now uid p =
     first_by (\<lambda>g. (g_expires_at g = None, g_expires_at g, g_id g))
       (select_where
          (\<lambda>g. g_user_id g = uid \<and> live_grant now g
               \<and> covers 256 (g_memory_limit_mib g) (p_memory_limit_mib p)
               \<and> covers 60000 (g_time_limit_ms g) (p_time_limit_ms p))
          (quota_grants s))"

definition get_job :: "db \<Rightarrow> int \<Rightarrow> int option \<Rightarrow> job_detail option" where
  "get_job s job_id uid =
     (case fetchone (select_where
              (\<lambda>j. j_id j = job_id \<and> (case uid of None \<Rightarrow> True | Some u \<Rightarrow> j_user_id j = u)) (jobs s)) of
        None \<Rightarrow> None
      | Some job \<Rightarrow>
          let cases = sort_key c_position (select_where (\<lambda>c. c_job_id c = job_id) (job_cases s))
          in Some \<lparr>jd_job = job, jd_cases = cases, jd_case_count = length cases\<rparr>)"

definition new_job :: "stamp \<Rightarrow> int \<Rightarrow> job_payload \<Rightarrow> int option \<Rightarrow> job_row" where
  "new_job now uid p grant =
     \<lparr>j_id = 0, j_user_id = uid, j_filename = p_filename p, j_source = p_source p,
      j_compiler = p_compiler p, j_time_limit_ms = p_time_limit_ms p,
      j_memory_limit_mib = p_memory_limit_mib p, j_status = Queued, j_created_at = now,
      j_started_at = None, j_finished_at = None, j_cancel_requested = False,
      j_compile_status = None, j_compile_stdout = [], j_compile_stderr = [],
      j_compile_exit_code = None, j_compile_wall_time_ms = None, j_grant_id = grant\<rparr>"

definition new_case :: "int \<Rightarrow> int \<Rightarrow> string \<Rightarrow> case_row" where
  "new_case job_id position text =
     \<lparr>c_id = 0, c_job_id = job_id, c_position = position, c_input_text = text, c_status = Queued,
      c_stdout = [], c_stderr = [], c_wall_time_ms = None, c_peak_memory_kib = None,
      c_exit_code = None, c_term_signal = None, c_output_truncated = False\<rparr>"

text \<open>\<open>executemany\<close> over \<open>enumerate(inputs, 1)\<close>.\<close>

fun insert_cases :: "int \<Rightarrow> int \<Rightarrow> string list \<Rightarrow> case_row table \<Rightarrow> case_row table" where
  "insert_cases job_id position [] t = t"
| "insert_cases job_id position (x # xs) t =
     insert_cases job_id (position + 1) xs
       (snd (insert_row (\<lambda>i. c_id_update (\<lambda>_. i)) (new_case job_id position x) t))"

definition insert_job :: "stamp \<Rightarrow> int \<Rightarrow> job_payload \<Rightarrow> int option \<Rightarrow> db \<Rightarrow> int \<times> db" where
  "insert_job now uid p grant s =
     (let (job_id, jobs') = insert_row (\<lambda>i. j_id_update (\<lambda>_. i)) (new_job now uid p grant) (jobs s)
      in (job_id, s\<lparr>jobs := jobs', job_cases := insert_cases job_id 1 (p_inputs p) (job_cases s)\<rparr>))"

text \<open>
  The clock is read for the limits (0), for the grant query (1) and for \<open>created_at\<close> (2). The
  queries before the INSERT run outside a transaction (Python's driver opens one only for the
  INSERT), so the operation is the check followed by the insertion, and another connection may
  commit in between; \<open>create_job\<close> is the two run without interference. The foreign key on
  \<open>user_id\<close> is checked by the INSERT.
\<close>

definition submission_check :: "clock \<Rightarrow> int \<Rightarrow> job_payload \<Rightarrow> db \<Rightarrow> int option result" where
  "submission_check clk uid p s =
     (if int (inflight s uid) \<ge> lim_inflight (effective_limits s (clk 0) uid)
      then Inl (OverflowError ''inflight_limit'')
      else if p_memory_limit_mib p > 256 \<or> p_time_limit_ms p > 60000 then
        (case find_grant s (clk 1) uid p of
           None \<Rightarrow> Inl (ValueError ''quota_exceeded'')
         | Some g \<Rightarrow> Inr (Some (g_id g)))
      else Inr None)"

definition submission_insert ::
    "clock \<Rightarrow> int \<Rightarrow> job_payload \<Rightarrow> int option \<Rightarrow> db \<Rightarrow> (job_detail option \<times> db) result" where
  "submission_insert clk uid p grant s =
     (if \<not> user_exists s uid then Inl (IntegrityError ''FOREIGN KEY constraint failed'')
      else
        let (job_id, s') = insert_job (clk 2) uid p grant s
        in Inr (get_job s' job_id (Some uid), s'))"

definition create_job ::
    "clock \<Rightarrow> int \<Rightarrow> job_payload \<Rightarrow> db \<Rightarrow> (job_detail option \<times> db) result" where
  "create_job clk uid p s =
     bind_result (submission_check clk uid p s) (\<lambda>grant. submission_insert clk uid p grant s)"

section \<open>Scheduling\<close>

definition active_memory :: "db \<Rightarrow> int \<Rightarrow> int" where
  "active_memory s uid =
     sum_list (map j_memory_limit_mib
       (select_where (\<lambda>a. j_user_id a = uid \<and> active (j_status a)) (jobs s)))"

text \<open>\<open>COALESCE((SELECT memory_limit_mib of the job's live grant), 256)\<close>.\<close>

definition claim_ceiling :: "db \<Rightarrow> stamp \<Rightarrow> job_row \<Rightarrow> int" where
  "claim_ceiling s now j =
     (case fetchone (select_where (\<lambda>g. j_grant_id j = Some (g_id g) \<and> live_grant now g) (quota_grants s)) of
        None \<Rightarrow> MAX_USER_RUNNING_MEMORY_MIB
      | Some g \<Rightarrow> (case g_memory_limit_mib g of None \<Rightarrow> MAX_USER_RUNNING_MEMORY_MIB | Some m \<Rightarrow> m))"

definition last_claimed_at :: "db \<Rightarrow> int \<Rightarrow> stamp option" where
  "last_claimed_at s uid =
     sql_max (List.map_filter j_started_at (select_where (\<lambda>j. j_user_id j = uid) (jobs s)))"

definition is_eligible :: "db \<Rightarrow> stamp \<Rightarrow> job_row \<Rightarrow> bool" where
  "is_eligible s now j \<longleftrightarrow>
     user_exists s (j_user_id j) \<and> j_status j = Queued \<and> \<not> j_cancel_requested j
     \<and> active_memory s (j_user_id j) + j_memory_limit_mib j \<le> claim_ceiling s now j"

definition eligible :: "db \<Rightarrow> stamp \<Rightarrow> job_row list" where
  "eligible s now = select_where (is_eligible s now) (jobs s)"

text \<open>\<open>ROW_NUMBER() OVER (PARTITION BY user_id ORDER BY created_at, id) = 1\<close>.\<close>

definition queue_heads :: "job_row list \<Rightarrow> job_row list" where
  "queue_heads js =
     filter (\<lambda>j. \<forall>k \<in> set js. j_user_id k = j_user_id j
                   \<longrightarrow> (j_created_at j, j_id j) \<le> (j_created_at k, j_id k)) js"

definition next_candidate :: "db \<Rightarrow> stamp \<Rightarrow> job_row option" where
  "next_candidate s now =
     first_by (\<lambda>j. (last_claimed_at s (j_user_id j), j_user_id j)) (queue_heads (eligible s now))"

record claimed_job =
  cj_job :: job_row
  cj_owner_public_id :: string
  cj_cases :: "case_row list"

definition charge_grant :: "grant_row \<Rightarrow> grant_row" where
  "charge_grant g = g\<lparr>g_remaining_uses := map_option (\<lambda>n. n - 1) (g_remaining_uses g)\<rparr>"

definition cancel_expired :: "stamp \<Rightarrow> int \<Rightarrow> db \<Rightarrow> db" where
  "cancel_expired now job_id s =
     s\<lparr>jobs := update_where (\<lambda>j. j_id j = job_id)
                 (\<lambda>j. j\<lparr>j_status := Cancelled, j_finished_at := Some now\<rparr>) (jobs s),
       job_cases := update_where (\<lambda>c. c_job_id c = job_id)
                 (\<lambda>c. c\<lparr>c_status := Cancelled,
                        c_stderr := ''temporary grant expired before execution''\<rparr>) (job_cases s)\<rparr>"

definition owner_public_id :: "db \<Rightarrow> int \<Rightarrow> string" where
  "owner_public_id s uid =
     (case find (\<lambda>u. u_id u = uid) (t_rows (users s)) of None \<Rightarrow> [] | Some u \<Rightarrow> u_public_id u)"

definition start_job :: "stamp \<Rightarrow> job_row \<Rightarrow> db \<Rightarrow> claimed_job option \<times> db" where
  "start_job now row s =
     (let P = (\<lambda>j. j_id j = j_id row \<and> j_status j = Queued)
      in if rowcount P (jobs s) \<noteq> 1 then (None, s)
         else
           let s' = s\<lparr>jobs := update_where P
                        (\<lambda>j. j\<lparr>j_status := Compiling, j_started_at := Some now\<rparr>) (jobs s)\<rparr>
           in (Some \<lparr>cj_job = row\<lparr>j_status := Compiling\<rparr>,
                     cj_owner_public_id = owner_public_id s (j_user_id row),
                     cj_cases = sort_key c_position
                       (select_where (\<lambda>c. c_job_id c = j_id row) (job_cases s))\<rparr>, s'))"

text \<open>
  One immediate transaction: the clock is read by the scheduling query (0), by the charge (1) and
  by the update that follows (2). The rollback after a lost start also undoes the charge.
\<close>

definition claim_next_job :: "clock \<Rightarrow> db \<Rightarrow> claimed_job option \<times> db" where
  "claim_next_job clk s =
     (case next_candidate s (clk 0) of
        None \<Rightarrow> (None, s)
      | Some row \<Rightarrow>
          (case j_grant_id row of
             None \<Rightarrow> start_job (clk 2) row s
           | Some gid \<Rightarrow>
               let P = (\<lambda>g. g_id g = gid \<and> live_grant (clk 1) g)
               in if rowcount P (quota_grants s) \<noteq> 1
                  then (None, cancel_expired (clk 2) (j_id row) s)
                  else
                    case start_job (clk 2) row
                           (s\<lparr>quota_grants := update_where P charge_grant (quota_grants s)\<rparr>) of
                      (None, _) \<Rightarrow> (None, s)
                    | (Some job, s') \<Rightarrow> (Some job, s')))"

section \<open>Completion\<close>

definition finish_row :: "stamp \<Rightarrow> execution_result \<Rightarrow> job_row \<Rightarrow> job_row" where
  "finish_row now ex j =
     j\<lparr>j_status := ex_status ex, j_finished_at := Some now,
       j_compile_status := Some (cr_status (ex_compile ex)),
       j_compile_stdout := cr_stdout (ex_compile ex),
       j_compile_stderr := cr_stderr (ex_compile ex),
       j_compile_exit_code := cr_exit_code (ex_compile ex),
       j_compile_wall_time_ms := cr_wall_time_ms (ex_compile ex)\<rparr>"

definition finish_case_row :: "case_result \<Rightarrow> case_row \<Rightarrow> case_row" where
  "finish_case_row r c =
     c\<lparr>c_status := ca_status r, c_stdout := ca_stdout r, c_stderr := ca_stderr r,
       c_wall_time_ms := ca_wall_time_ms r, c_peak_memory_kib := ca_peak_memory_kib r,
       c_exit_code := ca_exit_code r, c_term_signal := ca_term_signal r,
       c_output_truncated := ca_output_truncated r\<rparr>"

fun store_cases :: "int \<Rightarrow> case_result list \<Rightarrow> case_row table \<Rightarrow> case_row table" where
  "store_cases job_id [] t = t"
| "store_cases job_id (r # rs) t =
     store_cases job_id rs
       (update_where (\<lambda>c. c_job_id c = job_id \<and> c_position c = ca_position r) (finish_case_row r) t)"

definition cancel_queued_cases :: "int \<Rightarrow> string \<Rightarrow> case_row table \<Rightarrow> case_row table" where
  "cancel_queued_cases job_id message t =
     update_where (\<lambda>c. c_job_id c = job_id \<and> c_status c = Queued)
       (\<lambda>c. c\<lparr>c_status := Cancelled, c_stderr := message\<rparr>) t"

definition finish_job :: "stamp \<Rightarrow> int \<Rightarrow> execution_result \<Rightarrow> db \<Rightarrow> db" where
  "finish_job now job_id ex s =
     s\<lparr>jobs := update_where (\<lambda>j. j_id j = job_id) (finish_row now ex) (jobs s),
       job_cases := cancel_queued_cases job_id
         (if cr_status (ex_compile ex) \<noteq> Completed
          then ''not run because compilation did not complete''
          else ''submission ended before this case started'')
         (store_cases job_id (ex_cases ex) (job_cases s))\<rparr>"

definition mark_job_system_error :: "stamp \<Rightarrow> int \<Rightarrow> string \<Rightarrow> db \<Rightarrow> db" where
  "mark_job_system_error now job_id message s =
     s\<lparr>jobs := update_where (\<lambda>j. j_id j = job_id)
                 (\<lambda>j. j\<lparr>j_status := SystemError, j_finished_at := Some now,
                        j_compile_status := Some SystemError,
                        j_compile_stderr := take 16384 message\<rparr>) (jobs s),
       job_cases := cancel_queued_cases job_id ''runner internal error'' (job_cases s)\<rparr>"

section \<open>Cancellation\<close>

definition cancel_row :: "stamp \<Rightarrow> job_row \<Rightarrow> job_row" where
  "cancel_row now j =
     j\<lparr>j_status := Cancelled, j_cancel_requested := True, j_finished_at := Some now\<rparr>"

definition request_cancel :: "int \<Rightarrow> db \<Rightarrow> db" where
  "request_cancel job_id s =
     s\<lparr>jobs := update_where (\<lambda>j. j_id j = job_id) (\<lambda>j. j\<lparr>j_cancel_requested := True\<rparr>) (jobs s)\<rparr>"

definition cancel_job :: "stamp \<Rightarrow> int \<Rightarrow> int \<Rightarrow> db \<Rightarrow> job_detail option \<times> db" where
  "cancel_job now job_id uid s =
     (case fetchone (select_where (\<lambda>j. j_id j = job_id \<and> j_user_id j = uid) (jobs s)) of
        None \<Rightarrow> (None, s)
      | Some row \<Rightarrow>
          let s' =
            (if j_status row = Queued then
               s\<lparr>jobs := update_where (\<lambda>j. j_id j = job_id) (cancel_row now) (jobs s),
                 job_cases := update_where (\<lambda>c. c_job_id c = job_id)
                   (\<lambda>c. c\<lparr>c_status := Cancelled, c_stderr := ''cancelled by user''\<rparr>) (job_cases s)\<rparr>
             else if active (j_status row) then request_cancel job_id s
             else s)
          in (get_job s' job_id (Some uid), s'))"

definition cancel_job_admin :: "stamp \<Rightarrow> int \<Rightarrow> db \<Rightarrow> job_detail option \<times> db" where
  "cancel_job_admin now job_id s =
     (case fetchone (select_where (\<lambda>j. j_id j = job_id) (jobs s)) of
        None \<Rightarrow> (None, s)
      | Some row \<Rightarrow>
          let s' =
            (if j_status row = Queued then
               s\<lparr>jobs := update_where (\<lambda>j. j_id j = job_id) (cancel_row now) (jobs s),
                 job_cases := update_where (\<lambda>c. c_job_id c = job_id)
                   (\<lambda>c. c\<lparr>c_status := Cancelled\<rparr>) (job_cases s)\<rparr>
             else if active (j_status row) then request_cancel job_id s
             else s)
          in (get_job s' job_id None, s'))"

definition is_cancel_requested :: "int \<Rightarrow> db \<Rightarrow> bool" where
  "is_cancel_requested job_id s =
     (case fetchone (select_where (\<lambda>j. j_id j = job_id) (jobs s)) of
        None \<Rightarrow> False
      | Some row \<Rightarrow> j_cancel_requested row \<or> j_status row = Cancelled)"

section \<open>Grants\<close>

record grant_payload =
  gp_memory_limit_mib :: "int option"
  gp_time_limit_ms :: "int option"
  gp_max_inflight :: "int option"
  gp_remaining_uses :: "int option"
  gp_expires_in_seconds :: "int option"

text \<open>The clock is read for the expiry (0) and for \<open>created_at\<close> (1).\<close>

definition new_grant :: "clock \<Rightarrow> int \<Rightarrow> int \<Rightarrow> grant_payload \<Rightarrow> grant_row" where
  "new_grant clk uid actor p =
     \<lparr>g_id = 0, g_user_id = uid, g_memory_limit_mib = gp_memory_limit_mib p,
      g_time_limit_ms = gp_time_limit_ms p, g_max_inflight = gp_max_inflight p,
      g_remaining_uses = gp_remaining_uses p,
      g_expires_at = (case gp_expires_in_seconds p of
                        None \<Rightarrow> None
                      | Some n \<Rightarrow> if n = 0 then None else Some (clk 0 + n * 1000000)),
      g_active = True, g_created_at = clk 1, g_created_by = actor\<rparr>"

definition create_grant :: "clock \<Rightarrow> int \<Rightarrow> int \<Rightarrow> grant_payload \<Rightarrow> db \<Rightarrow> (grant_row \<times> db) result" where
  "create_grant clk uid actor p s =
     (if \<not> user_exists s uid \<or> \<not> user_exists s actor
      then Inl (IntegrityError ''FOREIGN KEY constraint failed'')
      else
        let (gid, grants') = insert_row (\<lambda>i. g_id_update (\<lambda>_. i)) (new_grant clk uid actor p) (quota_grants s)
        in Inr ((new_grant clk uid actor p)\<lparr>g_id := gid\<rparr>, s\<lparr>quota_grants := grants'\<rparr>))"

definition get_grant :: "db \<Rightarrow> int \<Rightarrow> grant_row option" where
  "get_grant s gid = fetchone (select_where (\<lambda>g. g_id g = gid) (quota_grants s))"

text \<open>\<open>list_jobs_admin\<close>: the newest jobs whose owner exists.\<close>

definition list_jobs_admin :: "db \<Rightarrow> nat \<Rightarrow> job_row list" where
  "list_jobs_admin s limit =
     take limit (sort_key (\<lambda>j. - j_id j)
       (select_where (\<lambda>j. user_exists s (j_user_id j)) (jobs s)))"

end
