(* ===== verification/Job_Queue.thy ===== *)
theory Job_Queue
  imports Db_Jobs
begin

text \<open>
  What the job queue guarantees: the memory reservation of every user, the in-flight bound, the
  life cycle of a job, the order in which users are served, and the accounting of grants. The
  operations of \<open>Db_Jobs\<close> are the transitions \<open>queue_step\<close>; the guarantees are an invariant of its
  reachable states.
\<close>

named_theorems queue_simps

section \<open>Sums and lookups over a table\<close>

definition weight :: "int \<Rightarrow> job_row \<Rightarrow> int" where
  "weight uid j = (if j_user_id j = uid \<and> active (j_status j) then j_memory_limit_mib j else 0)"

lemma active_memory_weight: "active_memory s uid = sum_list (map (weight uid) (t_rows (jobs s)))"
  by (simp add: active_memory_def select_where_def weight_def [abs_def] sum_list_map_filter')

lemma sum_list_update_le:
  fixes w :: "'r \<Rightarrow> int"
  assumes "\<And>r. r \<in> set (t_rows t) \<Longrightarrow> P r \<Longrightarrow> w (f r) \<le> w r"
  shows "sum_list (map w (t_rows (update_where P f t))) \<le> sum_list (map w (t_rows t))"
proof -
  have "sum_list (map (\<lambda>r. w (if P r then f r else r)) (t_rows t)) \<le> sum_list (map w (t_rows t))"
    using assms by (intro sum_list_mono) auto
  then show ?thesis by (simp add: comp_def)
qed

lemma sum_list_update_one:
  fixes w :: "'r \<Rightarrow> int"
  assumes "distinct (map rid rows)" and "r \<in> set rows"
  shows "sum_list (map (\<lambda>q. w (if rid q = rid r then f q else q)) rows)
    = sum_list (map w rows) + (w (f r) - w r)"
proof -
  from assms(2) obtain xs ys where rows: "rows = xs @ r # ys" by (meson split_list)
  from assms(1) have "rid r \<notin> rid ` set xs" "rid r \<notin> rid ` set ys"
    unfolding rows by auto
  then have "sum_list (map (\<lambda>q. w (if rid q = rid r then f q else q)) xs) = sum_list (map w xs)"
    and "sum_list (map (\<lambda>q. w (if rid q = rid r then f q else q)) ys) = sum_list (map w ys)"
    by (auto simp: image_iff intro!: arg_cong [where f = sum_list] map_cong)
  then show ?thesis unfolding rows by simp
qed

lemma rowcount_mono:
  assumes "\<And>r. r \<in> set (t_rows t) \<Longrightarrow> Q (if P r then f r else r) \<Longrightarrow> Q r"
  shows "rowcount Q (update_where P f t) \<le> rowcount Q t"
proof -
  have "length (filter Q (map (\<lambda>r. if P r then f r else r) rows)) \<le> length (filter Q rows)"
    if "set rows \<subseteq> set (t_rows t)" for rows
    using that
  proof (induction rows)
    case (Cons r rows)
    then show ?case using assms [of r] by auto
  qed simp
  then show ?thesis by (simp add: rowcount_def)
qed

lemma py_max_le: "py_max base vs \<le> c \<longleftrightarrow> base \<le> c \<and> (\<forall>v \<in> set vs. v \<le> c)"
  unfolding py_max_def by (induction vs arbitrary: base) auto

lemma py_max_ge: "base \<le> py_max base vs" "v \<in> set vs \<Longrightarrow> v \<le> py_max base vs"
  using py_max_le [of base vs "py_max base vs"] by auto

section \<open>Ceilings\<close>

text \<open>The most memory, and the most unfinished jobs, that a user's grants have ever authorised.\<close>

definition memory_ceiling :: "db \<Rightarrow> int \<Rightarrow> int" where
  "memory_ceiling s uid =
     py_max MAX_USER_RUNNING_MEMORY_MIB
       (List.map_filter g_memory_limit_mib (select_where (\<lambda>g. g_user_id g = uid) (quota_grants s)))"

definition inflight_ceiling :: "db \<Rightarrow> int \<Rightarrow> int" where
  "inflight_ceiling s uid =
     py_max MAX_USER_INFLIGHT
       (List.map_filter g_max_inflight (select_where (\<lambda>g. g_user_id g = uid) (quota_grants s)))"

lemma lim_inflight_le: "lim_inflight (effective_limits s now uid) \<le> inflight_ceiling s uid"
proof -
  have "v \<le> inflight_ceiling s uid"
    if "v \<in> set (truthy_values g_max_inflight
      (select_where (\<lambda>g. g_user_id g = uid \<and> live_grant now g) (quota_grants s)))" for v
    using that unfolding inflight_ceiling_def
    by (intro py_max_ge(2)) (auto simp: truthy_values_def in_map_filter select_where_def)
  then show ?thesis
    unfolding effective_limits_def Let_def
    by (simp add: py_max_le) (simp add: inflight_ceiling_def py_max_ge)
qed

section \<open>What each operation does to the tables\<close>

lemma insert_job_tables [queue_simps]:
  "jobs (snd (insert_job now uid p grant s))
     = snd (insert_row (\<lambda>i. j_id_update (\<lambda>_. i)) (new_job now uid p grant) (jobs s))"
  "quota_grants (snd (insert_job now uid p grant s)) = quota_grants s"
  "job_cases (snd (insert_job now uid p grant s))
     = insert_cases (t_seq (jobs s) + 1) 1 (p_inputs p) (job_cases s)"
  "users (snd (insert_job now uid p grant s)) = users s"
  by (simp_all add: insert_job_def insert_row_def Let_def)

lemma insert_job_id [queue_simps]: "fst (insert_job now uid p grant s) = t_seq (jobs s) + 1"
  by (simp add: insert_job_def insert_row_def Let_def)

lemma submission_insert_Inr:
  "submission_insert clk uid p grant s = Inr (d, s') \<longleftrightarrow>
     user_exists s uid \<and> s' = snd (insert_job (clk 2) uid p grant s)
     \<and> d = get_job s' (t_seq (jobs s) + 1) (Some uid)"
proof -
  obtain i t where it: "insert_job (clk 2) uid p grant s = (i, t)" by fastforce
  with insert_job_id [of "clk 2" uid p grant s] have "i = t_seq (jobs s) + 1" by simp
  with it show ?thesis by (auto simp: submission_insert_def)
qed

lemma create_job_Inr:
  "create_job clk uid p s = Inr (d, s') \<longleftrightarrow>
     (\<exists>grant. submission_check clk uid p s = Inr grant
        \<and> submission_insert clk uid p grant s = Inr (d, s'))"
  by (simp add: create_job_def)

lemma submission_check_Inr:
  assumes "submission_check clk uid p s = Inr grant"
  shows "int (inflight s uid) < lim_inflight (effective_limits s (clk 0) uid)"
    and "grant = None \<Longrightarrow> p_memory_limit_mib p \<le> 256 \<and> p_time_limit_ms p \<le> 60000"
    and "\<And>gid. grant = Some gid \<Longrightarrow> \<exists>g \<in> set (t_rows (quota_grants s)).
       g_id g = gid \<and> g_user_id g = uid \<and> live_grant (clk 1) g
       \<and> covers 256 (g_memory_limit_mib g) (p_memory_limit_mib p)
       \<and> covers 60000 (g_time_limit_ms g) (p_time_limit_ms p)"
proof -
  from assms show "int (inflight s uid) < lim_inflight (effective_limits s (clk 0) uid)"
    by (simp add: submission_check_def split: if_splits)
  from assms show "grant = None \<Longrightarrow> p_memory_limit_mib p \<le> 256 \<and> p_time_limit_ms p \<le> 60000"
    by (simp add: submission_check_def split: if_splits option.splits)
  fix gid assume "grant = Some gid"
  with assms obtain g where "find_grant s (clk 1) uid p = Some g" and "g_id g = gid"
    by (auto simp: submission_check_def split: if_splits option.splits)
  then show "\<exists>g \<in> set (t_rows (quota_grants s)).
       g_id g = gid \<and> g_user_id g = uid \<and> live_grant (clk 1) g
       \<and> covers 256 (g_memory_limit_mib g) (p_memory_limit_mib p)
       \<and> covers 60000 (g_time_limit_ms g) (p_time_limit_ms p)"
    by (auto simp: find_grant_def select_where_def dest!: first_by_least(1))
qed

definition start_row :: "stamp \<Rightarrow> job_row \<Rightarrow> job_row" where
  "start_row now j = j\<lparr>j_status := Compiling, j_started_at := Some now\<rparr>"

lemma start_job_Some:
  assumes "start_job now row s = (Some c, s')"
  shows "jobs s' = update_where (\<lambda>j. j_id j = j_id row \<and> j_status j = Queued) (start_row now) (jobs s)"
    and "quota_grants s' = quota_grants s" and "job_cases s' = job_cases s" and "users s' = users s"
    and "cj_job c = row\<lparr>j_status := Compiling\<rparr>"
    and "cj_owner_public_id c = owner_public_id s (j_user_id row)"
    and "cj_cases c = sort_key c_position (select_where (\<lambda>c. c_job_id c = j_id row) (job_cases s))"
  using assms by (auto simp: start_job_def Let_def start_row_def [abs_def] split: if_splits)

lemma start_job_None: "start_job now row s = (None, s') \<Longrightarrow> s' = s"
  by (auto simp: start_job_def Let_def split: if_splits)

text \<open>The three outcomes of a claim.\<close>

lemma claim_cases [consumes 1, case_names idle expired started]:
  assumes "claim_next_job clk s = (r, s')"
  obtains "r = None" and "s' = s"
  | row gid where "next_candidate s (clk 0) = Some row" and "j_grant_id row = Some gid"
      and "rowcount (\<lambda>g. g_id g = gid \<and> live_grant (clk 1) g) (quota_grants s) \<noteq> 1"
      and "r = None" and "s' = cancel_expired (clk 2) (j_id row) s"
  | row c where "next_candidate s (clk 0) = Some row" and "r = Some c"
      and "cj_job c = row\<lparr>j_status := Compiling\<rparr>"
      and "cj_owner_public_id c = owner_public_id s (j_user_id row)"
      and "cj_cases c = sort_key c_position (select_where (\<lambda>c. c_job_id c = j_id row) (job_cases s))"
      and "jobs s' = update_where (\<lambda>j. j_id j = j_id row \<and> j_status j = Queued)
                       (start_row (clk 2)) (jobs s)"
      and "job_cases s' = job_cases s" and "users s' = users s"
      and "quota_grants s' =
             (case j_grant_id row of None \<Rightarrow> quota_grants s
              | Some gid \<Rightarrow> update_where (\<lambda>g. g_id g = gid \<and> live_grant (clk 1) g)
                              charge_grant (quota_grants s))"
      and "\<And>gid. j_grant_id row = Some gid \<Longrightarrow>
             rowcount (\<lambda>g. g_id g = gid \<and> live_grant (clk 1) g) (quota_grants s) = 1"
proof (cases "next_candidate s (clk 0)")
  case None
  with assms that(1) show ?thesis by (simp add: claim_next_job_def)
next
  case (Some row)
  show ?thesis
  proof (cases "j_grant_id row")
    case None
    with Some assms have start: "start_job (clk 2) row s = (r, s')"
      by (simp add: claim_next_job_def)
    show ?thesis
    proof (cases r)
      case None
      with start that(1) show ?thesis by (auto dest: start_job_None)
    next
      case (Some c)
      from start_job_Some [OF start [unfolded this]] that(3) [OF \<open>next_candidate s (clk 0) = Some row\<close> Some]
        \<open>j_grant_id row = None\<close>
      show ?thesis by simp
    qed
  next
    case grant: (Some gid)
    let ?P = "\<lambda>g. g_id g = gid \<and> live_grant (clk 1) g"
    show ?thesis
    proof (cases "rowcount ?P (quota_grants s) = 1")
      case False
      with Some grant assms that(2) show ?thesis by (simp add: claim_next_job_def Let_def)
    next
      case True
      let ?s = "s\<lparr>quota_grants := update_where ?P charge_grant (quota_grants s)\<rparr>"
      obtain r1 s1 where start: "start_job (clk 2) row ?s = (r1, s1)" by fastforce
      show ?thesis
      proof (cases r1)
        case None
        with start True Some grant assms that(1) show ?thesis
          by (simp add: claim_next_job_def Let_def)
      next
        case c: (Some c)
        with start True Some grant assms have r: "r = Some c" "s' = s1"
          by (simp_all add: claim_next_job_def Let_def)
        from start_job_Some [OF start [unfolded c]] that(3) [OF Some r(1)] r(2) grant True
        show ?thesis by (simp add: owner_public_id_def)
      qed
    qed
  qed
qed

lemma next_candidate_eligible:
  assumes "next_candidate s now = Some row"
  shows "row \<in> set (t_rows (jobs s))" and "is_eligible s now row"
  using first_by_least(1) [OF assms [unfolded next_candidate_def]]
  by (auto simp: queue_heads_def eligible_def select_where_def)

lemma claim_ceiling_le:
  assumes "\<And>gid. j_grant_id j = Some gid \<Longrightarrow>
      \<exists>g \<in> set (t_rows (quota_grants s)). g_id g = gid \<and> g_user_id g = j_user_id j"
    and "keys_ok g_id (quota_grants s)"
  shows "claim_ceiling s now j \<le> memory_ceiling s (j_user_id j)"
proof -
  have base: "MAX_USER_RUNNING_MEMORY_MIB \<le> memory_ceiling s (j_user_id j)"
    by (simp add: memory_ceiling_def py_max_ge)
  show ?thesis
  proof (cases "fetchone (select_where (\<lambda>g. j_grant_id j = Some (g_id g) \<and> live_grant now g) (quota_grants s))")
    case (Some g)
    then have g: "g \<in> set (t_rows (quota_grants s))" "j_grant_id j = Some (g_id g)"
      by (auto simp: select_where_def dest!: fetchone_in)
    with assms have "g_user_id g = j_user_id j"
      by (metis keys_ok_unique)
    then have "m \<le> memory_ceiling s (j_user_id j)" if "g_memory_limit_mib g = Some m" for m
      using that g(1) unfolding memory_ceiling_def
      by (intro py_max_ge(2)) (auto simp: in_map_filter select_where_def)
    with Some base show ?thesis by (auto simp: claim_ceiling_def split: option.splits)
  qed (use base in \<open>simp add: claim_ceiling_def\<close>)
qed


section \<open>The transitions\<close>

text \<open>The numeric bounds the request schemas enforce before an operation is called.\<close>

definition job_bounds :: "job_payload \<Rightarrow> bool" where
  "job_bounds p \<longleftrightarrow>
     MIN_TIME_MS \<le> p_time_limit_ms p \<and> p_time_limit_ms p \<le> 600000
     \<and> MIN_MEMORY_MIB \<le> p_memory_limit_mib p \<and> p_memory_limit_mib p \<le> 4096
     \<and> 1 \<le> length (p_inputs p) \<and> length (p_inputs p) \<le> MAX_CASES"

definition within :: "int \<Rightarrow> int \<Rightarrow> int option \<Rightarrow> bool" where
  "within lo hi v \<longleftrightarrow> (case v of None \<Rightarrow> True | Some n \<Rightarrow> lo \<le> n \<and> n \<le> hi)"

definition grant_bounds :: "grant_payload \<Rightarrow> bool" where
  "grant_bounds p \<longleftrightarrow>
     within MIN_MEMORY_MIB 4096 (gp_memory_limit_mib p)
     \<and> within MIN_TIME_MS 600000 (gp_time_limit_ms p)
     \<and> within 1 20 (gp_max_inflight p)
     \<and> within 1 10000 (gp_remaining_uses p)
     \<and> within 60 31536000 (gp_expires_in_seconds p)"

text \<open>
  One step of the queue, by whoever takes it: a developer submits or cancels, an administrator
  grants or cancels, a worker claims, completes (with a terminal status, which the broker checks)
  or reports a failure, for any job id. \<open>other\<close> is every operation on the other tables.
\<close>

inductive queue_step :: "db \<Rightarrow> db \<Rightarrow> bool" where
  submit: "job_bounds p \<Longrightarrow> create_job clk uid p s = Inr (d, s') \<Longrightarrow> queue_step s s'"
| claim: "claim_next_job clk s = (r, s') \<Longrightarrow> queue_step s s'"
| finish: "terminal (ex_status ex) \<Longrightarrow> queue_step s (finish_job now i ex s)"
| fail: "queue_step s (mark_job_system_error now i msg s)"
| cancel: "cancel_job now i uid s = (d, s') \<Longrightarrow> queue_step s s'"
| cancel_admin: "cancel_job_admin now i s = (d, s') \<Longrightarrow> queue_step s s'"
| grant: "grant_bounds gp \<Longrightarrow> create_grant clk uid actor gp s = Inr (g, s') \<Longrightarrow> queue_step s s'"
| other: "jobs s' = jobs s \<Longrightarrow> job_cases s' = job_cases s \<Longrightarrow> quota_grants s' = quota_grants s
    \<Longrightarrow> queue_step s s'"

text \<open>States reachable from a database without jobs, cases and grants.\<close>

inductive reachable :: "db \<Rightarrow> bool" where
  start: "jobs s = empty_table \<Longrightarrow> job_cases s = empty_table \<Longrightarrow> quota_grants s = empty_table
    \<Longrightarrow> reachable s"
| step: "reachable s \<Longrightarrow> queue_step s s' \<Longrightarrow> reachable s'"

section \<open>The invariant\<close>

definition keys_inv :: "db \<Rightarrow> bool" where
  "keys_inv s \<longleftrightarrow> keys_ok j_id (jobs s) \<and> keys_ok g_id (quota_grants s) \<and> keys_ok c_id (job_cases s)"

text \<open>A job above the base limits rests on a grant of its own user that covers it.\<close>

definition authorised :: "db \<Rightarrow> job_row \<Rightarrow> bool" where
  "authorised s j \<longleftrightarrow>
     (case j_grant_id j of
        None \<Rightarrow> j_memory_limit_mib j \<le> 256 \<and> j_time_limit_ms j \<le> 60000
      | Some gid \<Rightarrow> \<exists>g \<in> set (t_rows (quota_grants s)).
          g_id g = gid \<and> g_user_id g = j_user_id j
          \<and> covers 256 (g_memory_limit_mib g) (j_memory_limit_mib j)
          \<and> covers 60000 (g_time_limit_ms g) (j_time_limit_ms j))"

definition job_ok :: "db \<Rightarrow> job_row \<Rightarrow> bool" where
  "job_ok s j \<longleftrightarrow>
     authorised s j \<and> 0 \<le> j_memory_limit_mib j \<and> j_status j \<noteq> Running
     \<and> (j_status j = Compiling \<longrightarrow> j_started_at j \<noteq> None)
     \<and> (j_status j = Queued \<longrightarrow> j_started_at j = None)"

definition grant_ok :: "grant_row \<Rightarrow> bool" where
  "grant_ok g \<longleftrightarrow> (case g_remaining_uses g of None \<Rightarrow> True | Some n \<Rightarrow> 0 \<le> n)"

definition rows_inv :: "db \<Rightarrow> bool" where
  "rows_inv s \<longleftrightarrow> (\<forall>j \<in> set (t_rows (jobs s)). job_ok s j) \<and> (\<forall>g \<in> set (t_rows (quota_grants s)). grant_ok g)"

definition reservation :: "db \<Rightarrow> bool" where
  "reservation s \<longleftrightarrow> (\<forall>uid. active_memory s uid \<le> memory_ceiling s uid)"

definition bounded_inflight :: "db \<Rightarrow> bool" where
  "bounded_inflight s \<longleftrightarrow> (\<forall>uid. int (inflight s uid) \<le> inflight_ceiling s uid)"

definition queue_inv :: "db \<Rightarrow> bool" where
  "queue_inv s \<longleftrightarrow> keys_inv s \<and> rows_inv s \<and> reservation s \<and> bounded_inflight s"

lemmas queue_inv_defs = queue_inv_def keys_inv_def rows_inv_def reservation_def bounded_inflight_def

lemma queue_inv_start:
  assumes "jobs s = empty_table" and "job_cases s = empty_table" and "quota_grants s = empty_table"
  shows "queue_inv s"
  using assms
  by (simp add: queue_inv_defs active_memory_def inflight_def rowcount_def select_where_def
      memory_ceiling_def inflight_ceiling_def py_max_def List.map_filter_simps
      MAX_USER_RUNNING_MEMORY_MIB_def MAX_USER_INFLIGHT_def)

lemma queue_inv_frame:
  assumes "jobs s' = jobs s" and "job_cases s' = job_cases s" and "quota_grants s' = quota_grants s"
    and "queue_inv s"
  shows "queue_inv s'"
  using assms
  by (simp add: queue_inv_defs active_memory_def inflight_def memory_ceiling_def
      inflight_ceiling_def job_ok_def authorised_def cong: option.case_cong)

lemma ceilings_cong:
  assumes "quota_grants s' = quota_grants s"
  shows "memory_ceiling s' uid = memory_ceiling s uid"
    and "inflight_ceiling s' uid = inflight_ceiling s uid"
    and "authorised s' j = authorised s j"
  using assms by (auto simp: memory_ceiling_def inflight_ceiling_def authorised_def split: option.split)

subsection \<open>Steps that only end jobs or flag them\<close>

text \<open>
  An update of jobs that keeps their identity and limits, and makes the status terminal or leaves
  it with the start time as it is.
\<close>

definition keeps_limits :: "(job_row \<Rightarrow> job_row) \<Rightarrow> bool" where
  "keeps_limits f \<longleftrightarrow>
     (\<forall>j. j_id (f j) = j_id j \<and> j_user_id (f j) = j_user_id j
        \<and> j_memory_limit_mib (f j) = j_memory_limit_mib j
        \<and> j_time_limit_ms (f j) = j_time_limit_ms j \<and> j_grant_id (f j) = j_grant_id j
        \<and> j_started_at (f j) = j_started_at j)"

definition ends_or_keeps :: "(job_row \<Rightarrow> job_row) \<Rightarrow> bool" where
  "ends_or_keeps f \<longleftrightarrow> (\<forall>j. terminal (j_status (f j)) \<or> j_status (f j) = j_status j)"

lemma weight_release:
  assumes "keeps_limits f" and "ends_or_keeps f" and "0 \<le> j_memory_limit_mib j"
  shows "weight uid (f j) \<le> weight uid j"
proof (cases "j_status (f j) = j_status j")
  case False
  with assms(2) have "terminal (j_status (f j))" unfolding ends_or_keeps_def by blast
  then have "\<not> active (j_status (f j))" by (auto simp: terminal_iff dest: active_unfinished)
  with assms(3) show ?thesis by (simp add: weight_def)
qed (use assms(1) in \<open>simp add: weight_def keeps_limits_def\<close>)

lemma unfinished_release:
  assumes "ends_or_keeps f" and "unfinished (j_status (f j))"
  shows "unfinished (j_status j)"
  using assms unfolding ends_or_keeps_def terminal_iff by metis

lemma job_ok_release:
  assumes "keeps_limits f" and "ends_or_keeps f" and "job_ok s j" and "quota_grants s' = quota_grants s"
  shows "job_ok s' (f j)"
proof -
  from assms(1,3,4) have "authorised s' (f j)"
    by (auto simp: job_ok_def authorised_def keeps_limits_def split: option.splits)
  moreover have "j_status (f j) \<noteq> Running \<and> (j_status (f j) = Compiling \<longrightarrow> j_started_at (f j) \<noteq> None)
      \<and> (j_status (f j) = Queued \<longrightarrow> j_started_at (f j) = None)"
  proof (cases "j_status (f j) = j_status j")
    case True
    with assms(1,3) show ?thesis by (simp add: job_ok_def keeps_limits_def)
  next
    case False
    with assms(2) have "terminal (j_status (f j))" unfolding ends_or_keeps_def by blast
    then show ?thesis by (auto simp: terminal_iff unfinished_def)
  qed
  ultimately show ?thesis using assms(1,3) by (simp add: job_ok_def keeps_limits_def)
qed

lemma queue_inv_release:
  assumes inv: "queue_inv s" and f: "keeps_limits f" "ends_or_keeps f"
    and jobs': "jobs s' = update_where P f (jobs s)"
    and grants': "quota_grants s' = quota_grants s" and cases': "keys_ok c_id (job_cases s')"
  shows "queue_inv s'"
proof -
  from inv have ok: "\<forall>j \<in> set (t_rows (jobs s)). job_ok s j" by (simp add: queue_inv_defs)
  have "keys_ok j_id (jobs s')"
    unfolding jobs' using f(1) inv by (intro keys_ok_update) (auto simp: keeps_limits_def queue_inv_defs)
  then have "keys_inv s'" using inv grants' cases' by (simp add: queue_inv_defs)
  moreover have "rows_inv s'"
    using ok inv f grants' job_ok_release [OF f _ grants'] ceilings_cong(3) [OF grants']
    unfolding rows_inv_def jobs' in_update_where by (auto simp: queue_inv_defs job_ok_def)
  moreover have "active_memory s' uid \<le> active_memory s uid" for uid
    unfolding active_memory_weight jobs' using ok f
    by (intro sum_list_update_le) (auto simp: job_ok_def intro: weight_release)
  then have "reservation s'"
    using inv ceilings_cong(1) [OF grants'] unfolding queue_inv_def reservation_def
    by (metis order_trans)
  moreover have "inflight s' uid \<le> inflight s uid" for uid
    unfolding inflight_def jobs' using f
    by (intro rowcount_mono) (auto simp: keeps_limits_def dest: unfinished_release split: if_splits)
  then have "bounded_inflight s'"
    using inv ceilings_cong(2) [OF grants'] unfolding queue_inv_def bounded_inflight_def
    by (metis of_nat_mono order_trans)
  ultimately show ?thesis by (simp add: queue_inv_def)
qed

lemma keys_ok_cases [intro]:
  "keys_ok c_id t \<Longrightarrow> keys_ok c_id (cancel_queued_cases i m t)"
  "keys_ok c_id t \<Longrightarrow> keys_ok c_id (store_cases i rs t)"
  "keys_ok c_id t \<Longrightarrow> keys_ok c_id (insert_cases i pos xs t)"
proof -
  show "keys_ok c_id t \<Longrightarrow> keys_ok c_id (cancel_queued_cases i m t)"
    by (auto simp: cancel_queued_cases_def intro: keys_ok_update)
  show "keys_ok c_id t \<Longrightarrow> keys_ok c_id (store_cases i rs t)"
    by (induction i rs t rule: store_cases.induct) (simp_all add: keys_ok_update finish_case_row_def)
  show "keys_ok c_id t \<Longrightarrow> keys_ok c_id (insert_cases i pos xs t)"
    by (induction i pos xs t rule: insert_cases.induct) (auto intro: case_key.insert_keys_ok)
qed

lemma terminal_ends [simp]: "terminal Cancelled" "terminal SystemError"
  by (simp_all add: TERMINAL_STATES_def)

lemma finish_inv:
  assumes "queue_inv s" and "terminal (ex_status ex)"
  shows "queue_inv (finish_job now i ex s)"
proof (rule queue_inv_release [OF assms(1)])
  show "jobs (finish_job now i ex s) = update_where (\<lambda>j. j_id j = i) (finish_row now ex) (jobs s)"
    by (simp add: finish_job_def)
qed (use assms in \<open>auto simp: finish_job_def finish_row_def keeps_limits_def ends_or_keeps_def queue_inv_defs\<close>)

lemma fail_inv:
  assumes "queue_inv s"
  shows "queue_inv (mark_job_system_error now i msg s)"
  by (rule queue_inv_release [OF assms, where P = "\<lambda>j. j_id j = i" and
        f = "\<lambda>j. j\<lparr>j_status := SystemError, j_finished_at := Some now,
                  j_compile_status := Some SystemError, j_compile_stderr := take 16384 msg\<rparr>"])
     (use assms in \<open>auto simp: mark_job_system_error_def keeps_limits_def ends_or_keeps_def queue_inv_defs\<close>)

lemma cancel_expired_inv:
  assumes "queue_inv s"
  shows "queue_inv (cancel_expired now i s)"
  by (rule queue_inv_release [OF assms, where P = "\<lambda>j. j_id j = i" and
        f = "\<lambda>j. j\<lparr>j_status := Cancelled, j_finished_at := Some now\<rparr>"])
     (use assms in \<open>auto simp: cancel_expired_def keeps_limits_def ends_or_keeps_def queue_inv_defs
        intro: keys_ok_update\<close>)

lemma cancel_row_inv:
  assumes "queue_inv s" and "keys_ok c_id t"
  shows "queue_inv (s\<lparr>jobs := update_where (\<lambda>j. j_id j = i) (cancel_row now) (jobs s), job_cases := t\<rparr>)"
  by (rule queue_inv_release [OF assms(1), where P = "\<lambda>j. j_id j = i" and f = "cancel_row now"])
     (use assms in \<open>auto simp: cancel_row_def keeps_limits_def ends_or_keeps_def\<close>)

lemma request_cancel_inv:
  assumes "queue_inv s"
  shows "queue_inv (request_cancel i s)"
  by (rule queue_inv_release [OF assms, where P = "\<lambda>j. j_id j = i" and
        f = "\<lambda>j. j\<lparr>j_cancel_requested := True\<rparr>"])
     (use assms in \<open>auto simp: request_cancel_def keeps_limits_def ends_or_keeps_def queue_inv_defs\<close>)

lemma cancel_inv: "queue_inv s \<Longrightarrow> cancel_job now i uid s = (d, s') \<Longrightarrow> queue_inv s'"
  by (auto simp: cancel_job_def Let_def intro!: cancel_row_inv request_cancel_inv keys_ok_update
      split: option.splits if_splits) (simp_all add: queue_inv_defs)

lemma cancel_admin_inv: "queue_inv s \<Longrightarrow> cancel_job_admin now i s = (d, s') \<Longrightarrow> queue_inv s'"
  by (auto simp: cancel_job_admin_def Let_def intro!: cancel_row_inv request_cancel_inv keys_ok_update
      split: option.splits if_splits) (simp_all add: queue_inv_defs)


subsection \<open>Submission, claim and grant\<close>

lemma memory_ceiling_grants:
  assumes "\<And>g. g \<in> set (t_rows (quota_grants s)) \<Longrightarrow>
      \<exists>g' \<in> set (t_rows (quota_grants s')). g_user_id g' = g_user_id g
        \<and> g_memory_limit_mib g' = g_memory_limit_mib g \<and> g_max_inflight g' = g_max_inflight g"
  shows "memory_ceiling s uid \<le> memory_ceiling s' uid"
    and "inflight_ceiling s uid \<le> inflight_ceiling s' uid"
  using assms
  by (fastforce simp: memory_ceiling_def inflight_ceiling_def py_max_le py_max_ge in_map_filter
      select_where_def intro!: py_max_ge(2))+

lemma submit_inv:
  assumes inv: "queue_inv s" and p: "job_bounds p" and run: "create_job clk uid p s = Inr (d, s')"
  shows "queue_inv s'"
proof -
  from run obtain grant where check: "submission_check clk uid p s = Inr grant"
    and ins: "submission_insert clk uid p grant s = Inr (d, s')"
    by (auto simp: create_job_Inr)
  let ?new = "(new_job (clk 2) uid p grant)\<lparr>j_id := t_seq (jobs s) + 1\<rparr>"
  have s': "s' = snd (insert_job (clk 2) uid p grant s)"
    using ins by (simp add: submission_insert_Inr)
  have rows: "t_rows (jobs s') = t_rows (jobs s) @ [?new]"
    unfolding s' by (simp add: queue_simps)
  have grants': "quota_grants s' = quota_grants s" unfolding s' by (simp add: queue_simps)
  have "keys_inv s'"
    using inv grants' unfolding s'
    by (auto simp: queue_inv_defs queue_simps intro: job_key.insert_keys_ok)
  moreover have "job_ok s' ?new"
  proof -
    have "authorised s' ?new"
      using submission_check_Inr(2,3) [OF check] grants'
      by (auto simp: authorised_def new_job_def split: option.splits)
    then show ?thesis using p by (simp add: job_ok_def new_job_def job_bounds_def MIN_MEMORY_MIB_def)
  qed
  then have "rows_inv s'"
    using inv grants' ceilings_cong(3) [OF grants'] unfolding rows_inv_def rows
    by (auto simp: queue_inv_defs job_ok_def)
  moreover have "active_memory s' u = active_memory s u" for u
    unfolding active_memory_weight rows by (simp add: weight_def new_job_def active_def)
  then have "reservation s'"
    using inv ceilings_cong(1) [OF grants'] by (simp add: queue_inv_defs)
  moreover have "bounded_inflight s'"
    unfolding bounded_inflight_def
  proof
    fix u
    have "inflight s' u = inflight s u + (if u = uid then 1 else 0)"
      unfolding inflight_def rowcount_def rows by (simp add: new_job_def unfinished_def)
    moreover have "int (inflight s uid) + 1 \<le> inflight_ceiling s uid"
      using submission_check_Inr(1) [OF check] lim_inflight_le [of s "clk 0" uid] by simp
    ultimately show "int (inflight s' u) \<le> inflight_ceiling s' u"
      using inv ceilings_cong(2) [OF grants'] by (auto simp: queue_inv_defs)
  qed
  ultimately show ?thesis by (simp add: queue_inv_def)
qed

lemma grant_inv:
  assumes inv: "queue_inv s" and gp: "grant_bounds gp"
    and run: "create_grant clk uid actor gp s = Inr (g, s')"
  shows "queue_inv s'"
proof -
  let ?ins = "insert_row (\<lambda>i. g_id_update (\<lambda>_. i)) (new_grant clk uid actor gp) (quota_grants s)"
  from run have s': "s' = s\<lparr>quota_grants := snd ?ins\<rparr>"
    by (auto simp: create_grant_def insert_row_def Let_def split: if_splits)
  let ?new = "(new_grant clk uid actor gp)\<lparr>g_id := t_seq (quota_grants s) + 1\<rparr>"
  have rows: "t_rows (quota_grants s') = t_rows (quota_grants s) @ [?new]"
    unfolding s' by simp
  have mono: "memory_ceiling s u \<le> memory_ceiling s' u" "inflight_ceiling s u \<le> inflight_ceiling s' u" for u
    by (rule memory_ceiling_grants; force simp: rows)+
  have "keys_inv s'"
    using inv unfolding s' by (auto simp: queue_inv_defs intro: grant_key.insert_keys_ok)
  moreover have "grant_ok ?new"
    using gp by (auto simp: grant_ok_def new_grant_def grant_bounds_def within_def split: option.splits)
  then have "rows_inv s'"
    using inv rows unfolding rows_inv_def queue_inv_defs job_ok_def authorised_def s'
    by (auto split: option.splits)
  moreover have "active_memory s' u = active_memory s u" "inflight s' u = inflight s u" for u
    unfolding s' by (simp_all add: active_memory_def inflight_def)
  then have "reservation s'" "bounded_inflight s'"
    using inv mono unfolding queue_inv_def reservation_def bounded_inflight_def
    by (metis order_trans)+
  ultimately show ?thesis by (simp add: queue_inv_def)
qed

lemma active_memory_start:
  assumes "keys_ok j_id (jobs s)" and "row \<in> set (t_rows (jobs s))" and "j_status row = Queued"
    and "jobs s' = update_where (\<lambda>j. j_id j = j_id row \<and> j_status j = Queued) (start_row now) (jobs s)"
  shows "active_memory s' uid
    = active_memory s uid + (if uid = j_user_id row then j_memory_limit_mib row else 0)"
proof -
  have same: "(if j_id q = j_id row \<and> j_status q = Queued then start_row now q else q)
      = (if j_id q = j_id row then start_row now q else q)" if "q \<in> set (t_rows (jobs s))" for q
    using keys_ok_unique [OF assms(1) that assms(2)] assms(3) by auto
  have "active_memory s' uid
      = sum_list (map (\<lambda>q. weight uid (if j_id q = j_id row then start_row now q else q)) (t_rows (jobs s)))"
    unfolding active_memory_weight assms(4)
    by (auto simp: comp_def same intro!: arg_cong [where f = sum_list] map_cong)
  also have "\<dots> = active_memory s uid + (weight uid (start_row now row) - weight uid row)"
    unfolding active_memory_weight using assms(1,2)
    by (intro sum_list_update_one) (simp_all add: keys_ok_def)
  also have "weight uid (start_row now row) - weight uid row
      = (if uid = j_user_id row then j_memory_limit_mib row else 0)"
    using assms(3) by (simp add: weight_def start_row_def active_def)
  finally show ?thesis .
qed

lemma authorised_start: "authorised s (start_row now j) = authorised s j"
  by (auto simp: authorised_def start_row_def split: option.split)

lemma charge_grant_keeps [simp]:
  "g_id (charge_grant g) = g_id g" "g_user_id (charge_grant g) = g_user_id g"
  "g_memory_limit_mib (charge_grant g) = g_memory_limit_mib g"
  "g_time_limit_ms (charge_grant g) = g_time_limit_ms g"
  "g_max_inflight (charge_grant g) = g_max_inflight g"
  "g_expires_at (charge_grant g) = g_expires_at g" "g_active (charge_grant g) = g_active g"
  "g_remaining_uses (charge_grant g) = map_option (\<lambda>n. n - 1) (g_remaining_uses g)"
  by (simp_all add: charge_grant_def)

lemma claim_inv:
  assumes inv: "queue_inv s" and run: "claim_next_job clk s = (r, s')"
  shows "queue_inv s'"
  using run
proof (cases rule: claim_cases)
  case idle
  with inv show ?thesis by simp
next
  case (expired row gid)
  with inv show ?thesis by (simp add: cancel_expired_inv)
next
  case (started row c)
  note row = next_candidate_eligible [OF started(1)]
  have queued: "j_status row = Queued" using row(2) by (simp add: is_eligible_def)
  have keys: "keys_ok j_id (jobs s)" "keys_ok g_id (quota_grants s)"
    using inv by (simp_all add: queue_inv_defs)
  have grants_in: "\<exists>g' \<in> set (t_rows (quota_grants s')). g_id g' = g_id g \<and> g_user_id g' = g_user_id g
      \<and> g_memory_limit_mib g' = g_memory_limit_mib g \<and> g_time_limit_ms g' = g_time_limit_ms g
      \<and> g_max_inflight g' = g_max_inflight g" if "g \<in> set (t_rows (quota_grants s))" for g
  proof (cases "j_grant_id row")
    case (Some gid)
    let ?P = "\<lambda>g. g_id g = gid \<and> live_grant (clk 1) g"
    have "(if ?P g then charge_grant g else g) \<in> set (t_rows (update_where ?P charge_grant (quota_grants s)))"
      unfolding in_update_where using that by blast
    then show ?thesis unfolding started(9) Some by (intro bexI) auto
  qed (use that in \<open>auto simp: started(9)\<close>)
  have mono: "memory_ceiling s u \<le> memory_ceiling s' u" "inflight_ceiling s u \<le> inflight_ceiling s' u" for u
    by (rule memory_ceiling_grants; use grants_in in blast)+
  have auth: "authorised s' j" if "authorised s j" for j
    using that grants_in unfolding authorised_def by (fastforce split: option.splits)
  have "keys_inv s'"
    using inv keys unfolding keys_inv_def started(6,7,9)
    by (auto simp: queue_inv_defs start_row_def intro!: keys_ok_update split: option.splits)
  moreover have "rows_inv s'"
  proof -
    have "job_ok s' (start_row now j)" if "job_ok s j" for now j
      using that auth [of j] authorised_start [of s' now j] by (simp add: job_ok_def start_row_def)
    then have "\<forall>j \<in> set (t_rows (jobs s')). job_ok s' j"
      using inv auth unfolding started(6) in_update_where by (auto simp: queue_inv_defs job_ok_def)
    moreover have "grant_ok g'" if "g' \<in> set (t_rows (quota_grants s'))" for g'
      using that inv unfolding started(9)
      by (auto simp: queue_inv_defs grant_ok_def live_grant_def split: option.splits if_splits)
    ultimately show ?thesis by (simp add: rows_inv_def)
  qed
  moreover have "reservation s'"
    unfolding reservation_def
  proof
    fix u
    show "active_memory s' u \<le> memory_ceiling s' u"
    proof (cases "u = j_user_id row")
      case True
      have "job_ok s row" using inv row(1) by (simp add: queue_inv_defs)
      then have "claim_ceiling s (clk 0) row \<le> memory_ceiling s (j_user_id row)"
        using keys(2) by (intro claim_ceiling_le) (auto simp: job_ok_def authorised_def)
      with True row(2) mono(1) [of u] show ?thesis
        unfolding active_memory_start [OF keys(1) row(1) queued started(6)]
        by (simp add: is_eligible_def)
    next
      case False
      with inv mono(1) [of u] show ?thesis
        unfolding active_memory_start [OF keys(1) row(1) queued started(6)]
        by (simp add: queue_inv_defs order_trans [rotated])
    qed
  qed
  moreover have "inflight s' u \<le> inflight s u" for u
    unfolding inflight_def started(6)
    by (intro rowcount_mono) (auto simp: start_row_def unfinished_def split: if_splits)
  then have "bounded_inflight s'"
    using inv mono(2) unfolding queue_inv_def bounded_inflight_def
    by (meson of_nat_mono order_trans)
  ultimately show ?thesis by (simp add: queue_inv_def)
qed

theorem queue_step_inv: "queue_step s s' \<Longrightarrow> queue_inv s \<Longrightarrow> queue_inv s'"
proof (induction rule: queue_step.induct)
  case (submit p clk uid s d s')
  then show ?case by (blast intro: submit_inv)
next
  case (grant gp clk uid actor s g s')
  then show ?case by (blast intro: grant_inv)
next
  case (other s' s)
  then show ?case by (blast intro: queue_inv_frame)
qed (blast intro: claim_inv finish_inv fail_inv cancel_inv cancel_admin_inv)+

lemma reachable_inv: "reachable s \<Longrightarrow> queue_inv s"
  by (induction rule: reachable.induct) (auto intro: queue_inv_start queue_step_inv)

end
