(* ===== verification/Queue_Order.thy ===== *)
theory Queue_Order
  imports Job_Queue
begin

text \<open>
  The life cycle of a job across the transitions of \<open>Job_Queue\<close>, and the order in which
  \<open>claim_next_job\<close> serves users: what a step may do to a job row, and what the scheduling query
  minimises.
\<close>

section \<open>Life cycle\<close>

fun phase :: "job_state \<Rightarrow> nat" where
  "phase Queued = 0"
| "phase Compiling = 1"
| "phase Running = 2"
| "phase _ = 3"

lemma phase_terminal: "terminal st \<Longrightarrow> phase st = 3"
  by (cases st) (simp_all add: TERMINAL_STATES_def)

lemma phase_bound [simp]: "phase st \<le> 3"
  by (cases st) simp_all

text \<open>What may happen to a job row in one step or in many.\<close>

definition advances :: "job_row \<Rightarrow> job_row \<Rightarrow> bool" where
  "advances j j' \<longleftrightarrow>
     j_id j' = j_id j \<and> j_user_id j' = j_user_id j \<and> j_filename j' = j_filename j
     \<and> j_source j' = j_source j \<and> j_compiler j' = j_compiler j
     \<and> j_time_limit_ms j' = j_time_limit_ms j \<and> j_memory_limit_mib j' = j_memory_limit_mib j
     \<and> j_grant_id j' = j_grant_id j \<and> j_created_at j' = j_created_at j
     \<and> phase (j_status j) \<le> phase (j_status j')
     \<and> (1 \<le> phase (j_status j) \<longrightarrow> j_started_at j' = j_started_at j)"

definition jobs_advance :: "db \<Rightarrow> db \<Rightarrow> bool" where
  "jobs_advance s s' \<longleftrightarrow> (\<forall>j \<in> set (t_rows (jobs s)). \<exists>j' \<in> set (t_rows (jobs s')). advances j j')"

lemma advances_refl [simp]: "advances j j"
  by (simp add: advances_def)

lemma advances_trans: "advances a b \<Longrightarrow> advances b c \<Longrightarrow> advances a c"
  unfolding advances_def using order_trans by (metis (no_types, lifting))

lemma jobs_advance_refl: "jobs s' = jobs s \<Longrightarrow> jobs_advance s s'"
  unfolding jobs_advance_def using advances_refl by metis

lemma jobs_advance_trans: "jobs_advance a b \<Longrightarrow> jobs_advance b c \<Longrightarrow> jobs_advance a c"
  unfolding jobs_advance_def using advances_trans by meson

lemma jobs_advance_update:
  assumes "jobs s' = update_where P f (jobs s)"
    and "\<And>j. P j \<Longrightarrow> advances j (f j)"
  shows "jobs_advance s s'"
  unfolding jobs_advance_def
proof
  fix j assume j: "j \<in> set (t_rows (jobs s))"
  let ?j = "if P j then f j else j"
  have "?j \<in> set (t_rows (jobs s'))" unfolding assms(1) in_update_where using j by blast
  moreover have "advances j ?j" using assms(2) by simp
  ultimately show "\<exists>j' \<in> set (t_rows (jobs s')). advances j j'" by blast
qed

lemma advances_terminal:
  assumes "keeps_limits f" and "\<And>j. terminal (j_status (f j))"
    and "\<And>j. j_filename (f j) = j_filename j \<and> j_source (f j) = j_source j
      \<and> j_compiler (f j) = j_compiler j \<and> j_created_at (f j) = j_created_at j"
  shows "advances j (f j)"
  using assms by (simp add: advances_def keeps_limits_def phase_terminal)

lemma cancel_row_advances: "advances j (cancel_row now j)"
  by (simp add: cancel_row_def advances_def)

lemma request_cancel_advances: "jobs_advance s (request_cancel i s)"
  by (rule jobs_advance_update [where P = "\<lambda>j. j_id j = i" and f = "\<lambda>j. j\<lparr>j_cancel_requested := True\<rparr>"])
     (simp_all add: request_cancel_def advances_def)

lemma queue_step_advances: "queue_step s s' \<Longrightarrow> jobs_advance s s'"
proof (induction rule: queue_step.induct)
  case (submit p clk uid s d s')
  then obtain grant where "s' = snd (insert_job (clk 2) uid p grant s)"
    by (auto simp: create_job_Inr submission_insert_Inr)
  then have "set (t_rows (jobs s)) \<subseteq> set (t_rows (jobs s'))" by (auto simp: queue_simps)
  then show ?case unfolding jobs_advance_def using advances_refl by blast
next
  case (claim clk s r s')
  then show ?case
  proof (cases rule: claim_cases)
    case (expired row gid)
    then show ?thesis
      by (intro jobs_advance_update [where P = "\<lambda>j. j_id j = j_id row" and
            f = "\<lambda>j. j\<lparr>j_status := Cancelled, j_finished_at := Some (clk 2)\<rparr>"])
         (simp_all add: cancel_expired_def advances_def)
  next
    case (started row c)
    then show ?thesis
      by (intro jobs_advance_update [OF started(6)]) (auto simp: start_row_def advances_def)
  qed (simp add: jobs_advance_refl)
next
  case (finish ex s now i)
  then show ?case
    by (intro jobs_advance_update [where P = "\<lambda>j. j_id j = i" and f = "finish_row now ex"])
       (simp_all add: finish_job_def finish_row_def advances_def phase_terminal)
next
  case (fail s now i msg)
  show ?case
    by (rule jobs_advance_update [where P = "\<lambda>j. j_id j = i" and
          f = "\<lambda>j. j\<lparr>j_status := SystemError, j_finished_at := Some now,
                 j_compile_status := Some SystemError, j_compile_stderr := take 16384 msg\<rparr>"])
       (simp_all add: mark_job_system_error_def advances_def)
next
  case (cancel now i uid s d s')
  have "jobs_advance s (s\<lparr>jobs := update_where (\<lambda>j. j_id j = i) (cancel_row now) (jobs s), job_cases := t\<rparr>)" for t
    by (rule jobs_advance_update [OF _ cancel_row_advances]) simp
  with cancel show ?case
    by (auto simp: cancel_job_def Let_def jobs_advance_refl request_cancel_advances
        split: option.splits if_splits)
next
  case (cancel_admin now i s d s')
  have "jobs_advance s (s\<lparr>jobs := update_where (\<lambda>j. j_id j = i) (cancel_row now) (jobs s), job_cases := t\<rparr>)" for t
    by (rule jobs_advance_update [OF _ cancel_row_advances]) simp
  with cancel_admin show ?case
    by (auto simp: cancel_job_admin_def Let_def jobs_advance_refl request_cancel_advances
        split: option.splits if_splits)
next
  case (grant gp clk uid actor s g s')
  then have "jobs s' = jobs s"
    by (auto simp: create_grant_def insert_row_def Let_def split: if_splits)
  then show ?case by (rule jobs_advance_refl)
qed (simp add: jobs_advance_refl)

lemma steps_advance: "queue_step\<^sup>*\<^sup>* s s' \<Longrightarrow> jobs_advance s s'"
  by (induction rule: rtranclp_induct)
     (auto intro: jobs_advance_refl jobs_advance_trans queue_step_advances)

lemma steps_reachable: "queue_step\<^sup>*\<^sup>* s s' \<Longrightarrow> reachable s \<Longrightarrow> reachable s'"
  by (induction rule: rtranclp_induct) (auto intro: reachable.step)

lemma reachable_keys: "reachable s \<Longrightarrow> keys_ok j_id (jobs s)"
  using reachable_inv by (auto simp: queue_inv_defs)

text \<open>The four shapes a step has: a new job, a claim, a new grant, or an update of jobs that keeps
  their identity, limits and start time and never revives them.\<close>

definition releases :: "db \<Rightarrow> db \<Rightarrow> bool" where
  "releases s s' \<longleftrightarrow> quota_grants s' = quota_grants s
     \<and> (\<exists>P f. keeps_limits f \<and> ends_or_keeps f \<and> jobs s' = update_where P f (jobs s))"

lemma releases_same: "quota_grants s' = quota_grants s \<Longrightarrow> jobs s' = jobs s \<Longrightarrow> releases s s'"
  unfolding releases_def
  by (intro conjI exI [of _ "\<lambda>_. False"] exI [of _ id])
     (simp_all add: update_where_def keeps_limits_def ends_or_keeps_def)

lemma releases_update:
  assumes "jobs s' = update_where P f (jobs s)" and "quota_grants s' = quota_grants s"
    and "keeps_limits f" and "ends_or_keeps f"
  shows "releases s s'"
  using assms unfolding releases_def by blast

lemma cancel_row_releases:
  "releases s (s\<lparr>jobs := update_where P (cancel_row now) (jobs s), job_cases := t\<rparr>)"
  by (rule releases_update [where P = P and f = "cancel_row now"])
     (simp_all add: cancel_row_def keeps_limits_def ends_or_keeps_def)

lemma request_cancel_releases: "releases s (request_cancel i s)"
  by (rule releases_update [where P = "\<lambda>j. j_id j = i" and f = "\<lambda>j. j\<lparr>j_cancel_requested := True\<rparr>"])
     (simp_all add: request_cancel_def keeps_limits_def ends_or_keeps_def)

lemma cancel_job_releases: "cancel_job now i uid s = (d, s') \<Longrightarrow> releases s s'"
  by (auto simp: cancel_job_def Let_def cancel_row_releases request_cancel_releases releases_same
      split: option.splits if_splits)

lemma cancel_admin_releases: "cancel_job_admin now i s = (d, s') \<Longrightarrow> releases s s'"
  by (auto simp: cancel_job_admin_def Let_def cancel_row_releases request_cancel_releases releases_same
      split: option.splits if_splits)

lemma finish_releases: "terminal (ex_status ex) \<Longrightarrow> releases s (finish_job now i ex s)"
  by (rule releases_update [where P = "\<lambda>j. j_id j = i" and f = "finish_row now ex"])
     (simp_all add: finish_job_def finish_row_def keeps_limits_def ends_or_keeps_def)

lemma fail_releases: "releases s (mark_job_system_error now i msg s)"
  by (rule releases_update [where P = "\<lambda>j. j_id j = i" and
        f = "\<lambda>j. j\<lparr>j_status := SystemError, j_finished_at := Some now,
               j_compile_status := Some SystemError, j_compile_stderr := take 16384 msg\<rparr>"])
     (simp_all add: mark_job_system_error_def keeps_limits_def ends_or_keeps_def)

lemma queue_step_shape [consumes 1, case_names submitted claimed granted released]:
  assumes "queue_step s s'"
  obtains p clk uid d where "job_bounds p" "create_job clk uid p s = Inr (d, s')"
  | clk r where "claim_next_job clk s = (r, s')"
  | gp clk uid actor g where "grant_bounds gp" "create_grant clk uid actor gp s = Inr (g, s')"
  | "releases s s'"
  using assms
  by (cases rule: queue_step.cases)
     (auto intro: that finish_releases fail_releases cancel_job_releases cancel_admin_releases
       releases_same)

section \<open>What a claim does\<close>

lemma claim_started:
  assumes "claim_next_job clk s = (Some c, s')"
  obtains row where "next_candidate s (clk 0) = Some row" and "row \<in> set (t_rows (jobs s))"
    and "is_eligible s (clk 0) row" and "cj_job c = row\<lparr>j_status := Compiling\<rparr>"
    and "jobs s' = update_where (\<lambda>j. j_id j = j_id row \<and> j_status j = Queued) (start_row (clk 2)) (jobs s)"
    and "start_row (clk 2) row \<in> set (t_rows (jobs s'))"
  using assms
proof (cases rule: claim_cases)
  case (started row c')
  note row = next_candidate_eligible [OF started(1)]
  have "start_row (clk 2) row \<in> set (t_rows (jobs s'))"
    unfolding started(6) in_update_where using row
    by (intro bexI [of _ row]) (auto simp: is_eligible_def)
  with started row that show ?thesis by blast
qed simp_all

section \<open>What the scheduling query minimises\<close>

lemma queue_head_exists:
  assumes "k \<in> set js"
  shows "\<exists>h \<in> set (queue_heads js). j_user_id h = j_user_id k"
proof -
  let ?mine = "filter (\<lambda>j. j_user_id j = j_user_id k) js"
  have "k \<in> set ?mine" using assms by simp
  then have "?mine \<noteq> []" by (metis empty_iff list.set(1))
  then obtain h where h: "first_by (\<lambda>j. (j_created_at j, j_id j)) ?mine = Some h"
    by (cases "first_by (\<lambda>j. (j_created_at j, j_id j)) ?mine") auto
  have "h \<in> set (queue_heads js)"
    using first_by_least [OF h] by (simp add: queue_heads_def)
  moreover have "j_user_id h = j_user_id k" using first_by_least(1) [OF h] by simp
  ultimately show ?thesis by blast
qed

lemma next_candidate_least:
  assumes "next_candidate s now = Some row"
    and "k \<in> set (t_rows (jobs s))" and "is_eligible s now k"
  shows "(last_claimed_at s (j_user_id row), j_user_id row)
      \<le> (last_claimed_at s (j_user_id k), j_user_id k)"
    and "j_user_id k = j_user_id row \<Longrightarrow> (j_created_at row, j_id row) \<le> (j_created_at k, j_id k)"
proof -
  have k: "k \<in> set (eligible s now)" using assms by (simp add: eligible_def select_where_def)
  from queue_head_exists [OF this] obtain h where
    "h \<in> set (queue_heads (eligible s now))" and "j_user_id h = j_user_id k" by blast
  with first_by_least(2) [OF assms(1) [unfolded next_candidate_def]]
  show "(last_claimed_at s (j_user_id row), j_user_id row)
      \<le> (last_claimed_at s (j_user_id k), j_user_id k)" by metis
  show "(j_created_at row, j_id row) \<le> (j_created_at k, j_id k)" if "j_user_id k = j_user_id row"
    using first_by_least(1) [OF assms(1) [unfolded next_candidate_def]] k that
    by (simp add: queue_heads_def)
qed

lemma next_candidate_None:
  "next_candidate s now = None \<longleftrightarrow> (\<forall>j \<in> set (t_rows (jobs s)). \<not> is_eligible s now j)"
proof -
  have "queue_heads (eligible s now) = [] \<longleftrightarrow> eligible s now = []"
  proof
    assume none: "queue_heads (eligible s now) = []"
    show "eligible s now = []"
    proof (rule ccontr)
      assume "eligible s now \<noteq> []"
      then have "hd (eligible s now) \<in> set (eligible s now)" by simp
      from queue_head_exists [OF this] none show False by simp
    qed
  qed (simp add: queue_heads_def)
  then show ?thesis
    by (simp add: next_candidate_def) (simp add: eligible_def select_where_def filter_empty_conv)
qed

lemma last_claimed_upper:
  assumes "j \<in> set (t_rows (jobs s))" and "j_started_at j = Some t"
  shows "Some t \<le> last_claimed_at s (j_user_id j)"
proof -
  let ?ts = "List.map_filter j_started_at (select_where (\<lambda>k. j_user_id k = j_user_id j) (jobs s))"
  have t: "t \<in> set ?ts" using assms by (auto simp: in_map_filter select_where_def)
  then obtain m where "sql_max ?ts = Some m" by (cases "sql_max ?ts") auto
  with sql_max_upper [OF this t] show ?thesis by (simp add: last_claimed_at_def)
qed

lemma last_claimed_witness:
  assumes "Some t \<le> last_claimed_at s uid"
  shows "\<exists>j \<in> set (t_rows (jobs s)). j_user_id j = uid \<and> (\<exists>t' \<ge> t. j_started_at j = Some t')"
proof -
  let ?ts = "List.map_filter j_started_at (select_where (\<lambda>k. j_user_id k = uid) (jobs s))"
  from assms obtain m where m: "sql_max ?ts = Some m" "t \<le> m"
    by (cases "sql_max ?ts") (auto simp: last_claimed_at_def)
  from sql_max_in [OF m(1)] m(2) show ?thesis
    by (auto simp: in_map_filter select_where_def)
qed

section \<open>A job across many steps\<close>

lemma phase_terminal_iff: "phase st = 3 \<longleftrightarrow> terminal st"
  by (cases st) (simp_all add: TERMINAL_STATES_def)

lemma advances_terminal_stays:
  assumes "advances j j'" and "terminal (j_status j)"
  shows "terminal (j_status j')"
proof -
  from assms have "3 \<le> phase (j_status j')"
    by (metis advances_def phase_terminal)
  then have "phase (j_status j') = 3" using phase_bound le_antisym by metis
  then show ?thesis by (simp only: phase_terminal_iff)
qed

lemma steps_find:
  assumes "reachable s" and "queue_step\<^sup>*\<^sup>* s s'" and "j \<in> set (t_rows (jobs s))"
  obtains j' where "find (\<lambda>k. j_id k = j_id j) (t_rows (jobs s')) = Some j'" and "advances j j'"
proof -
  from steps_advance [OF assms(2)] assms(3) obtain j' where
    j': "j' \<in> set (t_rows (jobs s'))" "advances j j'"
    unfolding jobs_advance_def by blast
  have "keys_ok j_id (jobs s')"
    using steps_reachable [OF assms(2,1)] by (rule reachable_keys)
  from keys_ok_find [OF this j'(1)] j'(2) have "find (\<lambda>k. j_id k = j_id j) (t_rows (jobs s')) = Some j'"
    by (simp add: advances_def)
  with j'(2) that show ?thesis by blast
qed

lemma claimed_row:
  assumes "claim_next_job clk s = (Some c, s')"
  obtains j where "j \<in> set (t_rows (jobs s'))" and "j_id j = j_id (cj_job c)"
    and "j_user_id j = j_user_id (cj_job c)" and "j_status j = Compiling"
    and "j_started_at j = Some (clk 2)"
proof -
  from claim_started [OF assms] obtain row where
    "cj_job c = row\<lparr>j_status := Compiling\<rparr>" and "start_row (clk 2) row \<in> set (t_rows (jobs s'))"
    by metis
  then show ?thesis by (intro that [of "start_row (clk 2) row"]) (simp_all add: start_row_def)
qed

text \<open>What a started job looks like after any further steps.\<close>

lemma claimed_row_later:
  assumes "claim_next_job clk s = (Some c, s1)" and "queue_step\<^sup>*\<^sup>* s1 s2"
  obtains j where "j \<in> set (t_rows (jobs s2))" and "j_id j = j_id (cj_job c)"
    and "j_user_id j = j_user_id (cj_job c)" and "j_status j \<noteq> Queued"
    and "j_started_at j = Some (clk 2)"
proof -
  from claimed_row [OF assms(1)] obtain j where j: "j \<in> set (t_rows (jobs s1))"
      "j_id j = j_id (cj_job c)" "j_user_id j = j_user_id (cj_job c)" "j_status j = Compiling"
      "j_started_at j = Some (clk 2)" by metis
  from steps_advance [OF assms(2)] j(1) obtain j' where
    j': "j' \<in> set (t_rows (jobs s2))" "advances j j'"
    unfolding jobs_advance_def by blast
  from j' j have "j_id j' = j_id (cj_job c)" "j_user_id j' = j_user_id (cj_job c)"
      "1 \<le> phase (j_status j')" "j_started_at j' = Some (clk 2)"
    by (auto simp: advances_def)
  with j'(1) that show ?thesis by force
qed

section \<open>Uses of a grant\<close>

text \<open>The jobs that were ever started on a grant.\<close>

definition started_on :: "db \<Rightarrow> int \<Rightarrow> nat" where
  "started_on s gid = rowcount (\<lambda>j. j_grant_id j = Some gid \<and> j_started_at j \<noteq> None) (jobs s)"

text \<open>The uses left and the jobs started on a grant: their sum is what the grant was given.\<close>

definition allowance :: "db \<Rightarrow> grant_row \<Rightarrow> int option" where
  "allowance s g = map_option (\<lambda>n. n + int (started_on s (g_id g))) (g_remaining_uses g)"

definition same_uses :: "db \<Rightarrow> db \<Rightarrow> bool" where
  "same_uses s s' \<longleftrightarrow>
     (\<forall>g \<in> set (t_rows (quota_grants s)). \<exists>g' \<in> set (t_rows (quota_grants s')).
        g_id g' = g_id g \<and> g_user_id g' = g_user_id g \<and> allowance s' g' = allowance s g)"

lemma same_uses_refl:
  assumes "set (t_rows (quota_grants s)) \<subseteq> set (t_rows (quota_grants s'))"
    and "\<And>gid. started_on s' gid = started_on s gid"
  shows "same_uses s s'"
  using assms unfolding same_uses_def allowance_def by (metis subsetD)

lemma same_uses_trans: "same_uses a b \<Longrightarrow> same_uses b c \<Longrightarrow> same_uses a c"
  unfolding same_uses_def by metis

lemma started_on_release: "releases s s' \<Longrightarrow> started_on s' gid = started_on s gid"
proof -
  assume "releases s s'"
  then obtain P f where f: "keeps_limits f" and jobs': "jobs s' = update_where P f (jobs s)"
    unfolding releases_def by blast
  have "length (filter (\<lambda>j. j_grant_id j = Some gid \<and> j_started_at j \<noteq> None)
      (map (\<lambda>r. if P r then f r else r) rows))
    = length (filter (\<lambda>j. j_grant_id j = Some gid \<and> j_started_at j \<noteq> None) rows)" for rows
    using f by (induction rows) (simp_all add: keeps_limits_def)
  then show ?thesis unfolding started_on_def rowcount_def jobs' by simp
qed

lemma started_on_jobs: "jobs s' = jobs s \<Longrightarrow> started_on s' gid = started_on s gid"
  by (simp add: started_on_def)

lemma started_on_insert:
  "started_on (snd (insert_job now uid p grant s)) gid = started_on s gid"
  by (simp add: started_on_def rowcount_def queue_simps new_job_def)

lemma length_filter_sum: "int (length (filter P xs)) = sum_list (map (\<lambda>x. if P x then 1 else 0) xs)"
  by (induction xs) auto

lemma started_on_start:
  assumes "keys_ok j_id (jobs s)" and "row \<in> set (t_rows (jobs s))" and "j_status row = Queued"
    and "j_started_at row = None"
    and "jobs s' = update_where (\<lambda>j. j_id j = j_id row \<and> j_status j = Queued) (start_row now) (jobs s)"
  shows "int (started_on s' gid) = int (started_on s gid) + (if j_grant_id row = Some gid then 1 else 0)"
proof -
  let ?w = "\<lambda>j. if j_grant_id j = Some gid \<and> j_started_at j \<noteq> None then 1 else (0::int)"
  have same: "(if j_id q = j_id row \<and> j_status q = Queued then start_row now q else q)
      = (if j_id q = j_id row then start_row now q else q)" if "q \<in> set (t_rows (jobs s))" for q
    using keys_ok_unique [OF assms(1) that assms(2)] assms(3) by auto
  have "t_rows (jobs s') = map (\<lambda>q. if j_id q = j_id row then start_row now q else q) (t_rows (jobs s))"
    unfolding assms(5) table_rows using same by simp
  then have "int (started_on s' gid)
      = sum_list (map (\<lambda>q. ?w (if j_id q = j_id row then start_row now q else q)) (t_rows (jobs s)))"
    by (simp add: started_on_def rowcount_def length_filter_sum comp_def del: filter_map)
  also have "\<dots> = sum_list (map ?w (t_rows (jobs s))) + (?w (start_row now row) - ?w row)"
    using assms(1,2) by (intro sum_list_update_one) (simp_all add: keys_ok_def)
  also have "sum_list (map ?w (t_rows (jobs s))) = int (started_on s gid)"
    by (simp only: started_on_def rowcount_def length_filter_sum)
  finally show ?thesis using assms(4) by (simp add: start_row_def)
qed

lemma claim_same_uses:
  assumes inv: "queue_inv s" and run: "claim_next_job clk s = (r, s')"
  shows "same_uses s s'"
  using run
proof (cases rule: claim_cases)
  case idle
  then show ?thesis by (simp add: same_uses_refl)
next
  case (expired row gid)
  have "releases s (cancel_expired (clk 2) (j_id row) s)"
    by (rule releases_update [where P = "\<lambda>j. j_id j = j_id row" and
          f = "\<lambda>j. j\<lparr>j_status := Cancelled, j_finished_at := Some (clk 2)\<rparr>"])
       (simp_all add: cancel_expired_def keeps_limits_def ends_or_keeps_def)
  then show ?thesis
    by (intro same_uses_refl) (simp_all add: expired cancel_expired_def [of "clk 2"] started_on_release)
next
  case (started row c)
  note row = next_candidate_eligible [OF started(1)]
  have "job_ok s row" using inv row(1) by (simp add: queue_inv_defs)
  with row(2) have queued: "j_status row = Queued" "j_started_at row = None"
    by (simp_all add: is_eligible_def job_ok_def)
  have keys: "keys_ok j_id (jobs s)" "keys_ok g_id (quota_grants s)"
    using inv by (simp_all add: queue_inv_defs)
  note on = started_on_start [OF keys(1) row(1) queued started(6)]
  show ?thesis
  proof (cases "j_grant_id row")
    case None
    then show ?thesis using on by (intro same_uses_refl) (simp_all add: started(9))
  next
    case (Some gid)
    let ?P = "\<lambda>g. g_id g = gid \<and> live_grant (clk 1) g"
    from started(10) [OF Some] obtain g0 where g0: "filter ?P (t_rows (quota_grants s)) = [g0]"
      by (auto simp: rowcount_def length_Suc_conv)
    then have "g0 \<in> set (filter ?P (t_rows (quota_grants s)))" by simp
    then have g0': "g0 \<in> set (t_rows (quota_grants s))" "?P g0" by auto
    show ?thesis
      unfolding same_uses_def
    proof
      fix g assume g: "g \<in> set (t_rows (quota_grants s))"
      have here: "(if ?P g then charge_grant g else g) \<in> set (t_rows (quota_grants s'))"
        using g by (simp add: started(9) Some)
      have "?P g \<longleftrightarrow> g_id g = gid"
        using keys_ok_unique [OF keys(2) g g0'(1)] g0'(2) by auto
      then have "allowance s' (if ?P g then charge_grant g else g) = allowance s g"
        using on Some by (auto simp: allowance_def option.map_comp comp_def intro!: map_option_cong)
      with here show "\<exists>g' \<in> set (t_rows (quota_grants s')).
          g_id g' = g_id g \<and> g_user_id g' = g_user_id g \<and> allowance s' g' = allowance s g"
        by (intro bexI [OF _ here]) auto
    qed
  qed
qed

lemma queue_step_same_uses:
  assumes "queue_step s s'" and "queue_inv s"
  shows "same_uses s s'"
  using assms(1)
proof (cases rule: queue_step_shape)
  case (submitted p clk uid d)
  then obtain grant where "s' = snd (insert_job (clk 2) uid p grant s)"
    by (auto simp: create_job_Inr submission_insert_Inr)
  then show ?thesis by (intro same_uses_refl) (simp_all add: started_on_insert queue_simps)
next
  case (claimed clk r)
  with assms(2) show ?thesis by (rule claim_same_uses)
next
  case (granted gp clk uid actor g)
  then have "jobs s' = jobs s" and "set (t_rows (quota_grants s)) \<subseteq> set (t_rows (quota_grants s'))"
    by (auto simp: create_grant_def insert_row_def Let_def split: if_splits)
  then show ?thesis by (intro same_uses_refl started_on_jobs) simp_all
next
  case released
  then show ?thesis by (intro same_uses_refl) (auto simp: releases_def started_on_release)
qed

lemma steps_same_uses: "queue_step\<^sup>*\<^sup>* s s' \<Longrightarrow> reachable s \<Longrightarrow> same_uses s s'"
proof (induction rule: rtranclp_induct)
  case base
  show ?case by (simp add: same_uses_refl)
next
  case (step b c)
  then have "queue_inv b" using steps_reachable reachable_inv by blast
  with step show ?case using queue_step_same_uses same_uses_trans by blast
qed

end
