(* ===== verification/Queue_Sample.thy ===== *)
theory Queue_Sample
  imports Queue_Order
begin

text \<open>
  A small database of the job queue for the witnesses of its properties: two developers, as in the
  scheduling tests, with some submissions, a grant and a claim.
\<close>

section \<open>A sample database\<close>

definition sample_user :: "int \<Rightarrow> string \<Rightarrow> user_row" where
  "sample_user i name =
     \<lparr>u_id = i, u_public_id = name, u_username = name, u_role = Developer, u_password_hash = [],
      u_api_token_hash = None, u_status = Active, u_workspace_path = None,
      u_workspace_quota_mib = 1024, u_created_at = 0, u_last_login_at = None\<rparr>"

definition sample_db :: db where
  "sample_db = empty_db\<lparr>users := \<lparr>t_rows = [sample_user 1 ''a'', sample_user 2 ''b''], t_seq = 2\<rparr>\<rparr>"

definition sample_payload :: "int \<Rightarrow> job_payload" where
  "sample_payload memory =
     \<lparr>p_filename = ''a'', p_source = ''s'', p_compiler = ''g'',
      p_time_limit_ms = 1000, p_memory_limit_mib = memory, p_inputs = ['''', ''1'']\<rparr>"

definition sample_grant :: "int option \<Rightarrow> int option \<Rightarrow> grant_payload" where
  "sample_grant memory uses =
     \<lparr>gp_memory_limit_mib = memory, gp_time_limit_ms = None, gp_max_inflight = None,
      gp_remaining_uses = uses, gp_expires_in_seconds = Some 3600\<rparr>"

definition at :: "stamp \<Rightarrow> clock" where
  "at t n = t + int n"

definition committed :: "('a \<times> db) result \<Rightarrow> db" where
  "committed r = (case r of Inl _ \<Rightarrow> empty_db | Inr (_, s) \<Rightarrow> s)"

definition submitted :: "stamp \<Rightarrow> int \<Rightarrow> int \<Rightarrow> db \<Rightarrow> db" where
  "submitted t uid memory s = committed (create_job (at t) uid (sample_payload memory) s)"

lemmas sample_defs = sample_user_def sample_db_def sample_payload_def sample_grant_def
  at_def committed_def submitted_def

text \<open>Alice has two jobs of 160 MiB, Bob one of 64; then one claim.\<close>

definition queued_db :: db where
  "queued_db = submitted 30 2 64 (submitted 20 1 160 (submitted 10 1 160 sample_db))"

definition claimed_db :: db where
  "claimed_db = snd (claim_next_job (at 40) queued_db)"

definition sample_job :: "int \<Rightarrow> int \<Rightarrow> int \<Rightarrow> stamp \<Rightarrow> job_state \<Rightarrow> stamp option \<Rightarrow> job_row" where
  "sample_job i uid memory created status started =
     (new_job created uid (sample_payload memory) None)
       \<lparr>j_id := i, j_status := status, j_started_at := started\<rparr>"

definition three_jobs :: "job_row list \<Rightarrow> db" where
  "three_jobs js = sample_db\<lparr>jobs := \<lparr>t_rows = js, t_seq = 3\<rparr>,
     job_cases := insert_cases 3 1 ['''', ''1'']
       (insert_cases 2 1 ['''', ''1''] (insert_cases 1 1 ['''', ''1''] empty_table))\<rparr>"

text \<open>The three submissions evaluated; later evaluations start from this value.\<close>

lemma queued_value [code]:
  "queued_db = three_jobs [sample_job 1 1 160 12 Queued None, sample_job 2 1 160 22 Queued None,
     sample_job 3 2 64 32 Queued None]"
  by code_simp

lemma claimed_value [code]:
  "claimed_db = three_jobs [sample_job 1 1 160 12 Compiling (Some 42),
     sample_job 2 1 160 22 Queued None, sample_job 3 2 64 32 Queued None]"
  by code_simp

lemma submitted_reachable:
  assumes "reachable s" and "16 \<le> memory" and "memory \<le> 4096"
    and "is_ok (create_job (at t) uid (sample_payload memory) s)"
  shows "reachable (submitted t uid memory s)"
proof -
  from assms(4) obtain d s' where "create_job (at t) uid (sample_payload memory) s = Inr (d, s')"
    by (auto split: sum.splits)
  moreover have "job_bounds (sample_payload memory)"
    using assms(2,3) by (simp add: job_bounds_def sample_payload_def ceilings)
  ultimately show ?thesis
    using assms(1) by (auto simp: submitted_def committed_def intro: reachable.step queue_step.submit)
qed

lemma sample_reachable: "reachable sample_db"
  by (rule reachable.start) (simp_all add: sample_db_def empty_db_def)

lemma queued_submissions:
  "is_ok (create_job (at 10) 1 (sample_payload 160) sample_db)"
  "is_ok (create_job (at 20) 1 (sample_payload 160) (submitted 10 1 160 sample_db))"
  "is_ok (create_job (at 30) 2 (sample_payload 64) (submitted 20 1 160 (submitted 10 1 160 sample_db)))"
  by code_simp+

lemma queued_reachable: "reachable queued_db"
  unfolding queued_db_def
  by (intro submitted_reachable sample_reachable queued_submissions) simp_all

lemma claim_steps: "claim_next_job clk s = (r, s') \<Longrightarrow> queue_step\<^sup>*\<^sup>* s s'"
  by (auto intro: queue_step.claim)

lemma claimed_steps: "queue_step\<^sup>*\<^sup>* queued_db claimed_db"
  unfolding claimed_db_def by (rule claim_steps [OF surjective_pairing])

lemma claimed_reachable: "reachable claimed_db"
  using steps_reachable [OF claimed_steps queued_reachable] .

definition granted_db :: db where
  "granted_db =
     submitted 30 1 512 (committed (create_grant (at 20) 1 2 (sample_grant (Some 512) (Some 2)) sample_db))"

lemma granted_create: "is_ok (create_grant (at 20) 1 2 (sample_grant (Some 512) (Some 2)) sample_db)"
  by code_simp

lemma granted_submit:
  "is_ok (create_job (at 30) 1 (sample_payload 512)
     (committed (create_grant (at 20) 1 2 (sample_grant (Some 512) (Some 2)) sample_db)))"
  by code_simp

lemma granted_reachable: "reachable granted_db"
proof -
  from granted_create obtain g s' where
    grant: "create_grant (at 20) 1 2 (sample_grant (Some 512) (Some 2)) sample_db = Inr (g, s')"
    by (auto split: sum.splits)
  have "grant_bounds (sample_grant (Some 512) (Some 2))"
    by (simp add: grant_bounds_def sample_grant_def within_def ceilings)
  with grant sample_reachable have "reachable s'" by (blast intro: reachable.step queue_step.grant)
  then show ?thesis
    unfolding granted_db_def using granted_submit
    by (intro submitted_reachable) (simp_all add: grant committed_def)
qed

end
