(* ===== verification/Queue_Properties.thy ===== *)
theory Queue_Properties
  imports Queue_Sample
begin

text \<open>
  The properties of the job queue across steps, each with a witness over the database of
  \<open>Queue_Sample\<close>.
\<close>

section \<open>Resource guarantees\<close>

text \<open>C1: in every reachable state of the queue, the memory reserved by a user's jobs in execution
  (compiling or running) is at most 256 MiB or the largest memory limit ever granted to that user.\<close>
theorem running_memory_within_ceiling:
  assumes "reachable s"
  shows "0 \<le> active_memory s uid \<and> active_memory s uid \<le> memory_ceiling s uid"
proof
  have inv: "queue_inv s" using assms by (rule reachable_inv)
  then show "active_memory s uid \<le> memory_ceiling s uid" by (simp add: queue_inv_defs)
  show "0 \<le> active_memory s uid"
    using inv unfolding active_memory_def
    by (intro sum_list_nonneg) (auto simp: queue_inv_defs job_ok_def select_where_def)
qed

theorem running_memory_within_ceiling_witness:
  "active_memory claimed_db 1 \<le> memory_ceiling claimed_db 1 \<and> active_memory claimed_db 1 = 160
   \<and> memory_ceiling claimed_db 1 = 256"
  using running_memory_within_ceiling [OF claimed_reachable, of 1, THEN conjunct2]
  by (intro conjI) (assumption, code_simp, code_simp)

text \<open>In every reachable state the number of a user's unfinished jobs is at most 5 or the
  largest in-flight limit ever granted to that user.\<close>
theorem inflight_within_ceiling:
  assumes "reachable s"
  shows "int (inflight s uid) \<le> inflight_ceiling s uid"
  using reachable_inv [OF assms] by (simp add: queue_inv_defs)

theorem inflight_within_ceiling_witness:
  "int (inflight queued_db 1) \<le> inflight_ceiling queued_db 1 \<and> inflight queued_db 1 = 2"
  using inflight_within_ceiling [OF queued_reachable, of 1]
  by (intro conjI) (assumption, code_simp)

text \<open>A job above 256 MiB or 60 s never exists without a grant: in every reachable state each
  job row either stays within the base limits or names a grant row of its own user whose limits
  cover the excess.\<close>
theorem large_jobs_are_granted:
  assumes "reachable s" and "j \<in> set (t_rows (jobs s))"
    and "j_memory_limit_mib j > 256 \<or> j_time_limit_ms j > 60000"
  shows "\<exists>g \<in> set (t_rows (quota_grants s)).
    j_grant_id j = Some (g_id g) \<and> g_user_id g = j_user_id j
    \<and> covers 256 (g_memory_limit_mib g) (j_memory_limit_mib j)
    \<and> covers 60000 (g_time_limit_ms g) (j_time_limit_ms j)"
proof -
  from reachable_inv [OF assms(1)] assms(2) have "authorised s j"
    by (simp add: queue_inv_defs job_ok_def)
  with assms(3) show ?thesis by (auto simp: authorised_def split: option.splits)
qed

theorem large_jobs_are_granted_witness:
  "\<exists>g \<in> set (t_rows (quota_grants granted_db)).
     j_grant_id (hd (t_rows (jobs granted_db))) = Some (g_id g) \<and> g_user_id g = 1
     \<and> covers 256 (g_memory_limit_mib g) 512"
proof -
  let ?j = "hd (t_rows (jobs granted_db))"
  have "t_rows (jobs granted_db) \<noteq> []" by code_simp
  then have "?j \<in> set (t_rows (jobs granted_db))" by simp
  moreover have mem: "j_memory_limit_mib ?j = 512" "j_user_id ?j = 1" by code_simp+
  ultimately show ?thesis using large_jobs_are_granted [OF granted_reachable, of ?j] by auto
qed

section \<open>Scheduling\<close>


lemma claimed_run: "claim_next_job (at 40) queued_db = (Some (the (fst (claim_next_job (at 40) queued_db))), claimed_db)"
proof -
  have "fst (claim_next_job (at 40) queued_db) \<noteq> None" by code_simp
  then show ?thesis by (auto simp: claimed_db_def prod_eq_iff)
qed


text \<open>Fair order. The claimed job is the oldest eligible job of its user, and no other user with
  an eligible job was served longer ago (a user never served comes first, ties go to the smaller
  user id).\<close>
theorem claim_least_recently_served:
  assumes "claim_next_job clk s = (Some c, s')"
    and "k \<in> set (t_rows (jobs s))" and "is_eligible s (clk 0) k"
  shows "(last_claimed_at s (j_user_id (cj_job c)), j_user_id (cj_job c))
      \<le> (last_claimed_at s (j_user_id k), j_user_id k)
    \<and> (j_user_id k = j_user_id (cj_job c)
        \<longrightarrow> (j_created_at (cj_job c), j_id (cj_job c)) \<le> (j_created_at k, j_id k))"
proof -
  from claim_started [OF assms(1)] obtain row where row: "next_candidate s (clk 0) = Some row"
      "cj_job c = row\<lparr>j_status := Compiling\<rparr>" by metis
  from next_candidate_least [OF row(1) assms(2,3)] row(2) show ?thesis by simp
qed

lemma queued_length: "length (t_rows (jobs queued_db)) = 3"
  by code_simp

lemma queued_nth: "i < 3 \<Longrightarrow> t_rows (jobs queued_db) ! i \<in> set (t_rows (jobs queued_db))"
  by (simp add: queued_length)

text \<open>After alice's first job is claimed, bob is next although his job is the youngest.\<close>

definition served_db :: db where
  "served_db = snd (claim_next_job (at 50) claimed_db)"

lemma served_value [code]:
  "served_db = three_jobs [sample_job 1 1 160 12 Compiling (Some 42),
     sample_job 2 1 160 22 Queued None, sample_job 3 2 64 32 Compiling (Some 52)]"
  by code_simp

lemma served_run: "claim_next_job (at 50) claimed_db = (Some (the (fst (claim_next_job (at 50) claimed_db))), served_db)"
proof -
  have "fst (claim_next_job (at 50) claimed_db) \<noteq> None" by code_simp
  then show ?thesis by (auto simp: served_db_def prod_eq_iff)
qed

theorem claim_least_recently_served_witness:
  "(last_claimed_at queued_db 1, 1 :: int) \<le> (last_claimed_at queued_db 2, 2)
   \<and> map j_status (t_rows (jobs served_db)) = [Compiling, Queued, Compiling]"
proof
  let ?k = "t_rows (jobs queued_db) ! 2"
  have "is_eligible queued_db (at 40 0) ?k" "j_user_id ?k = 2"
    "j_user_id (cj_job (the (fst (claim_next_job (at 40) queued_db)))) = 1"
    by code_simp+
  with claim_least_recently_served [OF claimed_run queued_nth [of 2]]
  show "(last_claimed_at queued_db 1, 1 :: int) \<le> (last_claimed_at queued_db 2, 2)" by simp
qed code_simp

text \<open>Round robin. If the same user is served by two claims, every other user who still has an
  eligible job waiting at the second claim was served in between: one of their jobs was started no
  earlier than the first claim.\<close>
theorem no_user_overtaken_twice:
  assumes "claim_next_job clk s = (Some c, s1)" and "queue_step\<^sup>*\<^sup>* s1 s2"
    and "claim_next_job clk' s2 = (Some c', s3)"
    and "j_user_id (cj_job c') = j_user_id (cj_job c)"
    and "k \<in> set (t_rows (jobs s2))" and "is_eligible s2 (clk' 0) k"
  shows "\<exists>j \<in> set (t_rows (jobs s2)). j_user_id j = j_user_id k
    \<and> (\<exists>t \<ge> clk 2. j_started_at j = Some t)"
proof -
  from claimed_row_later [OF assms(1,2)] obtain j where j: "j \<in> set (t_rows (jobs s2))"
      "j_user_id j = j_user_id (cj_job c)" "j_started_at j = Some (clk 2)" by metis
  from claim_started [OF assms(3)] obtain row where row: "next_candidate s2 (clk' 0) = Some row"
      "cj_job c' = row\<lparr>j_status := Compiling\<rparr>" by metis
  from last_claimed_upper [OF j(1,3)] j(2) assms(4) row(2)
  have "Some (clk 2) \<le> last_claimed_at s2 (j_user_id row)" by simp
  also have "last_claimed_at s2 (j_user_id row) \<le> last_claimed_at s2 (j_user_id k)"
    using next_candidate_least(1) [OF row(1) assms(5,6)] by (auto simp: less_eq_prod_def)
  finally show ?thesis by (rule last_claimed_witness)
qed

text \<open>Alice is served a third time only after bob was: his claim is stamped 52, the first claim 42.\<close>

definition relaxed_db :: db where
  "relaxed_db = mark_job_system_error 60 1 ''l'' (submitted 55 2 64 served_db)"

lemma relaxed_submission: "is_ok (create_job (at 55) 2 (sample_payload 64) served_db)"
  by code_simp

lemma submitted_step:
  assumes "16 \<le> memory" and "memory \<le> 4096"
    and "is_ok (create_job (at t) uid (sample_payload memory) s)"
  shows "queue_step s (submitted t uid memory s)"
proof -
  from assms(3) obtain d s' where run: "create_job (at t) uid (sample_payload memory) s = Inr (d, s')"
    by (auto split: sum.splits)
  moreover have "job_bounds (sample_payload memory)"
    using assms(1,2) by (simp add: job_bounds_def sample_payload_def ceilings)
  ultimately show ?thesis by (auto simp: submitted_def committed_def intro: queue_step.submit)
qed

lemma relaxed_steps: "queue_step\<^sup>*\<^sup>* claimed_db relaxed_db"
proof -
  have "queue_step claimed_db served_db"
    unfolding served_db_def by (rule queue_step.claim [OF surjective_pairing])
  moreover have "queue_step served_db (submitted 55 2 64 served_db)"
    by (intro submitted_step relaxed_submission) simp_all
  moreover have "queue_step (submitted 55 2 64 served_db) relaxed_db"
    unfolding relaxed_db_def by (rule queue_step.fail)
  ultimately show ?thesis by (meson converse_rtranclp_into_rtranclp rtranclp.rtrancl_refl)
qed

lemma relaxed_value [code]:
  "relaxed_db = (three_jobs [])\<lparr>
     jobs := \<lparr>t_rows =
        [(sample_job 1 1 160 12 SystemError (Some 42))\<lparr>j_finished_at := Some 60,
           j_compile_status := Some SystemError, j_compile_stderr := ''l''\<rparr>,
         sample_job 2 1 160 22 Queued None, sample_job 3 2 64 32 Compiling (Some 52),
         sample_job 4 2 64 57 Queued None], t_seq = 4\<rparr>,
     job_cases := insert_cases 4 1 ['''', ''1'']
       (cancel_queued_cases 1 ''runner internal error'' (job_cases (three_jobs [])))\<rparr>"
  by code_simp

lemma relaxed_run: "claim_next_job (at 70) relaxed_db
    = (Some (the (fst (claim_next_job (at 70) relaxed_db))), snd (claim_next_job (at 70) relaxed_db))"
proof -
  have "fst (claim_next_job (at 70) relaxed_db) \<noteq> None" by code_simp
  then show ?thesis by (auto simp: prod_eq_iff)
qed

theorem no_user_overtaken_twice_witness:
  "\<exists>j \<in> set (t_rows (jobs relaxed_db)). j_user_id j = 2 \<and> (\<exists>t \<ge> 42. j_started_at j = Some t)"
proof -
  let ?k = "t_rows (jobs relaxed_db) ! 3"
  have k: "is_eligible relaxed_db (at 70 0) ?k" "j_user_id ?k = 2" "3 < length (t_rows (jobs relaxed_db))"
    "j_user_id (cj_job (the (fst (claim_next_job (at 70) relaxed_db))))
       = j_user_id (cj_job (the (fst (claim_next_job (at 40) queued_db))))"
    by code_simp+
  from no_user_overtaken_twice [OF claimed_run relaxed_steps relaxed_run k(4) nth_mem [OF k(3)] k(1)] k(2)
  show ?thesis by (simp add: at_def)
qed

text \<open>No job is handed out twice, whatever happens between two claims.\<close>
theorem no_job_claimed_twice:
  assumes "reachable s" and "claim_next_job clk s = (Some c, s1)" and "queue_step\<^sup>*\<^sup>* s1 s2"
    and "claim_next_job clk' s2 = (Some c', s3)"
  shows "j_id (cj_job c') \<noteq> j_id (cj_job c)"
proof
  assume same: "j_id (cj_job c') = j_id (cj_job c)"
  from claimed_row_later [OF assms(2,3)] obtain j where j: "j \<in> set (t_rows (jobs s2))"
      "j_id j = j_id (cj_job c)" "j_status j \<noteq> Queued" by metis
  from claim_started [OF assms(4)] obtain row where row: "row \<in> set (t_rows (jobs s2))"
      "is_eligible s2 (clk' 0) row" "cj_job c' = row\<lparr>j_status := Compiling\<rparr>" by metis
  have "queue_step s s1" using assms(2) by (rule queue_step.claim)
  then have "reachable s2" using assms(1,3) by (blast intro: reachable.step steps_reachable)
  from keys_ok_unique [OF reachable_keys [OF this] j(1) row(1)] j row same
  show False by (simp add: is_eligible_def)
qed

theorem no_job_claimed_twice_witness:
  "j_id (cj_job (the (fst (claim_next_job (at 70) relaxed_db))))
     \<noteq> j_id (cj_job (the (fst (claim_next_job (at 40) queued_db))))"
  by (rule no_job_claimed_twice [OF queued_reachable claimed_run relaxed_steps relaxed_run])

text \<open>C10: the life cycle only moves forward. A job keeps its row, owner, source, limits and grant
  through any steps; its phase (queued, executing, ended) never decreases, an ended job stays
  ended, its start time is written once, and no row is ever in the state running.\<close>
theorem job_life_cycle:
  assumes "reachable s" and "queue_step\<^sup>*\<^sup>* s s'" and "j \<in> set (t_rows (jobs s))"
  shows "\<exists>j'. find (\<lambda>k. j_id k = j_id j) (t_rows (jobs s')) = Some j' \<and> advances j j'
    \<and> (terminal (j_status j) \<longrightarrow> terminal (j_status j')) \<and> j_status j' \<noteq> Running"
proof -
  from steps_find [OF assms] obtain j' where
    j': "find (\<lambda>k. j_id k = j_id j) (t_rows (jobs s')) = Some j'" "advances j j'" by metis
  have "reachable s'" using assms(2,1) by (rule steps_reachable)
  then have "j_status j' \<noteq> Running"
    using reachable_inv j'(1) by (auto simp: queue_inv_defs job_ok_def dest!: find_Some_filter)
  with j' advances_terminal_stays show ?thesis by blast
qed

theorem job_life_cycle_witness:
  "\<exists>j'. find (\<lambda>k. j_id k = j_id (t_rows (jobs queued_db) ! 0)) (t_rows (jobs relaxed_db)) = Some j'
     \<and> advances (t_rows (jobs queued_db) ! 0) j' \<and> j_status j' \<noteq> Running"
proof -
  have "0 < length (t_rows (jobs queued_db))" by (simp add: queued_length)
  from job_life_cycle [OF queued_reachable rtranclp_trans [OF claimed_steps relaxed_steps] nth_mem [OF this]]
  show ?thesis by blast
qed

section \<open>Grant accounting\<close>

text \<open>C28: a limited grant is spent exactly. Through any steps, the uses left on a grant plus the jobs
  ever started on it stay what they were, and the uses left never become negative; so a grant of n
  uses starts at most n jobs.\<close>
theorem grant_uses_conserved:
  assumes "reachable s" and "queue_step\<^sup>*\<^sup>* s s'" and "g \<in> set (t_rows (quota_grants s))"
    and "g_remaining_uses g = Some n"
  shows "\<exists>g' n'. g' \<in> set (t_rows (quota_grants s')) \<and> g_id g' = g_id g \<and> g_remaining_uses g' = Some n'
    \<and> n' + int (started_on s' (g_id g)) = n + int (started_on s (g_id g)) \<and> 0 \<le> n'"
proof -
  from steps_same_uses [OF assms(2,1)] assms(3) obtain g' where
    g': "g' \<in> set (t_rows (quota_grants s'))" "g_id g' = g_id g" "allowance s' g' = allowance s g"
    unfolding same_uses_def by blast
  with assms(4) obtain n' where n': "g_remaining_uses g' = Some n'"
      "n' + int (started_on s' (g_id g)) = n + int (started_on s (g_id g))"
    by (auto simp: allowance_def)
  have "queue_inv s'" using assms(1,2) steps_reachable reachable_inv by blast
  with g'(1) n'(1) have "0 \<le> n'" by (auto simp: queue_inv_defs grant_ok_def split: option.splits)
  with g' n' show ?thesis by blast
qed

definition spent_db :: db where
  "spent_db = snd (claim_next_job (at 40) granted_db)"

theorem grant_uses_conserved_witness:
  "(\<exists>g' n'. g' \<in> set (t_rows (quota_grants spent_db)) \<and> g_remaining_uses g' = Some n'
      \<and> n' + int (started_on spent_db 1) = 2)
   \<and> map g_remaining_uses (t_rows (quota_grants spent_db)) = [Some 1] \<and> started_on spent_db 1 = 1"
proof (intro conjI)
  let ?g = "t_rows (quota_grants granted_db) ! 0"
  have g: "0 < length (t_rows (quota_grants granted_db))" "g_remaining_uses ?g = Some 2" "g_id ?g = 1"
      "started_on granted_db 1 = 0"
    by code_simp+
  have "queue_step\<^sup>*\<^sup>* granted_db spent_db"
    unfolding spent_db_def by (rule claim_steps [OF surjective_pairing])
  from grant_uses_conserved [OF granted_reachable this nth_mem [OF g(1)] g(2)] g(3,4)
  show "\<exists>g' n'. g' \<in> set (t_rows (quota_grants spent_db)) \<and> g_remaining_uses g' = Some n'
      \<and> n' + int (started_on spent_db 1) = 2"
    by auto
qed code_simp+

end
