(* ===== verification/Queue_Outcomes.thy ===== *)
theory Queue_Outcomes
  imports Queue_Sample
begin

text \<open>
  What the single operations of the queue return and store: submission, completion, cancellation,
  progress of the scheduler, and the two behaviours in which the queue does not do what it means to
  (a job whose grant died is never served nor cancelled; concurrent submissions pass the in-flight
  check together).
\<close>

section \<open>Case rows belong to existing jobs\<close>

definition cases_inv :: "db \<Rightarrow> bool" where
  "cases_inv s \<longleftrightarrow> (\<forall>c \<in> set (t_rows (job_cases s)). c_job_id c \<le> t_seq (jobs s))"

lemma set_insert_cases:
  "t_rows (insert_cases i pos xs t) = t_rows t
     @ map (\<lambda>k. (new_case i (pos + int k) (xs ! k))\<lparr>c_id := t_seq t + 1 + int k\<rparr>) [0 ..< length xs]"
proof (induction i pos xs t rule: insert_cases.induct)
  case (2 i pos x xs t)
  have "[0 ..< length (x # xs)] = 0 # map Suc [0 ..< length xs]"
    by (simp add: upt_conv_Cons map_Suc_upt del: upt_Suc)
  with 2 show ?case by (simp add: comp_def algebra_simps)
qed simp

lemma case_job_ids:
  "c \<in> set (t_rows (store_cases i rs t)) \<Longrightarrow> \<exists>q \<in> set (t_rows t). c_job_id c = c_job_id q"
proof (induction i rs t arbitrary: c rule: store_cases.induct)
  case (2 i r rs t)
  from 2(1) [OF 2(2) [unfolded store_cases.simps]] show ?case by (auto simp: finish_case_row_def split: if_splits)
qed auto

lemma cancel_queued_job_ids:
  "c \<in> set (t_rows (cancel_queued_cases i m t)) \<Longrightarrow> \<exists>q \<in> set (t_rows t). c_job_id c = c_job_id q"
  by (auto simp: cancel_queued_cases_def)

lemma cases_inv_le:
  assumes "cases_inv s" and "t_seq (jobs s) \<le> t_seq (jobs s')"
    and "\<And>c. c \<in> set (t_rows (job_cases s')) \<Longrightarrow>
      c_job_id c = t_seq (jobs s') \<or> (\<exists>q \<in> set (t_rows (job_cases s)). c_job_id c = c_job_id q)"
  shows "cases_inv s'"
  using assms unfolding cases_inv_def by fastforce

lemma cancel_tables_cases:
  assumes "cases_inv s" and "\<And>c. c_job_id (f c) = c_job_id c"
  shows "cases_inv (s\<lparr>jobs := update_where P g (jobs s), job_cases := update_where Q f (job_cases s)\<rparr>)"
  by (rule cases_inv_le [OF assms(1)]) (auto simp: assms(2))

lemma request_cancel_cases: "cases_inv s \<Longrightarrow> cases_inv (request_cancel i s)"
  by (rule cases_inv_le) (auto simp: request_cancel_def)

lemma queue_step_cases: "queue_step s s' \<Longrightarrow> cases_inv s \<Longrightarrow> cases_inv s'"
proof (induction rule: queue_step.induct)
  case (submit p clk uid s d s')
  then obtain grant where s': "s' = snd (insert_job (clk 2) uid p grant s)"
    by (auto simp: create_job_Inr submission_insert_Inr)
  show ?case
    by (rule cases_inv_le [OF submit(3)]) (auto simp: s' queue_simps set_insert_cases new_case_def)
next
  case (claim clk s r s')
  from claim(1) show ?case
  proof (cases rule: claim_cases)
    case (expired row gid)
    show ?thesis unfolding expired cancel_expired_def by (rule cancel_tables_cases [OF claim(2)]) simp
  next
    case (started row c)
    show ?thesis by (rule cases_inv_le [OF claim(2)]) (auto simp: started)
  qed (use claim in simp)
next
  case (finish ex s now i)
  show ?case
    by (rule cases_inv_le [OF finish(2)])
       (use case_job_ids cancel_queued_job_ids in \<open>fastforce simp: finish_job_def\<close>)+
next
  case (fail s now i msg)
  show ?case
    by (rule cases_inv_le [OF fail])
       (use cancel_queued_job_ids in \<open>fastforce simp: mark_job_system_error_def\<close>)+
next
  case (cancel now i uid s d s')
  then show ?case
    by (auto simp: cancel_job_def Let_def intro!: cancel_tables_cases request_cancel_cases
        split: option.splits if_splits)
next
  case (cancel_admin now i s d s')
  then show ?case
    by (auto simp: cancel_job_admin_def Let_def intro!: cancel_tables_cases request_cancel_cases
        split: option.splits if_splits)
next
  case (grant gp clk uid actor s g s')
  then have "jobs s' = jobs s" "job_cases s' = job_cases s"
    by (auto simp: create_grant_def insert_row_def Let_def split: if_splits)
  with grant(3) show ?case by (simp add: cases_inv_def)
qed (simp add: cases_inv_def)

lemma reachable_cases: "reachable s \<Longrightarrow> cases_inv s"
  by (induction rule: reachable.induct) (auto simp: cases_inv_def dest: queue_step_cases [unfolded cases_inv_def])

section \<open>Submission\<close>

definition expected_job :: "stamp \<Rightarrow> int \<Rightarrow> job_payload \<Rightarrow> int option \<Rightarrow> int \<Rightarrow> job_row" where
  "expected_job now uid p grant i = (new_job now uid p grant)\<lparr>j_id := i\<rparr>"

lemma insort_key_le: "\<forall>y \<in> set ys. f x \<le> f y \<Longrightarrow> insort_key f x ys = x # ys"
  by (cases ys) auto

lemma sort_key_sorted: "sorted (map f xs) \<Longrightarrow> sort_key f xs = xs"
  by (induction xs) (auto simp: insort_key_le)

lemma insert_job_detail:
  assumes "reachable s" and "cases_inv s" and "s' = snd (insert_job now uid p grant s)"
    and "i = t_seq (jobs s) + 1"
  shows "get_job s' i (Some uid)
    = Some \<lparr>jd_job = expected_job now uid p grant i,
            jd_cases = map (\<lambda>k. (new_case i (1 + int k) (p_inputs p ! k))
                              \<lparr>c_id := t_seq (job_cases s) + 1 + int k\<rparr>) [0 ..< length (p_inputs p)],
            jd_case_count = length (p_inputs p)\<rparr>"
proof -
  let ?new = "map (\<lambda>k. (new_case i (1 + int k) (p_inputs p ! k))
                              \<lparr>c_id := t_seq (job_cases s) + 1 + int k\<rparr>) [0 ..< length (p_inputs p)]"
  let ?P = "\<lambda>j. j_id j = i \<and> j_user_id j = uid"
  have "filter ?P (t_rows (jobs s)) = []"
    using job_key.insert_fresh [OF reachable_keys [OF assms(1)]] assms(4)
    by (force simp: filter_empty_conv)
  then have job: "select_where ?P (jobs s') = [expected_job now uid p grant i]"
    by (simp add: select_where_def assms(3,4) queue_simps expected_job_def new_job_def)
  have "filter (\<lambda>c. c_job_id c = i) (t_rows (job_cases s)) = []"
    using assms(2,4) by (auto simp: cases_inv_def filter_empty_conv)
  moreover have "filter (\<lambda>c. c_job_id c = i) ?new = ?new"
    by (simp add: filter_id_conv new_case_def)
  ultimately have cases: "select_where (\<lambda>c. c_job_id c = i) (job_cases s') = ?new"
    by (simp add: select_where_def assms(3) queue_simps set_insert_cases assms(4) [symmetric])
  have "sorted (map c_position ?new)"
    by (simp add: comp_def new_case_def sorted_iff_nth_mono)
  then have "sort_key c_position ?new = ?new" by (rule sort_key_sorted)
  with job cases show ?thesis by (simp add: get_job_def Let_def)
qed

text \<open>The outcome of a submission, on every branch. It is refused with the in-flight error when
  the user already has as many unfinished jobs as allowed; otherwise, above the base limits and
  without a covering live grant, with the quota error; otherwise it commits one queued row with the
  payload and the grant, one queued case per input numbered from 1 in order, and returns exactly
  those rows.\<close>
theorem create_job_functional:
  assumes "reachable s" and "user_exists s uid"
  shows "create_job clk uid p s =
    (let i = t_seq (jobs s) + 1;
         large = (p_memory_limit_mib p > 256 \<or> p_time_limit_ms p > 60000);
         found = find_grant s (clk 1) uid p;
         grant = (if large then map_option g_id found else None)
     in if lim_inflight (effective_limits s (clk 0) uid) \<le> int (inflight s uid)
          then Inl (OverflowError ''inflight_limit'')
        else if large \<and> found = None then Inl (ValueError ''quota_exceeded'')
        else Inr (Some \<lparr>jd_job = (new_job (clk 2) uid p grant)\<lparr>j_id := i\<rparr>,
                        jd_cases = map (\<lambda>k. (new_case i (1 + int k) (p_inputs p ! k))
                              \<lparr>c_id := t_seq (job_cases s) + 1 + int k\<rparr>) [0 ..< length (p_inputs p)],
                        jd_case_count = length (p_inputs p)\<rparr>,
                  snd (insert_job (clk 2) uid p grant s)))"
proof -
  note detail = insert_job_detail [OF assms(1) reachable_cases [OF assms(1)] refl refl]
  have ins: "submission_insert clk uid p grant s
      = Inr (get_job (snd (insert_job (clk 2) uid p grant s)) (t_seq (jobs s) + 1) (Some uid),
             snd (insert_job (clk 2) uid p grant s))"
    for grant using assms(2) by (simp add: submission_insert_Inr)
  show ?thesis
    by (simp add: create_job_def submission_check_def ins detail expected_job_def Let_def
        split: option.split)
qed

lemma queued_user: "user_exists queued_db 2"
  by code_simp

lemma queued_room:
  "\<not> lim_inflight (effective_limits queued_db (at 60 0) 2) \<le> int (inflight queued_db 2)"
  by code_simp

theorem create_job_functional_witness:
  "\<exists>d s'. create_job (at 60) 2 (sample_payload 32) queued_db = Inr (Some d, s')
     \<and> jd_case_count d = 2 \<and> j_status (jd_job d) = Queued"
  using create_job_functional [OF queued_reachable queued_user, of "at 60" "sample_payload 32"] queued_room
  by (simp add: sample_payload_def Let_def new_job_def)

section \<open>Completion\<close>

lemma store_cases_rows:
  assumes "distinct (map ca_position rs)"
  shows "t_rows (store_cases i rs t) = map (\<lambda>c. if c_job_id c = i then
       (case find (\<lambda>r. ca_position r = c_position c) rs of None \<Rightarrow> c | Some r \<Rightarrow> finish_case_row r c)
     else c) (t_rows t)"
  using assms
proof (induction i rs t rule: store_cases.induct)
  case (2 i r rs t)
  have absent: "find (\<lambda>q. ca_position q = ca_position r) rs = None"
    unfolding find_None_iff
  proof
    assume "\<exists>x. x \<in> set rs \<and> ca_position x = ca_position r"
    then have "ca_position r \<in> ca_position ` set rs" by (metis image_eqI)
    with 2(2) show False by simp
  qed
  show ?case
    unfolding store_cases.simps using 2
    by (auto simp: finish_case_row_def absent split: option.splits)
qed (simp cong: if_cong)

text \<open>Completion stores every reported case result in the case row of the reported position and
  cancels the cases of the job that were still queued, with a message that tells a failed compile
  from an early end; the job row gets the final status and the compile output; rows of other jobs
  stay as they are.\<close>
theorem finish_job_functional:
  assumes "distinct (map ca_position (ex_cases ex))"
    and "\<forall>r \<in> set (ex_cases ex). terminal (ca_status r)"
  shows "t_rows (jobs (finish_job now i ex s))
      = map (\<lambda>j. if j_id j = i then finish_row now ex j else j) (t_rows (jobs s))
    \<and> t_rows (job_cases (finish_job now i ex s))
      = map (\<lambda>c. if c_job_id c \<noteq> i then c
           else case find (\<lambda>r. ca_position r = c_position c) (ex_cases ex) of
                  Some r \<Rightarrow> finish_case_row r c
                | None \<Rightarrow> if c_status c \<noteq> Queued then c
                    else c\<lparr>c_status := Cancelled,
                           c_stderr := (if cr_status (ex_compile ex) \<noteq> Completed
                             then ''not run because compilation did not complete''
                             else ''submission ended before this case started'')\<rparr>)
          (t_rows (job_cases s))"
proof -
  have "ca_status r \<noteq> Queued" if "find P (ex_cases ex) = Some r" for P r
    using assms(2) find_Some_filter [OF that] by (fastforce simp: TERMINAL_STATES_def)
  then show ?thesis
    by (auto simp: finish_job_def cancel_queued_cases_def store_cases_rows [OF assms(1)]
        finish_case_row_def split: option.splits)
qed

definition sample_result :: execution_result where
  "sample_result =
     \<lparr>ex_status = TimeLimit,
      ex_compile = \<lparr>cr_status = Completed, cr_stdout = [], cr_stderr = [], cr_exit_code = Some 0,
                    cr_wall_time_ms = Some 7, cr_output_truncated = False\<rparr>,
      ex_cases = [\<lparr>ca_position = 1, ca_status = TimeLimit, ca_stdout = ''o'', ca_stderr = [],
                   ca_exit_code = None, ca_term_signal = Some 9, ca_wall_time_ms = Some 1000,
                   ca_peak_memory_kib = None, ca_output_truncated = False\<rparr>]\<rparr>"

theorem finish_job_functional_witness:
  "t_rows (jobs (finish_job 60 1 sample_result claimed_db))
     = map (\<lambda>j. if j_id j = 1 then finish_row 60 sample_result j else j) (t_rows (jobs claimed_db))
   \<and> map (\<lambda>c. (c_job_id c, c_position c, c_status c))
         (t_rows (job_cases (finish_job 60 1 sample_result claimed_db)))
       = [(1, 1, TimeLimit), (1, 2, Cancelled), (2, 1, Queued), (2, 2, Queued), (3, 1, Queued), (3, 2, Queued)]"
proof
  show "t_rows (jobs (finish_job 60 1 sample_result claimed_db))
     = map (\<lambda>j. if j_id j = 1 then finish_row 60 sample_result j else j) (t_rows (jobs claimed_db))"
    using finish_job_functional [of sample_result 60 1 claimed_db]
    by (simp add: sample_result_def TERMINAL_STATES_def)
qed code_simp

section \<open>Cancellation\<close>

lemma select_key:
  assumes "keys_ok j_id (jobs s)" and "j \<in> set (t_rows (jobs s))"
  shows "select_where (\<lambda>q. j_id q = j_id j \<and> Q q) (jobs s) = (if Q j then [j] else [])"
proof -
  from assms(2) obtain xs ys where rows: "t_rows (jobs s) = xs @ j # ys" by (meson split_list)
  from assms(1) have "j_id j \<notin> j_id ` set xs" "j_id j \<notin> j_id ` set ys"
    unfolding keys_ok_def rows by auto
  then have "j_id q \<noteq> j_id j" if "q \<in> set xs \<or> q \<in> set ys" for q
    using that by (metis image_eqI)
  then have "filter (\<lambda>q. j_id q = j_id j \<and> Q q) xs = []" "filter (\<lambda>q. j_id q = j_id j \<and> Q q) ys = []"
    by (auto simp: filter_empty_conv)
  then show ?thesis by (simp add: select_where_def rows)
qed

lemma get_job_job:
  assumes "keys_ok j_id (jobs s)" and "j \<in> set (t_rows (jobs s))"
  shows "map_option jd_job (get_job s (j_id j) (Some uid)) = (if j_user_id j = uid then Some j else None)"
  using select_key [OF assms, of "\<lambda>q. j_user_id q = uid"] by (simp add: get_job_def Let_def)

text \<open>A developer's cancellation. For a job of another user nothing happens and nothing is
  returned; a queued job becomes cancelled together with all its cases; a job in execution is only
  flagged, and the flag is what \<open>is_cancel_requested\<close> reports to the worker; an ended job is left
  alone. In the last three cases the caller gets the resulting row back, and all other jobs are
  untouched.\<close>
theorem cancel_job_functional:
  assumes "reachable s" and "j \<in> set (t_rows (jobs s))" and "cancel_job now (j_id j) uid s = (d, s')"
  shows "(j_user_id j \<noteq> uid \<longrightarrow> d = None \<and> s' = s)
    \<and> (j_user_id j = uid \<longrightarrow>
        (let j' = (if j_status j = Queued then cancel_row now j
                   else if active (j_status j) then j\<lparr>j_cancel_requested := True\<rparr> else j)
         in map_option jd_job d = Some j'
          \<and> t_rows (jobs s') = map (\<lambda>q. if j_id q = j_id j then j' else q) (t_rows (jobs s))
          \<and> (unfinished (j_status j) \<longrightarrow> is_cancel_requested (j_id j) s')
          \<and> t_rows (job_cases s') = map (\<lambda>c. if j_status j = Queued \<and> c_job_id c = j_id j
                then c\<lparr>c_status := Cancelled, c_stderr := ''cancelled by user''\<rparr> else c) (t_rows (job_cases s))))"
proof (cases "j_user_id j = uid")
  case False
  have "select_where (\<lambda>q. j_id q = j_id j \<and> j_user_id q = uid) (jobs s) = []"
    using select_key [OF reachable_keys [OF assms(1)] assms(2), of "\<lambda>q. j_user_id q = uid"] False by simp
  with assms(3) False show ?thesis by (simp add: cancel_job_def)
next
  case True
  define f where "f = (\<lambda>q. if j_status j = Queued then cancel_row now q
      else if active (j_status j) then q\<lparr>j_cancel_requested := True\<rparr> else q)"
  note keys = reachable_keys [OF assms(1)]
  have row: "fetchone (select_where (\<lambda>q. j_id q = j_id j \<and> j_user_id q = uid) (jobs s)) = Some j"
    using select_key [OF keys assms(2), of "\<lambda>q. j_user_id q = uid"] True by simp
  have s': "t_rows (jobs s') = map (\<lambda>q. if j_id q = j_id j then f q else q) (t_rows (jobs s))"
    and d: "d = get_job s' (j_id j) (Some uid)"
    using assms(3) row by (auto simp: cancel_job_def Let_def f_def request_cancel_def cong: if_cong)
  then have rows: "t_rows (jobs s') = map (\<lambda>q. if j_id q = j_id j then f j else q) (t_rows (jobs s))"
    using keys_ok_unique [OF keys _ assms(2)] by auto
  have keys': "keys_ok j_id (jobs s')"
  proof -
    have "reachable s'" using assms(1,3) by (blast intro: reachable.step queue_step.cancel)
    then show ?thesis by (rule reachable_keys)
  qed
  have fj: "f j \<in> set (t_rows (jobs s'))" "j_id (f j) = j_id j" "j_user_id (f j) = uid"
    unfolding rows using assms(2) True by (auto simp: f_def cancel_row_def)
  have "map_option jd_job d = Some (f j)"
    using get_job_job [OF keys' fj(1), of uid] fj(2,3) d by simp
  moreover have "is_cancel_requested (j_id j) s'" if "unfinished (j_status j)"
    using select_key [OF keys' fj(1), of "\<lambda>_. True"] fj(2) that
    by (auto simp: is_cancel_requested_def f_def cancel_row_def unfinished_def active_def)
  moreover have "t_rows (job_cases s') = map (\<lambda>c. if j_status j = Queued \<and> c_job_id c = j_id j
      then c\<lparr>c_status := Cancelled, c_stderr := ''cancelled by user''\<rparr> else c) (t_rows (job_cases s))"
    using assms(3) row by (auto simp: cancel_job_def Let_def request_cancel_def)
  ultimately show ?thesis using True rows by (simp add: Let_def f_def)
qed

theorem cancel_job_functional_witness:
  "map_option jd_job (fst (cancel_job 60 2 1 claimed_db)) = Some (cancel_row 60 (t_rows (jobs claimed_db) ! 1))
   \<and> cancel_job 60 2 2 claimed_db = (None, claimed_db)"
proof
  let ?j = "t_rows (jobs claimed_db) ! 1"
  have j: "1 < length (t_rows (jobs claimed_db))" "j_id ?j = 2" "j_user_id ?j = 1" "j_status ?j = Queued"
    by code_simp+
  note run = cancel_job_functional [OF claimed_reachable nth_mem [OF j(1)] surjective_pairing]
  from run [where now = 60 and uid = 1] j show "map_option jd_job (fst (cancel_job 60 2 1 claimed_db)) = Some (cancel_row 60 ?j)"
    by (simp add: Let_def)
  from run [where now = 60 and uid = 2] j show "cancel_job 60 2 2 claimed_db = (None, claimed_db)"
    by (simp add: prod_eq_iff)
qed

section \<open>Progress, and what blocks it\<close>

text \<open>The scheduler is work-conserving. A claim returns nothing and changes nothing exactly when no
  job is eligible, unless the chosen job's grant died, in which case the claim cancels that job.\<close>
theorem claim_progress:
  assumes "reachable s" and "claim_next_job clk s = (r, s')"
  shows "((\<forall>j \<in> set (t_rows (jobs s)). \<not> is_eligible s (clk 0) j) \<longrightarrow> r = None \<and> s' = s)
    \<and> ((\<exists>j \<in> set (t_rows (jobs s)). is_eligible s (clk 0) j) \<longrightarrow>
        r \<noteq> None
        \<or> (\<exists>row \<in> set (t_rows (jobs s)). is_eligible s (clk 0) row \<and> j_grant_id row \<noteq> None
              \<and> (\<forall>g \<in> set (t_rows (quota_grants s)). Some (g_id g) = j_grant_id row \<longrightarrow> \<not> live_grant (clk 1) g)
              \<and> s' = cancel_expired (clk 2) (j_id row) s))"
proof (cases "next_candidate s (clk 0)")
  case None
  with assms(2) show ?thesis using next_candidate_None [of s "clk 0"] by (simp add: claim_next_job_def)
next
  case (Some row)
  note row = next_candidate_eligible [OF Some]
  have keys: "keys_ok j_id (jobs s)" "keys_ok g_id (quota_grants s)"
    using reachable_inv [OF assms(1)] by (simp_all add: queue_inv_defs)
  have one: "rowcount (\<lambda>j. j_id j = j_id row \<and> j_status j = Queued) (jobs s) = 1"
    using rowcount_key [OF keys(1) row(1) refl, of "\<lambda>j. j_status j = Queued"] row(2)
    by (simp add: is_eligible_def)
  show ?thesis
  proof (cases r)
    case (Some c)
    with row show ?thesis by auto
  next
    case none: None
    with one Some assms(2) obtain gid where gid: "j_grant_id row = Some gid"
        "rowcount (\<lambda>g. g_id g = gid \<and> live_grant (clk 1) g) (quota_grants s) \<noteq> 1"
        "s' = cancel_expired (clk 2) (j_id row) s"
      by (auto simp: claim_next_job_def start_job_def Let_def split: option.splits if_splits)
    have "\<not> live_grant (clk 1) g" if "g \<in> set (t_rows (quota_grants s))" "g_id g = gid" for g
      using rowcount_key [OF keys(2) that, of "live_grant (clk 1)"] gid(2) by auto
    with gid row show ?thesis by auto
  qed
qed

theorem claim_progress_witness:
  "fst (claim_next_job (at 40) queued_db) \<noteq> None"
proof -
  let ?j = "t_rows (jobs queued_db) ! 0"
  have j: "0 < length (t_rows (jobs queued_db))" "is_eligible queued_db (at 40 0) ?j"
      "\<forall>j \<in> set (t_rows (jobs queued_db)). j_grant_id j = None"
    by code_simp+
  from nth_mem [OF j(1)] j(2) have "\<exists>j \<in> set (t_rows (jobs queued_db)). is_eligible queued_db (at 40 0) j"
    by blast
  with claim_progress [OF queued_reachable surjective_pairing, of "at 40"] j(3)
  show ?thesis by auto
qed

text \<open>A job above 256 MiB whose grant has died (expired, used up, or withdrawn) is invisible to the
  scheduler: a claim neither starts it nor cancels it, so it stays queued and keeps counting as in
  flight. The branch that cancels such jobs is never reached for them, because the scheduling query
  already compares them with the base ceiling.\<close>
theorem dead_grant_job_starves:
  assumes "reachable s" and "j \<in> set (t_rows (jobs s))" and "j_status j = Queued"
    and "j_memory_limit_mib j > 256"
    and "\<forall>g \<in> set (t_rows (quota_grants s)). j_grant_id j = Some (g_id g) \<longrightarrow> \<not> live_grant (clk 0) g"
    and "claim_next_job clk s = (r, s')"
  shows "j \<in> set (t_rows (jobs s')) \<and> (\<forall>c. r = Some c \<longrightarrow> j_id (cj_job c) \<noteq> j_id j)"
proof -
  have inv: "queue_inv s" using assms(1) by (rule reachable_inv)
  then have "0 \<le> active_memory s (j_user_id j)"
    unfolding active_memory_def
    by (intro sum_list_nonneg) (auto simp: queue_inv_defs job_ok_def select_where_def)
  moreover have "select_where (\<lambda>g. j_grant_id j = Some (g_id g) \<and> live_grant (clk 0) g) (quota_grants s) = []"
    using assms(5) by (auto simp: select_where_def filter_empty_conv)
  ultimately have not: "\<not> is_eligible s (clk 0) j"
    using assms(4) by (simp add: is_eligible_def claim_ceiling_def MAX_USER_RUNNING_MEMORY_MIB_def)
  have other: "j_id row \<noteq> j_id j" if "next_candidate s (clk 0) = Some row" for row
    using next_candidate_eligible [OF that] not keys_ok_unique [OF reachable_keys [OF assms(1)] _ assms(2)]
    by blast
  from assms(6) show ?thesis
  proof (cases rule: claim_cases)
    case (expired row gid)
    have "j \<in> set (t_rows (jobs (cancel_expired (clk 2) (j_id row) s)))"
      using assms(2) other [OF expired(1)] by (force simp: cancel_expired_def)
    with expired show ?thesis by simp
  next
    case (started row c)
    have "j \<in> set (t_rows (jobs s'))"
      using assms(2) other [OF started(1)] by (force simp: started(6))
    with started other show ?thesis by simp
  qed (use assms in simp)
qed

text \<open>The grant of one hour expires; the job of 512 MiB is still there after the claim.\<close>

theorem dead_grant_job_starves_witness:
  "t_rows (jobs granted_db) ! 0 \<in> set (t_rows (jobs (snd (claim_next_job (at 4000000000) granted_db))))
   \<and> j_status (t_rows (jobs granted_db) ! 0) = Queued"
proof -
  let ?j = "t_rows (jobs granted_db) ! 0"
  have j: "0 < length (t_rows (jobs granted_db))" "j_status ?j = Queued" "j_memory_limit_mib ?j > 256"
      "\<forall>g \<in> set (t_rows (quota_grants granted_db)). \<not> live_grant (at 4000000000 0) g"
    by code_simp+
  from dead_grant_job_starves [OF granted_reachable nth_mem [OF j(1)] j(2,3) _ surjective_pairing] j(2,4)
  show ?thesis by blast
qed

lemma inflight_insert:
  "inflight (snd (insert_job now uid p grant s)) uid = Suc (inflight s uid)"
  by (simp add: inflight_def rowcount_def queue_simps new_job_def unfinished_def)

text \<open>The in-flight check and the insertion it guards are not one transaction. When two submissions
  of a user with one free place are both checked before either is inserted, both succeed, and the
  user is above the limit.\<close>
theorem submission_race:
  assumes "int (inflight s uid) + 1 = lim_inflight (effective_limits s (clk 0) uid)"
    and "user_exists s uid"
    and "submission_check clk uid p s = Inr grant" and "submission_check clk' uid p' s = Inr grant'"
  shows "\<exists>d s1 d' s2. submission_insert clk uid p grant s = Inr (d, s1)
    \<and> submission_insert clk' uid p' grant' s1 = Inr (d', s2)
    \<and> int (inflight s2 uid) = lim_inflight (effective_limits s (clk 0) uid) + 1"
proof -
  let ?s1 = "snd (insert_job (clk 2) uid p grant s)"
  have "user_exists ?s1 uid" using assms(2) by (simp add: user_exists_def queue_simps)
  moreover have "inflight (snd (insert_job (clk' 2) uid p' grant' ?s1)) uid = inflight s uid + 2"
    by (simp add: inflight_insert)
  ultimately show ?thesis using assms(1,2)
    by (intro exI conjI) (auto simp: submission_insert_Inr intro!: exI)
qed

definition busy_db :: db where
  "busy_db = (three_jobs [])\<lparr>jobs :=
     \<lparr>t_rows = map (\<lambda>i. sample_job i 1 32 i Queued None) [1, 2, 3, 4], t_seq = 4\<rparr>\<rparr>"

theorem submission_race_witness:
  "\<exists>d s1 d' s2. submission_insert (at 50) 1 (sample_payload 32) None busy_db = Inr (d, s1)
     \<and> submission_insert (at 50) 1 (sample_payload 32) None s1 = Inr (d', s2)
     \<and> int (inflight s2 1) = MAX_USER_INFLIGHT + 1"
proof -
  have facts: "int (inflight busy_db 1) + 1 = lim_inflight (effective_limits busy_db (at 50 0) 1)"
      "user_exists busy_db 1"
      "submission_check (at 50) 1 (sample_payload 32) busy_db = Inr None"
      "lim_inflight (effective_limits busy_db (at 50 0) 1) = MAX_USER_INFLIGHT"
    by code_simp+
  from submission_race [OF facts(1-3,3)] show ?thesis unfolding facts(4) .
qed

end
