(* ===== verification/Uuid.thy ===== *)
theory Uuid
  imports Prelude
begin

text \<open>
  The identity check the program repeats at every boundary: \<open>str(uuid.UUID(value)) != value\<close>
  (\<open>broker._canonical_uuid\<close>, \<open>workspace_image._canonical_uuid\<close>, \<open>CgroupManager._owner\<close>,
  \<open>GatewayUser\<close>, \<open>developer_from_public_id\<close>, \<open>create_developer\<close>). The standard library's parser is
  modelled as it is, with the spellings it tolerates (\<open>urn:uuid:\<close>, braces, misplaced dashes, upper
  case, underscores, blanks, a sign, \<open>0x\<close>); the theorem is that comparing with the printed form
  leaves exactly the canonical shape.
\<close>

section \<open>int(text, 16)\<close>

definition hex_val :: "char \<Rightarrow> nat option" where
  "hex_val c =
     (let n = of_char c :: nat
      in if 48 \<le> n \<and> n \<le> 57 then Some (n - 48)
         else if 97 \<le> n \<and> n \<le> 102 then Some (n - 87)
         else if 65 \<le> n \<and> n \<le> 70 then Some (n - 55)
         else None)"

text \<open>Digits with single underscores between them.\<close>

fun int16_digits :: "nat \<Rightarrow> string \<Rightarrow> nat option" where
  "int16_digits acc [] = Some acc"
| "int16_digits acc (c # cs) =
     (case hex_val c of
        Some v \<Rightarrow> int16_digits (16 * acc + v) cs
      | None \<Rightarrow>
          if c = CHR ''_'' then
            (case cs of
               [] \<Rightarrow> None
             | d # ds \<Rightarrow>
                 (case hex_val d of None \<Rightarrow> None | Some v \<Rightarrow> int16_digits (16 * acc + v) ds))
          else None)"

definition int16_unsigned :: "string \<Rightarrow> nat option" where
  "int16_unsigned s =
     (let prefixed = starts_with s ''0x'' \<or> starts_with s ''0X'';
          body = (if prefixed then drop 2 s else s);
          body = (if prefixed \<and> starts_with body ''_'' then tl body else body)
      in case body of
           [] \<Rightarrow> None
         | c # cs \<Rightarrow> (case hex_val c of None \<Rightarrow> None | Some v \<Rightarrow> int16_digits v cs))"

definition parse_int16 :: "string \<Rightarrow> int option" where
  "parse_int16 s =
     (case strip s of
        [] \<Rightarrow> None
      | c # cs \<Rightarrow>
          if c = CHR ''-'' then map_option (\<lambda>n. - int n) (int16_unsigned cs)
          else if c = CHR ''+'' then map_option int (int16_unsigned cs)
          else map_option int (int16_unsigned (c # cs)))"

section \<open>uuid.UUID and its printed form\<close>

definition uuid_parse :: "string \<Rightarrow> nat option" where
  "uuid_parse value =
     (let h = remove_all ''uuid:'' (remove_all ''urn:'' value);
          brace = (\<lambda>c. c = CHR 0x7B \<or> c = CHR 0x7D);
          h = remove_all ''-'' (rstrip_by brace (dropWhile brace h))
      in if length h \<noteq> 32 then None
         else case parse_int16 h of
                None \<Rightarrow> None
              | Some i \<Rightarrow> if 0 \<le> i \<and> i < 2 ^ 128 then Some (nat i) else None)"

definition hex_char :: "nat \<Rightarrow> char" where
  "hex_char d = ''0123456789abcdef'' ! d"

text \<open>\<open>"%0wx" % n\<close> for a number of at most \<open>w\<close> digits.\<close>

fun hex_fixed :: "nat \<Rightarrow> nat \<Rightarrow> string" where
  "hex_fixed 0 n = []"
| "hex_fixed (Suc w) n = hex_fixed w (n div 16) @ [hex_char (n mod 16)]"

definition uuid_str :: "nat \<Rightarrow> string" where
  "uuid_str n =
     (let h = hex_fixed 32 n
      in join_on CHR ''-''
           [take 8 h, take 4 (drop 8 h), take 4 (drop 12 h), take 4 (drop 16 h), drop 20 h])"

definition canonical_uuid :: "string \<Rightarrow> bool" where
  "canonical_uuid value \<longleftrightarrow>
     (case uuid_parse value of None \<Rightarrow> False | Some n \<Rightarrow> uuid_str n = value)"

text \<open>The call sites that raise; the text is the one of \<open>broker._canonical_uuid\<close> and of
  \<open>workspace_image._canonical_uuid\<close>.\<close>

definition require_uuid :: "string \<Rightarrow> string \<Rightarrow> string result" where
  "require_uuid message value =
     (if canonical_uuid value then Inr value else Inl (ValueError message))"

section \<open>The canonical shape\<close>

definition lower_hex :: "char \<Rightarrow> bool" where
  "lower_hex c \<longleftrightarrow> c \<in> set ''0123456789abcdef''"

definition canonical_shape :: "string \<Rightarrow> bool" where
  "canonical_shape value \<longleftrightarrow>
     map length (split_on CHR ''-'' value) = [8, 4, 4, 4, 12]
     \<and> (\<forall>c \<in> set value. c = CHR ''-'' \<or> lower_hex c)"

lemma hex_char_lower: "d < 16 \<Longrightarrow> lower_hex (hex_char d)"
  unfolding lower_hex_def hex_char_def by (rule nth_mem) simp

lemma hex_fixed_length [simp]: "length (hex_fixed w n) = w"
  by (induction w arbitrary: n) auto

lemma hex_fixed_lower: "c \<in> set (hex_fixed w n) \<Longrightarrow> lower_hex c"
  by (induction w arbitrary: n) (auto intro: hex_char_lower)

lemma dash_not_hex: "\<not> lower_hex CHR ''-''"
  by (simp add: lower_hex_def)

lemma lower_hex_val:
  assumes "lower_hex c"
  shows "\<exists>v. hex_val c = Some v \<and> v < 16 \<and> hex_char v = c"
  using assms by (auto simp: lower_hex_def hex_val_def hex_char_def)

lemma lower_hex_plain:
  assumes "lower_hex c"
  shows "\<not> is_py_space c" and "c \<noteq> CHR ''-''" and "c \<noteq> CHR ''+''" and "c \<noteq> CHR ''x''"
    and "c \<noteq> CHR ''X''" and "c \<noteq> CHR ''u''" and "c \<noteq> CHR 0x7B" and "c \<noteq> CHR 0x7D"
  using assms by (auto simp: lower_hex_def is_py_space_def)

text \<open>Reading lower-case digits inverts printing them.\<close>

lemma int16_digits_snoc:
  assumes "\<forall>c \<in> set s. lower_hex c" and "hex_val d = Some v"
  shows "int16_digits acc (s @ [d]) = map_option (\<lambda>n. 16 * n + v) (int16_digits acc s)"
  using assms
proof (induction s arbitrary: acc)
  case (Cons c s)
  then show ?case using lower_hex_val [of c] by auto
qed simp

lemma int16_digits_hex:
  assumes "\<forall>c \<in> set s. lower_hex c"
  shows "\<exists>n. int16_digits 0 s = Some n \<and> n < 16 ^ length s \<and> hex_fixed (length s) n = s"
  using assms
proof (induction s rule: rev_induct)
  case (snoc d s)
  then obtain n where n: "int16_digits 0 s = Some n" "n < 16 ^ length s" "hex_fixed (length s) n = s"
    by auto
  obtain v where v: "hex_val d = Some v" "v < 16" "hex_char v = d"
    using lower_hex_val snoc.prems by fastforce
  have "int16_digits 0 (s @ [d]) = Some (16 * n + v)"
    using int16_digits_snoc [of s d v 0] snoc.prems v(1) n(1) by simp
  moreover have "16 * n + v < 16 ^ length (s @ [d])" using n(2) v(2) by simp
  moreover have "hex_fixed (length (s @ [d])) (16 * n + v) = s @ [d]" using n(3) v by simp
  ultimately show ?case by blast
qed simp

lemma parse_int16_hex:
  assumes "\<forall>c \<in> set s. lower_hex c" and "s \<noteq> []"
  shows "parse_int16 s = map_option int (int16_digits 0 s)"
proof -
  obtain c cs where s: "s = c # cs" using assms(2) by (cases s) auto
  have "dropWhile is_py_space s = s" using s assms(1) lower_hex_plain(1) by simp
  moreover have "rstrip_by is_py_space s = s"
    using assms lower_hex_plain(1) unfolding rstrip_by_def
    by (cases s rule: rev_cases) auto
  ultimately have "strip s = c # cs" by (simp add: strip_def s)
  moreover have "c \<noteq> CHR ''-''" "c \<noteq> CHR ''+''"
    using assms(1) s lower_hex_plain by auto
  moreover have "int16_unsigned (c # cs) = int16_digits 0 (c # cs)"
  proof -
    obtain v where "hex_val c = Some v" using lower_hex_val assms(1) s by fastforce
    moreover have "\<not> starts_with (c # cs) ''0x'' \<and> \<not> starts_with (c # cs) ''0X''"
      using assms(1) s lower_hex_plain(4,5) by (cases cs) auto
    ultimately show ?thesis by (auto simp: int16_unsigned_def Let_def)
  qed
  ultimately show ?thesis unfolding parse_int16_def s by simp
qed

lemma split_five:
  assumes "map length ws = [8, 4, 4, 4, 12::nat]"
  shows "\<exists>a b c d e. ws = [a, b, c, d, e] \<and> length a = 8 \<and> length b = 4 \<and> length c = 4
    \<and> length d = 4 \<and> length e = 12"
  using assms by (auto simp: map_eq_Cons_conv)

lemma canonical_shape_uuid_str: "canonical_shape (uuid_str n)"
proof -
  let ?h = "hex_fixed 32 n"
  let ?ws = "[take 8 ?h, take 4 (drop 8 ?h), take 4 (drop 12 ?h), take 4 (drop 16 ?h), drop 20 ?h]"
  have hexes: "\<forall>c \<in> set w. lower_hex c" if "w \<in> set ?ws" for w
    using that hex_fixed_lower [of _ 32 n] by (auto dest!: in_set_takeD in_set_dropD)
  then have "split_on CHR ''-'' (join_on CHR ''-'' ?ws) = ?ws"
    using dash_not_hex by (intro split_join_on) blast+
  moreover have "\<forall>c \<in> set (join_on CHR ''-'' ?ws). c = CHR ''-'' \<or> lower_hex c"
    using hexes by auto
  ultimately show ?thesis unfolding canonical_shape_def uuid_str_def Let_def by simp
qed

lemma canonical_shape_parse:
  assumes "canonical_shape value"
  shows "\<exists>n. uuid_parse value = Some n \<and> uuid_str n = value"
proof -
  obtain a b c d e where ws: "split_on CHR ''-'' value = [a, b, c, d, e]"
    and len: "length a = 8" "length b = 4" "length c = 4" "length d = 4" "length e = 12"
    using assms split_five unfolding canonical_shape_def by metis
  have v: "value = join_on CHR ''-'' [a, b, c, d, e]"
    unfolding ws [symmetric] by simp
  let ?h = "a @ b @ c @ d @ e"
  have "CHR ''-'' \<notin> set w" if "w \<in> set [a, b, c, d, e]" for w
    using that unfolding ws [symmetric] by (rule split_on_parts)
  then have no_dash: "CHR ''-'' \<notin> set ?h" by auto
  have chars: "x = CHR ''-'' \<or> lower_hex x" if "x \<in> set value" for x
    using that assms unfolding canonical_shape_def by simp
  have h_sub: "set ?h \<subseteq> set value" unfolding v by auto
  have hexes: "\<forall>x \<in> set ?h. lower_hex x"
  proof
    fix x assume x: "x \<in> set ?h"
    from subsetD [OF h_sub x] have "x = CHR ''-'' \<or> lower_hex x" by (rule chars)
    with x no_dash show "lower_hex x" by metis
  qed
  have plain: "x \<noteq> CHR ''u'' \<and> x \<noteq> CHR 0x7B \<and> x \<noteq> CHR 0x7D" if "x \<in> set value" for x
    using chars [OF that] lower_hex_plain(6-8) [of x] by auto
  have urn: "remove_all ''urn:'' value = value" "remove_all ''uuid:'' value = value"
    using plain by (auto intro!: remove_all_absent)
  let ?brace = "\<lambda>c. c = CHR 0x7B \<or> c = CHR 0x7D"
  have "dropWhile ?brace value = value" using plain by (cases "value") auto
  moreover have "rstrip_by ?brace value = value"
    using plain unfolding rstrip_by_def by (cases "value" rule: rev_cases) auto
  moreover have "remove_all ''-'' value = ?h"
    unfolding remove_all_char v using no_dash by (simp add: filter_absent)
  ultimately have p: "uuid_parse value =
      (case parse_int16 ?h of None \<Rightarrow> None
       | Some i \<Rightarrow> if 0 \<le> i \<and> i < 2 ^ 128 then Some (nat i) else None)"
    unfolding uuid_parse_def Let_def urn using len by simp
  obtain n where n: "int16_digits 0 ?h = Some n" "n < 16 ^ 32" "hex_fixed 32 n = ?h"
    using int16_digits_hex [OF hexes] len by auto
  have "?h \<noteq> []" using len(1) by auto
  then have "parse_int16 ?h = Some (int n)" using parse_int16_hex [OF hexes] n(1) by simp
  moreover have "int n < 2 ^ 128" using n(2) by simp
  ultimately have "uuid_parse value = Some n" unfolding p by simp
  moreover have "uuid_str n = value"
    unfolding uuid_str_def n(3) v using len by simp
  ultimately show ?thesis by blast
qed

lemma canonical_uuid_shape: "canonical_uuid value \<Longrightarrow> canonical_shape value"
  using canonical_shape_uuid_str by (auto simp: canonical_uuid_def split: option.splits)

lemma canonical_shape_uuid: "canonical_shape value \<Longrightarrow> canonical_uuid value"
  using canonical_shape_parse by (fastforce simp: canonical_uuid_def)

text \<open>C31: comparing a value with the printed form of its parse accepts exactly the canonical
  spelling, eight, four, four, four and twelve lower-case hexadecimal digits separated by dashes,
  whatever other spellings the parser itself tolerates. So an accepted identity contains no
  slash, dot or blank, and is safe as a path component.\<close>

theorem canonical_uuid_iff:
  "canonical_uuid value \<longleftrightarrow> canonical_shape value"
  by (blast intro: canonical_uuid_shape canonical_shape_uuid)

lemma canonical_uuid_chars:
  assumes "canonical_uuid value" and "c \<in> set value"
  shows "c = CHR ''-'' \<or> lower_hex c"
  using assms canonical_uuid_shape unfolding canonical_shape_def by blast

lemma canonical_uuid_length:
  assumes "canonical_uuid value"
  shows "length value = 36"
proof -
  from canonical_uuid_shape [OF assms] obtain a b c d e where ws: "split_on CHR ''-'' value = [a, b, c, d, e]"
    and len: "length a = 8" "length b = 4" "length c = 4" "length d = 4" "length e = 12"
    using split_five unfolding canonical_shape_def by metis
  have "value = join_on CHR ''-'' [a, b, c, d, e]" unfolding ws [symmetric] by simp
  with len show ?thesis by simp
qed

end
