(* ===== verification/Db_Accounts.thy ===== *)
theory Db_Accounts
  imports Db_Schema Uuid
begin

text \<open>
  Users, sessions, login throttling, the header policy, the extension catalog and the audit log of
  \<open>database.py\<close>. The password hash (Argon2, \<open>security.py\<close>) and the token digest are
  parameters \<open>hash_password\<close> and \<open>token_hash\<close>; random values (public ids, tokens) are arguments. A
  violated UNIQUE, CHECK or foreign-key constraint is the \<open>IntegrityError\<close> of the statement, and
  the transaction of the operation is rolled back.
\<close>

section \<open>Users\<close>

text \<open>SQL's UNIQUE on a nullable column: NULLs are distinct.\<close>

definition unique_violation :: "user_row \<Rightarrow> user_row list \<Rightarrow> string option" where
  "unique_violation u others =
     (if \<exists>q \<in> set others. u_public_id q = u_public_id u
        then Some ''UNIQUE constraint failed: users.public_id''
      else if \<exists>q \<in> set others. u_username q = u_username u
        then Some ''UNIQUE constraint failed: users.username''
      else if u_api_token_hash u \<noteq> None \<and> (\<exists>q \<in> set others. u_api_token_hash q = u_api_token_hash u)
        then Some ''UNIQUE constraint failed: users.api_token_hash''
      else None)"

definition insert_user :: "user_row \<Rightarrow> db \<Rightarrow> (int \<times> db) result" where
  "insert_user u s =
     (case unique_violation u (t_rows (users s)) of
        Some message \<Rightarrow> Inl (IntegrityError message)
      | None \<Rightarrow>
          let (uid, us) = insert_row (\<lambda>i. u_id_update (\<lambda>_. i)) u (users s)
          in Inr (uid, s\<lparr>users := us\<rparr>))"

text \<open>\<open>UPDATE users SET ... WHERE id=?\<close> (at most one row), with the unique constraints.\<close>

definition update_user_row :: "int \<Rightarrow> (user_row \<Rightarrow> user_row) \<Rightarrow> db \<Rightarrow> db result" where
  "update_user_row uid f s =
     (let others = select_where (\<lambda>u. u_id u \<noteq> uid) (users s)
      in case List.map_filter (\<lambda>u. unique_violation (f u) others) (select_where (\<lambda>u. u_id u = uid) (users s)) of
           message # _ \<Rightarrow> Inl (IntegrityError message)
         | [] \<Rightarrow> Inr (s\<lparr>users := update_where (\<lambda>u. u_id u = uid) f (users s)\<rparr>))"

definition get_user :: "db \<Rightarrow> int \<Rightarrow> user_row option" where
  "get_user s uid = fetchone (select_where (\<lambda>u. u_id u = uid) (users s))"

definition get_user_by_public_id :: "db \<Rightarrow> string \<Rightarrow> user_row option" where
  "get_user_by_public_id s pid = fetchone (select_where (\<lambda>u. u_public_id u = pid) (users s))"

definition get_user_by_username :: "db \<Rightarrow> string \<Rightarrow> user_row option" where
  "get_user_by_username s name = fetchone (select_where (\<lambda>u. u_username u = name) (users s))"

definition get_user_by_api_token :: "(string \<Rightarrow> string) \<Rightarrow> db \<Rightarrow> string \<Rightarrow> user_row option" where
  "get_user_by_api_token token_hash s encoded =
     fetchone (select_where
       (\<lambda>u. u_api_token_hash u = Some (token_hash encoded) \<and> u_status u = Active) (users s))"

definition list_developers :: "db \<Rightarrow> user_row list" where
  "list_developers s = sort_key u_id (select_where (\<lambda>u. u_role u = Developer) (users s))"

definition create_admin ::
    "(string \<Rightarrow> string) \<Rightarrow> string \<Rightarrow> stamp \<Rightarrow> string \<Rightarrow> string \<Rightarrow> db \<Rightarrow> (user_row option \<times> db) result" where
  "create_admin hash_password fresh now username password s =
     bind_result
       (insert_user
         \<lparr>u_id = 0, u_public_id = fresh, u_username = username, u_role = Admin,
          u_password_hash = hash_password password, u_api_token_hash = None, u_status = Active,
          u_workspace_path = None, u_workspace_quota_mib = 1024, u_created_at = now,
          u_last_login_at = None\<rparr> s)
       (\<lambda>(_, s'). Inr (get_user_by_username s' username, s'))"

definition create_developer ::
    "(string \<Rightarrow> string) \<Rightarrow> (string \<Rightarrow> string) \<Rightarrow> string \<Rightarrow> stamp \<Rightarrow> string \<Rightarrow> string \<Rightarrow> string \<Rightarrow> string
     \<Rightarrow> string option \<Rightarrow> db \<Rightarrow> (user_row option \<times> db) result" where
  "create_developer hash_password token_hash fresh now username password api_token workspace_path public_id s =
     (let pid = (case public_id of None \<Rightarrow> fresh | Some v \<Rightarrow> if v = [] then fresh else v)
      in bind_result (require_uuid ''public_id must be a canonical lowercase UUID'' pid) (\<lambda>_.
         bind_result
           (insert_user
             \<lparr>u_id = 0, u_public_id = pid, u_username = username, u_role = Developer,
              u_password_hash = hash_password password,
              u_api_token_hash = Some (token_hash api_token), u_status = Active,
              u_workspace_path = Some workspace_path,
              u_workspace_quota_mib = DEFAULT_WORKSPACE_QUOTA_MIB, u_created_at = now,
              u_last_login_at = None\<rparr> s)
           (\<lambda>(uid, s'). Inr (get_user s' uid, s'))))"

definition delete_user_sessions :: "int \<Rightarrow> db \<Rightarrow> db" where
  "delete_user_sessions uid s = s\<lparr>sessions := delete_where (\<lambda>x. s_user_id x = uid) (sessions s)\<rparr>"

definition is_developer :: "db \<Rightarrow> int \<Rightarrow> bool" where
  "is_developer s uid \<longleftrightarrow> select_where (\<lambda>u. u_id u = uid \<and> u_role u = Developer) (users s) \<noteq> []"

text \<open>\<open>if v is not None: UPDATE users SET ... WHERE id=?\<close>.\<close>

definition update_optional :: "int \<Rightarrow> ('a \<Rightarrow> user_row \<Rightarrow> user_row) \<Rightarrow> 'a option \<Rightarrow> db \<Rightarrow> db result" where
  "update_optional uid f v s =
     (case v of None \<Rightarrow> Inr s | Some x \<Rightarrow> update_user_row uid (f x) s)"

definition update_developer ::
    "(string \<Rightarrow> string) \<Rightarrow> int \<Rightarrow> string option \<Rightarrow> user_status option \<Rightarrow> string option \<Rightarrow> db
     \<Rightarrow> (user_row option \<times> db) result" where
  "update_developer hash_password uid username status password s =
     (if \<not> is_developer s uid then Inr (None, s)
      else
        bind_result (update_optional uid (\<lambda>x. u_username_update (\<lambda>_. x)) username s) (\<lambda>s.
        bind_result (update_optional uid (\<lambda>x. u_status_update (\<lambda>_. x)) status s) (\<lambda>s.
        bind_result
          (update_optional uid (\<lambda>x. u_password_hash_update (\<lambda>_. hash_password x)) password s) (\<lambda>s.
        let s' = (if status = Some Disabled \<or> password \<noteq> None then delete_user_sessions uid s else s)
        in Inr (get_user s' uid, s')))))"

definition rotate_developer_token ::
    "(string \<Rightarrow> string) \<Rightarrow> int \<Rightarrow> string \<Rightarrow> db \<Rightarrow> (user_row option \<times> db) result" where
  "rotate_developer_token token_hash uid encoded s =
     (if \<not> is_developer s uid then Inr (None, s)
      else
        bind_result (update_user_row uid (\<lambda>u. u\<lparr>u_api_token_hash := Some (token_hash encoded)\<rparr>) s)
          (\<lambda>s'. Inr (get_user s' uid, s')))"

text \<open>
  \<open>DELETE FROM users\<close>: sessions and grants of the user go with it (ON DELETE CASCADE); any other
  row that still names a deleted row makes the statement fail.
\<close>

definition delete_user_cascade :: "int \<Rightarrow> db \<Rightarrow> db result" where
  "delete_user_cascade uid s =
     (let s' = s\<lparr>users := delete_where (\<lambda>u. u_id u = uid) (users s),
                 sessions := delete_where (\<lambda>x. s_user_id x = uid) (sessions s),
                 quota_grants := delete_where (\<lambda>g. g_user_id g = uid) (quota_grants s)\<rparr>;
          gone = map g_id (select_where (\<lambda>g. g_user_id g = uid) (quota_grants s))
      in if (\<exists>j \<in> set (t_rows (jobs s)).
               j_user_id j = uid \<or> (\<exists>i \<in> set gone. j_grant_id j = Some i))
            \<or> (\<exists>g \<in> set (t_rows (quota_grants s')). g_created_by g = uid)
            \<or> (\<exists>r \<in> set (t_rows (extension_requests s)). r_user_id r = uid \<or> r_decided_by r = Some uid)
            \<or> (\<exists>a \<in> set (t_rows (audit_log s)). a_actor_user_id a = Some uid)
         then Inl (IntegrityError ''FOREIGN KEY constraint failed'')
         else Inr s')"

definition delete_unconfigured_developer :: "int \<Rightarrow> string \<Rightarrow> db \<Rightarrow> db result" where
  "delete_unconfigured_developer uid pid s =
     (if select_where (\<lambda>u. u_id u = uid \<and> u_public_id u = pid \<and> u_role u = Developer) (users s) = []
      then Inl (RuntimeError ''unable to roll back failed developer bootstrap'')
      else delete_user_cascade uid s)"

section \<open>Sessions\<close>

definition revoke_session_token :: "(string \<Rightarrow> string) \<Rightarrow> string \<Rightarrow> db \<Rightarrow> bool \<times> db" where
  "revoke_session_token token_hash encoded s =
     (let P = (\<lambda>x. s_token_hash x = token_hash encoded)
      in (rowcount P (sessions s) = 1, s\<lparr>sessions := delete_where P (sessions s)\<rparr>))"

definition revoke_user_sessions :: "int \<Rightarrow> db \<Rightarrow> nat option \<times> db" where
  "revoke_user_sessions uid s =
     (if \<not> is_developer s uid then (None, s)
      else (Some (rowcount (\<lambda>x. s_user_id x = uid) (sessions s)), delete_user_sessions uid s))"

text \<open>\<open>create_session\<close> with its default lifetime; the clock is read for the expiry (0), for
  \<open>created_at\<close> (1) and for \<open>last_login_at\<close> (2).\<close>

definition session_ttl :: stamp where
  "session_ttl = 12 * 3600 * 1000000"

definition create_session ::
    "(string \<Rightarrow> string) \<Rightarrow> (nat \<Rightarrow> stamp) \<Rightarrow> int \<Rightarrow> string \<Rightarrow> string \<Rightarrow> db \<Rightarrow> db result" where
  "create_session token_hash clk uid token csrf s =
     (if find (\<lambda>u. u_id u = uid) (t_rows (users s)) = None
        then Inl (IntegrityError ''FOREIGN KEY constraint failed'')
      else if rowcount (\<lambda>x. s_token_hash x = token_hash token) (sessions s) \<noteq> 0
        then Inl (IntegrityError ''UNIQUE constraint failed: sessions.token_hash'')
      else
        Inr (s\<lparr>sessions := snd (insert_row (\<lambda>i. s_id_update (\<lambda>_. i))
                 \<lparr>s_id = 0, s_user_id = uid, s_token_hash = token_hash token, s_csrf_token = csrf,
                  s_expires_at = clk 0 + session_ttl, s_created_at = clk 1\<rparr> (sessions s)),
               users := update_where (\<lambda>u. u_id u = uid) (\<lambda>u. u\<lparr>u_last_login_at := Some (clk 2)\<rparr>) (users s)\<rparr>))"

text \<open>\<open>sessions s JOIN users u ON u.id=s.user_id\<close>, the session rows in rowid order.\<close>

definition session_join :: "db \<Rightarrow> (session_row \<times> user_row) list" where
  "session_join s =
     concat (map (\<lambda>x. map (Pair x) (select_where (\<lambda>u. u_id u = s_user_id x) (users s))) (t_rows (sessions s)))"

definition get_session_user ::
    "(string \<Rightarrow> string) \<Rightarrow> stamp \<Rightarrow> string \<Rightarrow> db \<Rightarrow> (user_row \<times> string) option" where
  "get_session_user token_hash now token s =
     map_option (\<lambda>(x, u). (u, s_csrf_token x))
       (fetchone (filter
         (\<lambda>(x, u). s_token_hash x = token_hash token \<and> s_expires_at x > now \<and> u_status u = Active)
         (session_join s)))"

section \<open>Login throttling\<close>

definition second :: stamp where "second = 1000000"
definition login_window :: stamp where "login_window = 15 * 60 * second"

definition failure_key :: "string \<Rightarrow> string \<Rightarrow> string \<Rightarrow> login_failure_row \<Rightarrow> bool" where
  "failure_key scope username source l \<longleftrightarrow>
     l_scope l = scope \<and> l_username l = username \<and> l_source l = source"

definition failure_row :: "db \<Rightarrow> string \<Rightarrow> string \<Rightarrow> string \<Rightarrow> login_failure_row option" where
  "failure_row s scope username source = find (failure_key scope username source) (login_failures s)"

text \<open>\<open>int(x)\<close> truncates toward zero; \<open>x % 1\<close> is nonzero when \<open>x\<close> seconds is not whole.\<close>

definition whole_seconds :: "stamp \<Rightarrow> int" where
  "whole_seconds d = (if 0 \<le> d then d div second else - (- d div second))"

definition login_retry_after :: "stamp \<Rightarrow> string \<Rightarrow> string \<Rightarrow> string \<Rightarrow> db \<Rightarrow> int" where
  "login_retry_after now scope username source s =
     (case failure_row s scope username source of
        None \<Rightarrow> 0
      | Some l \<Rightarrow>
          (case l_blocked_until l of
             None \<Rightarrow> 0
           | Some until \<Rightarrow>
               let remaining = until - now
               in max 0 (whole_seconds remaining + (if remaining mod second \<noteq> 0 then 1 else 0))))"

text \<open>\<open>INSERT ... ON CONFLICT(scope,username,source) DO UPDATE\<close>.\<close>

fun upsert_failure :: "login_failure_row \<Rightarrow> login_failure_row list \<Rightarrow> login_failure_row list" where
  "upsert_failure l [] = [l]"
| "upsert_failure l (q # qs) =
     (if failure_key (l_scope l) (l_username l) (l_source l) q then l # qs
      else q # upsert_failure l qs)"

definition next_failure :: "stamp \<Rightarrow> string \<Rightarrow> string \<Rightarrow> string \<Rightarrow> login_failure_row option \<Rightarrow> login_failure_row" where
  "next_failure now scope username source row =
     (let (failures, first) =
        (case row of
           None \<Rightarrow> (1, now)
         | Some l \<Rightarrow>
             if now - l_first_failed_at l \<ge> login_window then (1, now)
             else (l_failures l + 1, l_first_failed_at l))
      in \<lparr>l_scope = scope, l_username = username, l_source = source, l_failures = failures,
          l_first_failed_at = first,
          l_blocked_until = (if failures \<ge> 5 then Some (now + login_window) else None)\<rparr>)"

definition record_login_failure :: "stamp \<Rightarrow> string \<Rightarrow> string \<Rightarrow> string \<Rightarrow> db \<Rightarrow> db" where
  "record_login_failure now scope username source s =
     s\<lparr>login_failures :=
         upsert_failure (next_failure now scope username source (failure_row s scope username source))
           (login_failures s)\<rparr>"

definition clear_login_failures :: "string \<Rightarrow> string \<Rightarrow> string \<Rightarrow> db \<Rightarrow> db" where
  "clear_login_failures scope username source s =
     s\<lparr>login_failures := filter (\<lambda>l. \<not> failure_key scope username source l) (login_failures s)\<rparr>"

section \<open>Header policy\<close>

definition enabled_headers :: "db \<Rightarrow> string set" where
  "enabled_headers s = set (map h_name (filter h_enabled (header_policy s)))"

definition list_headers :: "db \<Rightarrow> (string \<times> bool \<times> bool) list" where
  "list_headers s =
     map (\<lambda>h. (h_name h, h_enabled h, h_builtin h)) (sort_key h_name (header_policy s))"

fun upsert_header :: "stamp \<Rightarrow> string \<Rightarrow> bool \<Rightarrow> header_row list \<Rightarrow> header_row list" where
  "upsert_header now name enabled [] =
     [\<lparr>h_name = name, h_enabled = enabled, h_builtin = False, h_updated_at = now\<rparr>]"
| "upsert_header now name enabled (h # hs) =
     (if h_name h = name then h\<lparr>h_enabled := enabled, h_updated_at := now\<rparr> # hs
      else h # upsert_header now name enabled hs)"

definition set_header :: "stamp \<Rightarrow> string \<Rightarrow> bool \<Rightarrow> db \<Rightarrow> (string \<times> bool) \<times> db" where
  "set_header now name enabled s =
     ((name, enabled), s\<lparr>header_policy := upsert_header now name enabled (header_policy s)\<rparr>)"

text \<open>\<open>INSERT OR IGNORE\<close> of the default headers, in sorted order.\<close>

fun insert_or_ignore :: "stamp \<Rightarrow> string list \<Rightarrow> header_row list \<Rightarrow> header_row list" where
  "insert_or_ignore now [] hs = hs"
| "insert_or_ignore now (n # ns) hs =
     insert_or_ignore now ns
       (if n \<in> set (map h_name hs) then hs
        else hs @ [\<lparr>h_name = n, h_enabled = True, h_builtin = True, h_updated_at = now\<rparr>])"

definition DEFAULT_HEADERS :: "string list" where
  "DEFAULT_HEADERS =
     [''algorithm'', ''array'', ''bitset'', ''cassert'', ''cctype'', ''cerrno'', ''cfenv'',
      ''cfloat'', ''chrono'', ''cinttypes'', ''climits'', ''cmath'', ''complex'',
      ''concepts'', ''condition_variable'', ''csetjmp'', ''csignal'', ''cstdarg'',
      ''cstddef'', ''cstdint'', ''cstdio'', ''cstdlib'', ''cstring'', ''ctime'', ''deque'',
      ''exception'', ''filesystem'', ''forward_list'', ''fstream'', ''functional'',
      ''future'', ''initializer_list'', ''iomanip'', ''ios'', ''iosfwd'', ''iostream'',
      ''istream'', ''iterator'', ''limits'', ''list'', ''map'', ''memory'', ''mutex'',
      ''new'', ''numeric'', ''optional'', ''ostream'', ''queue'', ''random'', ''ranges'',
      ''ratio'', ''regex'', ''set'', ''shared_mutex'', ''span'', ''sstream'', ''stack'',
      ''stdexcept'', ''streambuf'', ''string'', ''string_view'', ''tuple'',
      ''type_traits'', ''typeindex'', ''typeinfo'', ''unordered_map'', ''unordered_set'',
      ''utility'', ''valarray'', ''variant'', ''vector'', ''bits/stdc++.h'']"

text \<open>The part of \<open>initialize\<close> that is not DDL or the migration of databases without public ids.\<close>

definition initialize_headers :: "stamp \<Rightarrow> db \<Rightarrow> db" where
  "initialize_headers now s =
     s\<lparr>header_policy := insert_or_ignore now (sort DEFAULT_HEADERS) (header_policy s)\<rparr>"

section \<open>Extensions and audit\<close>

definition create_extension ::
    "stamp \<Rightarrow> string \<Rightarrow> string \<Rightarrow> string \<Rightarrow> db \<Rightarrow> (catalog_row \<times> db) result" where
  "create_extension now extension_id version sha256 s =
     (if length sha256 \<noteq> 64 then Inl (IntegrityError ''CHECK constraint failed: length(sha256)=64'')
      else if \<exists>x \<in> set (t_rows (extension_catalog s)). x_extension_id x = extension_id \<and> x_version x = version
        then Inl (IntegrityError ''UNIQUE constraint failed: extension_catalog.extension_id, extension_catalog.version'')
      else
        let row = \<lparr>x_id = 0, x_extension_id = extension_id, x_version = version, x_sha256 = sha256,
                   x_enabled = True, x_created_at = now\<rparr>;
            (i, t) = insert_row (\<lambda>i. x_id_update (\<lambda>_. i)) row (extension_catalog s)
        in Inr (row\<lparr>x_id := i\<rparr>, s\<lparr>extension_catalog := t\<rparr>))"

definition list_extensions :: "db \<Rightarrow> catalog_row list" where
  "list_extensions s =
     sort_key (\<lambda>x. (x_extension_id x, x_version x)) (select_where x_enabled (extension_catalog s))"

text \<open>\<open>UNIQUE(user_id,catalog_id,status)\<close>.\<close>

definition request_clash :: "int \<Rightarrow> int \<Rightarrow> request_status \<Rightarrow> ext_request_row \<Rightarrow> bool" where
  "request_clash uid cid st r \<longleftrightarrow> r_user_id r = uid \<and> r_catalog_id r = cid \<and> r_status r = st"

definition request_extension :: "stamp \<Rightarrow> int \<Rightarrow> int \<Rightarrow> db \<Rightarrow> (ext_request_row \<times> db) result" where
  "request_extension now uid cid s =
     (if select_where (\<lambda>x. x_id x = cid \<and> x_enabled x) (extension_catalog s) = []
        then Inl (LookupError ''extension not in approved catalog'')
      else if find (\<lambda>u. u_id u = uid) (t_rows (users s)) = None
        then Inl (IntegrityError ''FOREIGN KEY constraint failed'')
      else if \<exists>r \<in> set (t_rows (extension_requests s)). request_clash uid cid Pending r
        then Inl (IntegrityError ''UNIQUE constraint failed: extension_requests'')
      else
        let row = \<lparr>r_id = 0, r_user_id = uid, r_catalog_id = cid, r_status = Pending, r_scope = None,
                   r_created_at = now, r_decided_at = None, r_decided_by = None\<rparr>;
            (i, t) = insert_row (\<lambda>i. r_id_update (\<lambda>_. i)) row (extension_requests s)
        in Inr (row\<lparr>r_id := i\<rparr>, s\<lparr>extension_requests := t\<rparr>))"

definition decide_extension_request ::
    "stamp \<Rightarrow> int \<Rightarrow> int \<Rightarrow> string \<Rightarrow> db \<Rightarrow> (ext_request_row option \<times> db) result" where
  "decide_extension_request now request_id admin_id scope s =
     (let P = (\<lambda>r. r_id r = request_id \<and> r_status r = Pending);
          f = (\<lambda>r. r\<lparr>r_status := Approved, r_scope := Some scope, r_decided_at := Some now,
                     r_decided_by := Some admin_id\<rparr>)
      in case select_where P (extension_requests s) of
           [] \<Rightarrow> Inr (None, s)
         | r # _ \<Rightarrow>
             if scope \<noteq> ''user'' \<and> scope \<noteq> ''global''
               then Inl (IntegrityError ''CHECK constraint failed: scope'')
             else if find (\<lambda>u. u_id u = admin_id) (t_rows (users s)) = None
               then Inl (IntegrityError ''FOREIGN KEY constraint failed'')
             else if \<exists>q \<in> set (t_rows (extension_requests s)).
                    request_clash (r_user_id r) (r_catalog_id r) Approved q
               then Inl (IntegrityError ''UNIQUE constraint failed: extension_requests'')
             else
               Inr (Some (f r), s\<lparr>extension_requests := update_where P f (extension_requests s)\<rparr>))"

definition list_extension_requests :: "db \<Rightarrow> (ext_request_row \<times> string \<times> string \<times> string) list" where
  "list_extension_requests s =
     sort_key (\<lambda>(r, _). - r_created_at r)
       (concat (map (\<lambda>r. concat (map (\<lambda>u. map (\<lambda>x. (r, u_username u, x_extension_id x, x_version x))
            (select_where (\<lambda>x. x_id x = r_catalog_id r) (extension_catalog s)))
          (select_where (\<lambda>u. u_id u = r_user_id r) (users s))))
        (t_rows (extension_requests s))))"

definition audit ::
    "stamp \<Rightarrow> int option \<Rightarrow> string \<Rightarrow> string option \<Rightarrow> string option \<Rightarrow> details
     \<Rightarrow> db \<Rightarrow> db result" where
  "audit now actor action target_type target_id details s =
     (if (case actor of None \<Rightarrow> False | Some uid \<Rightarrow> find (\<lambda>u. u_id u = uid) (t_rows (users s)) = None)
      then Inl (IntegrityError ''FOREIGN KEY constraint failed'')
      else Inr (s\<lparr>audit_log := snd (insert_row (\<lambda>i. a_id_update (\<lambda>_. i))
             \<lparr>a_id = 0, a_actor_user_id = actor, a_action = action, a_target_type = target_type,
              a_target_id = target_id, a_details = details, a_created_at = now\<rparr> (audit_log s))\<rparr>))"

definition list_audit :: "db \<Rightarrow> audit_row list" where
  "list_audit s = take 500 (sort_key (\<lambda>a. - a_id a) (t_rows (audit_log s)))"

end
