(* ===== verification/Account_Invariant.thy ===== *)
theory Account_Invariant
  imports Db_Accounts
begin

text \<open>
  The constraints of the account tables as an invariant of every operation of \<open>Db_Accounts\<close>: unique
  public ids, usernames, API tokens and session tokens, canonical public ids of developers, no
  dangling session, one throttling row per key and one policy row per header.
\<close>

section \<open>Uniqueness\<close>

definition clash_free :: "user_row \<Rightarrow> user_row \<Rightarrow> bool" where
  "clash_free a b \<longleftrightarrow> u_public_id a \<noteq> u_public_id b \<and> u_username a \<noteq> u_username b
     \<and> (u_api_token_hash a \<noteq> None \<longrightarrow> u_api_token_hash a \<noteq> u_api_token_hash b)"

definition users_inv :: "user_row table \<Rightarrow> bool" where
  "users_inv t \<longleftrightarrow> keys_ok u_id t
     \<and> (\<forall>a \<in> set (t_rows t). \<forall>b \<in> set (t_rows t). u_id a \<noteq> u_id b \<longrightarrow> clash_free a b)
     \<and> (\<forall>a \<in> set (t_rows t). u_role a = Developer \<longrightarrow> canonical_uuid (u_public_id a))"

lemma clash_free_sym: "clash_free a b \<Longrightarrow> clash_free b a"
  by (auto simp: clash_free_def)

lemma unique_violation_None:
  "unique_violation u others = None \<longleftrightarrow> (\<forall>q \<in> set others. clash_free u q)"
proof
  assume "unique_violation u others = None"
  then have "\<not> (\<exists>q \<in> set others. u_public_id q = u_public_id u)"
      "\<not> (\<exists>q \<in> set others. u_username q = u_username u)"
      "\<not> (u_api_token_hash u \<noteq> None \<and> (\<exists>q \<in> set others. u_api_token_hash q = u_api_token_hash u))"
    unfolding unique_violation_def by (metis option.distinct(1))+
  then show "\<forall>q \<in> set others. clash_free u q" unfolding clash_free_def by metis
next
  assume "\<forall>q \<in> set others. clash_free u q"
  then show "unique_violation u others = None" by (auto simp: unique_violation_def clash_free_def)
qed

lemma insert_user_Inr:
  "insert_user u s = Inr (uid, s') \<longleftrightarrow>
     unique_violation u (t_rows (users s)) = None \<and> uid = t_seq (users s) + 1
     \<and> s' = s\<lparr>users := snd (insert_row (\<lambda>i. u_id_update (\<lambda>_. i)) u (users s))\<rparr>"
  by (auto simp: insert_user_def insert_row_def Let_def split: option.splits)

lemma insert_user_inv:
  assumes "users_inv t" and "unique_violation u (t_rows t) = None"
    and "u_role u = Developer \<Longrightarrow> canonical_uuid (u_public_id u)"
  shows "users_inv (snd (insert_row (\<lambda>i. u_id_update (\<lambda>_. i)) u t))"
proof -
  let ?new = "u\<lparr>u_id := t_seq t + 1\<rparr>"
  have "clash_free ?new q" "clash_free q ?new" if "q \<in> set (t_rows t)" for q
    using assms(2) that unfolding unique_violation_None by (auto simp: clash_free_def)
  then show ?thesis
    using assms user_key.insert_keys_ok [of t u] by (auto simp: users_inv_def)
qed

lemma update_user_Inr:
  assumes "update_user_row uid f s = Inr s'" and "\<And>u. u_id (f u) = u_id u"
    and "users_inv (users s)" and "\<And>u. u_role (f u) = u_role u \<and> u_public_id (f u) = u_public_id u"
  shows "s' = s\<lparr>users := update_where (\<lambda>u. u_id u = uid) f (users s)\<rparr>" and "users_inv (users s')"
proof -
  from assms(1) have none: "unique_violation (f u) (select_where (\<lambda>u. u_id u \<noteq> uid) (users s)) = None"
    if "u \<in> set (t_rows (users s))" "u_id u = uid" for u
    using that by (auto simp: update_user_row_def Let_def select_where_def map_filter_Nil
        split: list.splits)
  show s': "s' = s\<lparr>users := update_where (\<lambda>u. u_id u = uid) f (users s)\<rparr>"
    using assms(1) by (auto simp: update_user_row_def Let_def split: list.splits)
  have "clash_free (f u) q" "clash_free q (f u)"
    if "u \<in> set (t_rows (users s))" "u_id u = uid" "q \<in> set (t_rows (users s))" "u_id q \<noteq> uid" for u q
    using none [OF that(1,2)] that(3,4) unfolding unique_violation_None
    by (auto simp: select_where_def intro: clash_free_sym)
  then show "users_inv (users s')"
    using assms(2,3,4) unfolding s' users_inv_def in_update_where
    by (auto intro: keys_ok_update)
qed

lemma users_inv_keep:
  assumes "users_inv t"
    and "\<And>u. u_id (f u) = u_id u \<and> u_public_id (f u) = u_public_id u \<and> u_username (f u) = u_username u
      \<and> u_api_token_hash (f u) = u_api_token_hash u \<and> u_role (f u) = u_role u"
  shows "users_inv (update_where P f t)"
proof -
  have "clash_free (f a) b = clash_free a b" "clash_free a (f b) = clash_free a b" for a b
    using assms(2) by (simp_all add: clash_free_def)
  then show ?thesis
    using assms unfolding users_inv_def in_update_where by (auto intro: keys_ok_update)
qed

section \<open>The transitions\<close>

text \<open>
  One step on the account tables, with \<open>hp\<close> the password hash and \<open>th\<close> the token digest. The public
  id drawn for an administrator is arbitrary; that of a developer is checked by the code. \<open>other\<close> is
  every operation on the job, extension and audit tables.
\<close>

inductive account_step :: "(string \<Rightarrow> string) \<Rightarrow> (string \<Rightarrow> string) \<Rightarrow> db \<Rightarrow> db \<Rightarrow> bool" for hp th where
  admin: "create_admin hp fresh now name pw s = Inr (u, s') \<Longrightarrow> account_step hp th s s'"
| developer: "create_developer hp th fresh now name pw tok path pid s = Inr (u, s') \<Longrightarrow> account_step hp th s s'"
| update: "update_developer hp uid name st pw s = Inr (u, s') \<Longrightarrow> account_step hp th s s'"
| rotate: "rotate_developer_token th uid tok s = Inr (u, s') \<Longrightarrow> account_step hp th s s'"
| delete: "delete_unconfigured_developer uid pid s = Inr s' \<Longrightarrow> account_step hp th s s'"
| login: "create_session th clk uid tok csrf s = Inr s' \<Longrightarrow> account_step hp th s s'"
| logout: "account_step hp th s (snd (revoke_session_token th tok s))"
| revoke: "account_step hp th s (snd (revoke_user_sessions uid s))"
| failure: "account_step hp th s (record_login_failure now scope name source s)"
| clear: "account_step hp th s (clear_login_failures scope name source s)"
| header: "account_step hp th s (snd (set_header now h e s))"
| init: "account_step hp th s (initialize_headers now s)"
| other: "users s' = users s \<Longrightarrow> sessions s' = sessions s \<Longrightarrow> login_failures s' = login_failures s
    \<Longrightarrow> header_policy s' = header_policy s \<Longrightarrow> account_step hp th s s'"

section \<open>The invariant\<close>

definition sessions_inv :: "db \<Rightarrow> bool" where
  "sessions_inv s \<longleftrightarrow> keys_ok s_id (sessions s) \<and> distinct (map s_token_hash (t_rows (sessions s)))
     \<and> (\<forall>x \<in> set (t_rows (sessions s)). s_user_id x \<in> u_id ` set (t_rows (users s)))"

definition failure_id :: "login_failure_row \<Rightarrow> string \<times> string \<times> string" where
  "failure_id l = (l_scope l, l_username l, l_source l)"

definition accounts_inv :: "db \<Rightarrow> bool" where
  "accounts_inv s \<longleftrightarrow> users_inv (users s) \<and> sessions_inv s
     \<and> distinct (map failure_id (login_failures s)) \<and> distinct (map h_name (header_policy s))"

lemma accounts_inv_users:
  assumes "accounts_inv s" and "users_inv us" and "u_id ` set (t_rows (users s)) \<subseteq> u_id ` set (t_rows us)"
  shows "accounts_inv (s\<lparr>users := us\<rparr>)"
  using assms by (auto simp: accounts_inv_def sessions_inv_def)

lemma accounts_inv_delete_sessions:
  assumes "accounts_inv s"
  shows "accounts_inv (s\<lparr>sessions := delete_where P (sessions s)\<rparr>)"
  using assms by (auto simp: accounts_inv_def sessions_inv_def keys_ok_delete distinct_map_filter)

lemma failure_key_id: "failure_key a b c l \<longleftrightarrow> failure_id l = (a, b, c)"
  by (auto simp: failure_key_def failure_id_def)

lemma upsert_failure_ids:
  "set (map failure_id (upsert_failure l ls)) = insert (failure_id l) (set (map failure_id ls))"
  by (induction ls) (auto simp: failure_key_id failure_id_def)

lemma upsert_failure_distinct:
  "distinct (map failure_id ls) \<Longrightarrow> distinct (map failure_id (upsert_failure l ls))"
proof (induction ls)
  case (Cons q qs)
  then show ?case using upsert_failure_ids [of l qs] by (auto simp: failure_key_id failure_id_def)
qed simp

lemma upsert_header_names:
  "set (map h_name (upsert_header now n e hs)) = insert n (set (map h_name hs))"
  by (induction hs) auto

lemma upsert_header_distinct:
  "distinct (map h_name hs) \<Longrightarrow> distinct (map h_name (upsert_header now n e hs))"
proof (induction hs)
  case (Cons h hs)
  then show ?case using upsert_header_names [of now n e hs] by auto
qed simp

lemma insert_or_ignore_distinct:
  "distinct (map h_name hs) \<Longrightarrow> distinct (map h_name (insert_or_ignore now ns hs))"
  by (induction now ns hs rule: insert_or_ignore.induct) auto

lemma update_row_inv:
  assumes "update_user_row uid f s = Inr s'" and "accounts_inv s"
    and "\<And>u. u_id (f u) = u_id u \<and> u_role (f u) = u_role u \<and> u_public_id (f u) = u_public_id u"
  shows "accounts_inv s'"
proof -
  have users: "users_inv (users s)" using assms(2) by (simp add: accounts_inv_def)
  note upd = update_user_Inr [OF assms(1) _ users]
  have s': "s' = s\<lparr>users := update_where (\<lambda>u. u_id u = uid) f (users s)\<rparr>"
    by (rule upd(1)) (use assms(3) in auto)
  have "users_inv (users s')" by (rule upd(2)) (use assms(3) in auto)
  then have "users_inv (update_where (\<lambda>u. u_id u = uid) f (users s))" by (simp add: s')
  then show ?thesis
    unfolding s' by (rule accounts_inv_users [OF assms(2)]) (use assms(3) key_image_update [of u_id f] in simp)
qed

lemma insert_row_inv:
  assumes "insert_user u s = Inr (uid, s')" and "accounts_inv s"
    and "u_role u = Developer \<Longrightarrow> canonical_uuid (u_public_id u)"
  shows "accounts_inv s'"
proof -
  have "users_inv (snd (insert_row (\<lambda>i. u_id_update (\<lambda>_. i)) u (users s)))"
    using assms insert_user_inv by (auto simp: insert_user_Inr accounts_inv_def)
  then show ?thesis
    using assms(1) by (auto simp: insert_user_Inr intro!: accounts_inv_users [OF assms(2)])
qed

lemma create_developer_Inr:
  assumes "create_developer hp th fresh now name pw tok path pid s = Inr (u, s')"
  obtains row uid where "insert_user row s = Inr (uid, s')" and "u = get_user s' uid"
    and "canonical_uuid (u_public_id row)" and "u_role row = Developer" and "u_username row = name"
    and "u_status row = Active" and "u_api_token_hash row = Some (th tok)"
  using assms unfolding create_developer_def Let_def require_uuid_def
  by (auto split: if_splits option.splits)

lemma update_user_row_Inr:
  "update_user_row uid f s = Inr s' \<Longrightarrow> s' = s\<lparr>users := update_where (\<lambda>u. u_id u = uid) f (users s)\<rparr>"
  by (auto simp: update_user_row_def Let_def split: list.splits)

lemma update_optional_Inr:
  "update_optional uid f v s = Inr s' \<longleftrightarrow>
     (v = None \<and> s' = s \<or> (\<exists>x. v = Some x \<and> update_user_row uid (f x) s = Inr s'))"
  by (auto simp: update_optional_def split: option.splits)

lemma update_developer_Inr:
  assumes "update_developer hp uid name st pw s = Inr (u, s')" and "is_developer s uid"
  obtains s1 s2 s3 where "update_optional uid (\<lambda>x. u_username_update (\<lambda>_. x)) name s = Inr s1"
    and "update_optional uid (\<lambda>x. u_status_update (\<lambda>_. x)) st s1 = Inr s2"
    and "update_optional uid (\<lambda>x. u_password_hash_update (\<lambda>_. hp x)) pw s2 = Inr s3"
    and "s' = (if st = Some Disabled \<or> pw \<noteq> None then delete_user_sessions uid s3 else s3)"
    and "u = get_user s' uid"
proof -
  let ?fin = "\<lambda>s3. if st = Some Disabled \<or> pw \<noteq> None then delete_user_sessions uid s3 else s3"
  from assms obtain s1 s2 s3 where run:
    "update_optional uid (\<lambda>x. u_username_update (\<lambda>_. x)) name s = Inr s1"
    "update_optional uid (\<lambda>x. u_status_update (\<lambda>_. x)) st s1 = Inr s2"
    "update_optional uid (\<lambda>x. u_password_hash_update (\<lambda>_. hp x)) pw s2 = Inr s3"
    "get_user (?fin s3) uid = u" "?fin s3 = s'"
    unfolding update_developer_def Let_def by (simp split del: if_split) blast
  show ?thesis by (rule that [OF run(1-3) run(5) [symmetric] run(4) [unfolded run(5), symmetric]])
qed

lemma update_optional_inv:
  assumes "update_optional uid f v s = Inr s'" and "accounts_inv s"
    and "\<And>x u. u_id (f x u) = u_id u \<and> u_role (f x u) = u_role u \<and> u_public_id (f x u) = u_public_id u"
  shows "accounts_inv s'"
  using assms update_row_inv by (fastforce simp: update_optional_Inr)

lemma update_developer_inv:
  assumes "update_developer hp uid name st pw s = Inr (u, s')" and "accounts_inv s"
  shows "accounts_inv s'"
proof (cases "is_developer s uid")
  case True
  from assms(1) this obtain s1 s2 s3 where
    run: "update_optional uid (\<lambda>x. u_username_update (\<lambda>_. x)) name s = Inr s1"
      "update_optional uid (\<lambda>x. u_status_update (\<lambda>_. x)) st s1 = Inr s2"
      "update_optional uid (\<lambda>x. u_password_hash_update (\<lambda>_. hp x)) pw s2 = Inr s3"
    and s': "s' = (if st = Some Disabled \<or> pw \<noteq> None then delete_user_sessions uid s3 else s3)"
    by (rule update_developer_Inr)
  from run(1) assms(2) have "accounts_inv s1" by (rule update_optional_inv) simp
  with run(2) have "accounts_inv s2" by (rule update_optional_inv) simp
  with run(3) have "accounts_inv s3" by (rule update_optional_inv) simp
  then show ?thesis by (simp add: s' delete_user_sessions_def accounts_inv_delete_sessions)
qed (use assms in \<open>simp add: update_developer_def\<close>)

lemma delete_user_inv:
  assumes "delete_user_cascade uid s = Inr s'" and "accounts_inv s"
  shows "accounts_inv s'"
proof -
  have s': "users s' = delete_where (\<lambda>u. u_id u = uid) (users s)"
      "sessions s' = delete_where (\<lambda>x. s_user_id x = uid) (sessions s)"
      "login_failures s' = login_failures s" "header_policy s' = header_policy s"
    using assms(1) by (auto simp: delete_user_cascade_def Let_def split: if_splits)
  from assms(2) show ?thesis
    by (auto simp: accounts_inv_def sessions_inv_def users_inv_def s' keys_ok_delete distinct_map_filter)
qed

theorem account_step_inv: "account_step hp th s s' \<Longrightarrow> accounts_inv s \<Longrightarrow> accounts_inv s'"
proof (induction rule: account_step.induct)
  case (admin fresh now name pw s u s')
  then show ?case by (auto simp: create_admin_def intro: insert_row_inv)
next
  case (developer fresh now name pw tok path pid s u s')
  from developer(1) show ?case
    by (rule create_developer_Inr) (use developer(2) insert_row_inv in blast)
next
  case (update uid name st pw s u s')
  then show ?case by (rule update_developer_inv)
next
  case (rotate uid tok s u s')
  then show ?case by (auto simp: rotate_developer_token_def dest!: update_row_inv split: if_splits)
next
  case (delete uid pid s s')
  then show ?case by (auto simp: delete_unconfigured_developer_def intro: delete_user_inv split: if_splits)
next
  case (login clk uid tok csrf s s')
  let ?new = "\<lparr>s_id = 0, s_user_id = uid, s_token_hash = th tok, s_csrf_token = csrf,
      s_expires_at = clk 0 + session_ttl, s_created_at = clk 1\<rparr>"
  from login(1) have fresh: "th tok \<notin> s_token_hash ` set (t_rows (sessions s))"
    and user: "uid \<in> u_id ` set (t_rows (users s))"
    and s': "s' = s\<lparr>sessions := snd (insert_row (\<lambda>i. s_id_update (\<lambda>_. i)) ?new (sessions s)),
        users := update_where (\<lambda>u. u_id u = uid) (\<lambda>u. u\<lparr>u_last_login_at := Some (clk 2)\<rparr>) (users s)\<rparr>"
    by (auto simp: create_session_def rowcount_def filter_empty_conv find_None_iff split: if_splits)
  have ids: "u_id ` set (t_rows (users s')) = u_id ` set (t_rows (users s))"
    unfolding s' using key_image_update [of u_id "\<lambda>u. u\<lparr>u_last_login_at := Some (clk 2)\<rparr>"] by simp
  have "users_inv (users s')"
    using login(2) by (auto simp: s' accounts_inv_def intro: users_inv_keep)
  moreover have "sessions_inv s'"
    using login(2) fresh user session_key.insert_keys_ok [of "sessions s" ?new]
    unfolding sessions_inv_def ids by (auto simp: s' accounts_inv_def sessions_inv_def)
  ultimately show ?case using login(2) by (simp add: accounts_inv_def s')
next
  case (logout s tok)
  then show ?case by (simp add: revoke_session_token_def Let_def accounts_inv_delete_sessions)
next
  case (revoke s uid)
  then show ?case by (simp add: revoke_user_sessions_def delete_user_sessions_def accounts_inv_delete_sessions)
next
  case (failure s now scope name source)
  then show ?case
    by (simp add: accounts_inv_def sessions_inv_def record_login_failure_def upsert_failure_distinct)
next
  case (clear s scope name source)
  then show ?case
    by (simp add: accounts_inv_def sessions_inv_def clear_login_failures_def distinct_map_filter)
next
  case (header s now h e)
  then show ?case by (simp add: accounts_inv_def sessions_inv_def set_header_def upsert_header_distinct)
next
  case (init s now)
  then show ?case by (simp add: accounts_inv_def sessions_inv_def initialize_headers_def insert_or_ignore_distinct)
qed (simp add: accounts_inv_def sessions_inv_def)

end
