(* ===== verification/Account_Properties.thy ===== *)
theory Account_Properties
  imports Account_Invariant
begin

text \<open>
  What the account operations guarantee: who a session or API token authenticates and for how long,
  what disabling an account and rotating a token revoke, how login failures block, what the header
  policy contains, that a failed bootstrap is undone, and the approval that fails with a constraint
  error.
\<close>

section \<open>A sample database\<close>

definition root_user :: user_row where
  "root_user =
     \<lparr>u_id = 1, u_public_id = ''r'', u_username = ''r'', u_role = Admin, u_password_hash = ''h'',
      u_api_token_hash = None, u_status = Active, u_workspace_path = None,
      u_workspace_quota_mib = 1024, u_created_at = 0, u_last_login_at = None\<rparr>"

definition zero_uuid :: string where
  "zero_uuid = ''00000000-0000-0000-0000-000000000000''"

definition dev_user :: user_row where
  "dev_user = root_user\<lparr>u_id := 2, u_public_id := zero_uuid, u_username := ''d'', u_role := Developer,
     u_api_token_hash := Some ''t''\<rparr>"

definition accounts_db :: db where
  "accounts_db = empty_db\<lparr>users := \<lparr>t_rows = [root_user, dev_user], t_seq = 2\<rparr>,
     sessions := \<lparr>t_rows = [\<lparr>s_id = 1, s_user_id = 2, s_token_hash = ''k'', s_csrf_token = ''c'',
       s_expires_at = 100, s_created_at = 0\<rparr>], t_seq = 1\<rparr>\<rparr>"

lemma zero_uuid_canonical: "canonical_uuid zero_uuid"
  by (rule canonical_shape_uuid) code_simp

lemma accounts_db_inv: "accounts_inv accounts_db"
  using zero_uuid_canonical
  by (simp add: accounts_inv_def users_inv_def sessions_inv_def accounts_db_def dev_user_def
      root_user_def empty_db_def keys_ok_def clash_free_def zero_uuid_def)

section \<open>Authentication\<close>

lemma in_session_join:
  "(x, u) \<in> set (session_join s) \<longleftrightarrow>
     x \<in> set (t_rows (sessions s)) \<and> u \<in> set (t_rows (users s)) \<and> u_id u = s_user_id x"
  by (auto simp: session_join_def select_where_def)

lemma accounts_inv_unique:
  assumes "accounts_inv s"
  shows "u \<in> set (t_rows (users s)) \<Longrightarrow> v \<in> set (t_rows (users s)) \<Longrightarrow> u_id u = u_id v \<Longrightarrow> u = v"
    and "x \<in> set (t_rows (sessions s)) \<Longrightarrow> y \<in> set (t_rows (sessions s)) \<Longrightarrow>
      s_token_hash x = s_token_hash y \<Longrightarrow> x = y"
  using assms keys_ok_unique [of u_id "users s"]
  by (auto simp: accounts_inv_def users_inv_def sessions_inv_def distinct_map dest: inj_onD)

lemma get_session_user_iff:
  assumes "accounts_inv s"
  shows "get_session_user th now tok s = Some (u, csrf) \<longleftrightarrow>
    (\<exists>x \<in> set (t_rows (sessions s)). u \<in> set (t_rows (users s)) \<and> u_id u = s_user_id x
       \<and> s_token_hash x = th tok \<and> s_expires_at x > now \<and> u_status u = Active \<and> csrf = s_csrf_token x)"
proof
  assume "get_session_user th now tok s = Some (u, csrf)"
  then show "\<exists>x \<in> set (t_rows (sessions s)). u \<in> set (t_rows (users s)) \<and> u_id u = s_user_id x
       \<and> s_token_hash x = th tok \<and> s_expires_at x > now \<and> u_status u = Active \<and> csrf = s_csrf_token x"
    by (auto simp: get_session_user_def in_session_join dest!: fetchone_in)
next
  let ?P = "\<lambda>(x, u). s_token_hash x = th tok \<and> s_expires_at x > now \<and> u_status u = Active"
  assume "\<exists>x \<in> set (t_rows (sessions s)). u \<in> set (t_rows (users s)) \<and> u_id u = s_user_id x
       \<and> s_token_hash x = th tok \<and> s_expires_at x > now \<and> u_status u = Active \<and> csrf = s_csrf_token x"
  then obtain x where x: "(x, u) \<in> set (filter ?P (session_join s))" "csrf = s_csrf_token x"
    by (auto simp: in_session_join)
  then obtain p where p: "fetchone (filter ?P (session_join s)) = Some p"
    by (cases "filter ?P (session_join s)") auto
  obtain y v where pair: "p = (y, v)" by fastforce
  from fetchone_in [OF p] have "(y, v) \<in> set (session_join s)" "?P (y, v)"
    unfolding pair set_filter by blast+
  moreover from x(1) have "(x, u) \<in> set (session_join s)" "?P (x, u)"
    unfolding set_filter by blast+
  ultimately have "y = x" "v = u"
    using accounts_inv_unique [OF assms] unfolding in_session_join prod.case by metis+
  then have "p = (x, u)" using pair by simp
  with p x(2) show "get_session_user th now tok s = Some (u, csrf)" by (simp add: get_session_user_def)
qed

lemma get_session_user_absent:
  "(\<And>x. x \<in> set (t_rows (sessions s)) \<Longrightarrow> s_token_hash x \<noteq> th tok) \<Longrightarrow> get_session_user th now tok s = None"
  by (auto simp: get_session_user_def filter_empty_conv in_session_join)

lemma session_authenticates:
  assumes "accounts_inv s" and "u \<in> set (t_rows (users s))" and "u_status u = Active"
    and "create_session th clk (u_id u) tok csrf s = Inr s'"
  shows "get_session_user th now tok s'
      = (if now < clk 0 + 12 * 60 * 60 * 1000000 then Some (u\<lparr>u_last_login_at := Some (clk 2)\<rparr>, csrf) else None)
    \<and> get_session_user th now tok (snd (revoke_session_token th tok s')) = None"
proof
  let ?new = "\<lparr>s_id = t_seq (sessions s) + 1, s_user_id = u_id u, s_token_hash = th tok, s_csrf_token = csrf,
      s_expires_at = clk 0 + session_ttl, s_created_at = clk 1\<rparr>"
  let ?u = "u\<lparr>u_last_login_at := Some (clk 2)\<rparr>"
  from assms(4) have rows: "t_rows (sessions s') = t_rows (sessions s) @ [?new]"
    and users: "t_rows (users s') = map (\<lambda>q. if u_id q = u_id u then q\<lparr>u_last_login_at := Some (clk 2)\<rparr> else q) (t_rows (users s))"
    by (auto simp: create_session_def split: if_splits)
  have inv: "accounts_inv s'" by (rule account_step_inv [OF account_step.login [OF assms(4)] assms(1)])
  have mem: "?u \<in> set (t_rows (users s'))" "?new \<in> set (t_rows (sessions s'))"
    unfolding users rows using assms(2) by (auto simp: image_iff intro!: bexI [of _ u])
  show "get_session_user th now tok s'
      = (if now < clk 0 + 12 * 60 * 60 * 1000000 then Some (?u, csrf) else None)"
  proof (cases "now < clk 0 + session_ttl")
    case True
    with mem have "\<exists>x \<in> set (t_rows (sessions s')). ?u \<in> set (t_rows (users s')) \<and> u_id ?u = s_user_id x
       \<and> s_token_hash x = th tok \<and> s_expires_at x > now \<and> u_status ?u = Active \<and> csrf = s_csrf_token x"
      using assms(3) by (intro bexI [OF _ mem(2)]) simp
    then have "get_session_user th now tok s' = Some (?u, csrf)"
      unfolding get_session_user_iff [OF inv] .
    with True show ?thesis by (simp add: session_ttl_def)
  next
    case False
    have "get_session_user th now tok s' \<noteq> Some p" for p
    proof (cases p)
      case (Pair v c)
      have "s_expires_at x = clk 0 + session_ttl"
        if "x \<in> set (t_rows (sessions s'))" "s_token_hash x = th tok" for x
        using accounts_inv_unique(2) [OF inv that(1) mem(2)] that(2) by simp
      then show ?thesis unfolding Pair get_session_user_iff [OF inv] using False by auto
    qed
    then have "get_session_user th now tok s' = None" by (cases "get_session_user th now tok s'") auto
    with False show ?thesis by (simp add: session_ttl_def)
  qed
  show "get_session_user th now tok (snd (revoke_session_token th tok s')) = None"
    by (rule get_session_user_absent) (auto simp: revoke_session_token_def Let_def)
qed

text \<open>A login session authenticates exactly its user for exactly twelve hours. After
  \<open>create_session\<close> for an active user, the token yields that user and the CSRF token at every time
  before the expiry and nothing from then on, and after logging out it yields nothing at all.\<close>
theorem session_lifetime:
  assumes "accounts_inv s" and "u \<in> set (t_rows (users s))" and "u_status u = Active"
    and "create_session th clk (u_id u) tok csrf s = Inr s'"
  shows "get_session_user th now tok s'
      = (if now < clk 0 + 12 * 60 * 60 * 1000000 then Some (u\<lparr>u_last_login_at := Some (clk 2)\<rparr>, csrf) else None)
    \<and> get_session_user th now tok (snd (revoke_session_token th tok s')) = None"
  using assms by (rule session_authenticates)

theorem session_lifetime_witness:
  "\<exists>s'. create_session id (\<lambda>_. 7) 2 ''q'' ''x'' accounts_db = Inr s'
     \<and> get_session_user id 8 ''q'' s' = Some (dev_user\<lparr>u_last_login_at := Some 7\<rparr>, ''x'')
     \<and> get_session_user id 43200000007 ''q'' s' = None"
proof -
  obtain s' where s': "create_session id (\<lambda>_. 7) (u_id dev_user) ''q'' ''x'' accounts_db = Inr s'"
    by (simp add: create_session_def accounts_db_def dev_user_def root_user_def rowcount_def)
  have dev: "dev_user \<in> set (t_rows (users accounts_db))" "u_status dev_user = Active" "u_id dev_user = 2"
    by (simp_all add: accounts_db_def dev_user_def root_user_def)
  from session_lifetime [OF accounts_db_inv dev(1,2) s', of 8]
    session_lifetime [OF accounts_db_inv dev(1,2) s', of 43200000007] s' dev(3)
  show ?thesis by auto
qed

lemma update_developer_effect:
  assumes "update_developer hp uid name st pw s = Inr (Some u, s')"
  shows "st = Some Disabled \<or> pw \<noteq> None \<Longrightarrow> \<forall>x \<in> set (t_rows (sessions s')). s_user_id x \<noteq> uid"
    and "st = Some v \<Longrightarrow> \<forall>q \<in> set (t_rows (users s')). u_id q = uid \<longrightarrow> u_status q = v"
proof -
  have "is_developer s uid" using assms by (auto simp: update_developer_def split: if_splits)
  from assms this obtain s1 s2 s3 where
    st: "update_optional uid (\<lambda>x. u_status_update (\<lambda>_. x)) st s1 = Inr s2"
    and pw: "update_optional uid (\<lambda>x. u_password_hash_update (\<lambda>_. hp x)) pw s2 = Inr s3"
    and s': "s' = (if st = Some Disabled \<or> pw \<noteq> None then delete_user_sessions uid s3 else s3)"
    by (rule update_developer_Inr)
  show "st = Some Disabled \<or> pw \<noteq> None \<Longrightarrow> \<forall>x \<in> set (t_rows (sessions s')). s_user_id x \<noteq> uid"
    by (simp add: s' delete_user_sessions_def)
  assume "st = Some v"
  with st have "s2 = s1\<lparr>users := update_where (\<lambda>u. u_id u = uid) (u_status_update (\<lambda>_. v)) (users s1)\<rparr>"
    by (simp add: update_optional_Inr update_user_row_Inr)
  then have two: "users s2 = update_where (\<lambda>u. u_id u = uid) (u_status_update (\<lambda>_. v)) (users s1)"
    by simp
  have set2: "\<forall>q \<in> set (t_rows (users s2)). u_id q = uid \<longrightarrow> u_status q = v"
  proof (intro ballI impI)
    fix q assume "q \<in> set (t_rows (users s2))" and "u_id q = uid"
    then show "u_status q = v" unfolding two by (rule update_where_key) simp_all
  qed
  have "\<forall>q \<in> set (t_rows (users s3)). u_id q = uid \<longrightarrow> u_status q = v"
  proof (cases pw)
    case None
    with pw set2 show ?thesis by (simp add: update_optional_Inr)
  next
    case (Some p)
    with pw have "s3 = s2\<lparr>users := update_where (\<lambda>u. u_id u = uid) (u_password_hash_update (\<lambda>_. hp p)) (users s2)\<rparr>"
      by (simp add: update_optional_Inr update_user_row_Inr)
    then have three: "users s3 = update_where (\<lambda>u. u_id u = uid) (u_password_hash_update (\<lambda>_. hp p)) (users s2)"
      by simp
    show ?thesis
    proof (intro ballI impI)
      fix q assume "q \<in> set (t_rows (users s3))" and "u_id q = uid"
      then show "u_status q = v" unfolding three by (rule update_where_key) (use set2 in simp_all)
    qed
  qed
  then show "\<forall>q \<in> set (t_rows (users s')). u_id q = uid \<longrightarrow> u_status q = v"
    by (simp add: s' delete_user_sessions_def)
qed

text \<open>Disabling a developer locks the account out at once. Right after the update no session of the
  account exists, no session token and no API token authenticates it, at any time; and as long as
  only its status stays disabled no later session would.\<close>
theorem disabled_developer_locked_out:
  assumes "update_developer hp uid name (Some Disabled) pw s = Inr (Some u, s')"
  shows "(\<forall>x \<in> set (t_rows (sessions s')). s_user_id x \<noteq> uid)
    \<and> (\<forall>now tok v csrf. get_session_user th now tok s' = Some (v, csrf) \<longrightarrow> u_id v \<noteq> uid)
    \<and> (\<forall>tok v. get_user_by_api_token th s' tok = Some v \<longrightarrow> u_id v \<noteq> uid)
    \<and> (\<forall>s'' now tok v csrf. users s'' = users s' \<longrightarrow> get_session_user th now tok s'' = Some (v, csrf)
          \<longrightarrow> u_id v \<noteq> uid)"
proof -
  have gone: "\<forall>x \<in> set (t_rows (sessions s')). s_user_id x \<noteq> uid"
    using update_developer_effect(1) [OF assms] by simp
  have "\<forall>q \<in> set (t_rows (users s')). u_id q = uid \<longrightarrow> u_status q = Disabled"
    using update_developer_effect(2) [OF assms refl] .
  then have dis: "u_status q \<noteq> Active" if "q \<in> set (t_rows (users s'))" "u_id q = uid" for q
    using that by auto
  have any: "u_id v \<noteq> uid" if "users s'' = users s'" "get_session_user th now tok s'' = Some (v, csrf)"
    for s'' now tok v csrf
    using that dis by (auto simp: get_session_user_def in_session_join dest!: fetchone_in)
  have "u_id v \<noteq> uid" if "get_user_by_api_token th s' tok = Some v" for tok v
    using that dis by (auto simp: get_user_by_api_token_def select_where_def dest!: fetchone_in)
  with any gone show ?thesis by blast
qed

theorem disabled_developer_locked_out_witness:
  "\<exists>u s'. update_developer id 2 None (Some Disabled) None accounts_db = Inr (Some u, s')
     \<and> get_session_user id 5 ''k'' accounts_db \<noteq> None
     \<and> (\<forall>x \<in> set (t_rows (sessions s')). s_user_id x \<noteq> 2)"
proof -
  have "case update_developer id 2 None (Some Disabled) None accounts_db of
      Inr (Some u, s') \<Rightarrow> True | _ \<Rightarrow> False" by code_simp
  then obtain u s' where run: "update_developer id 2 None (Some Disabled) None accounts_db = Inr (Some u, s')"
    by (auto split: sum.splits option.splits prod.splits)
  have "get_session_user id 5 ''k'' accounts_db \<noteq> None" by code_simp
  with run disabled_developer_locked_out [OF run] show ?thesis by blast
qed

text \<open>Rotating a developer's API token replaces it. The new token authenticates the developer when
  active, and the old one no longer does, unless the two have the same digest.\<close>
theorem rotate_token_replaces:
  assumes "accounts_inv s" and "rotate_developer_token th uid tok s = Inr (Some u, s')"
    and "u_status u = Active"
  shows "get_user_by_api_token th s' tok = Some u \<and> u_id u = uid
    \<and> (\<forall>old v. th old \<noteq> th tok \<longrightarrow> get_user_by_api_token th s' old = Some v \<longrightarrow> u_id v \<noteq> uid)"
proof -
  have inv: "accounts_inv s'" by (rule account_step_inv [OF account_step.rotate [OF assms(2)] assms(1)])
  from assms(2) have s': "users s' = update_where (\<lambda>u. u_id u = uid) (\<lambda>u. u\<lparr>u_api_token_hash := Some (th tok)\<rparr>) (users s)"
    and u: "get_user s' uid = Some u"
    by (auto simp: rotate_developer_token_def update_user_row_def Let_def split: if_splits list.splits)
  from u have mem: "u \<in> set (t_rows (users s'))" "u_id u = uid"
    by (auto simp: get_user_def select_where_def dest!: fetchone_in)
  have hash: "u_api_token_hash q = Some (th tok)" if "q \<in> set (t_rows (users s'))" "u_id q = uid" for q
    using that unfolding s' by (rule update_where_key) simp_all
  have one: "q = u" if "q \<in> set (t_rows (users s'))" "u_api_token_hash q = Some (th tok)" for q
  proof (rule ccontr)
    assume "q \<noteq> u"
    then have "u_id q \<noteq> u_id u" using accounts_inv_unique(1) [OF inv that(1) mem(1)] by blast
    then have "clash_free q u" using inv that(1) mem(1) by (simp add: accounts_inv_def users_inv_def)
    with that(2) hash [OF mem] show False by (simp add: clash_free_def)
  qed
  have "select_where (\<lambda>q. u_api_token_hash q = Some (th tok) \<and> u_status q = Active) (users s') \<noteq> []"
    using mem(1) hash [OF mem] assms(3) by (auto simp: select_where_def filter_empty_conv)
  then obtain v where v: "get_user_by_api_token th s' tok = Some v"
    unfolding get_user_by_api_token_def by (metis fetchone_None not_None_eq)
  then have "v = u"
    using one by (auto simp: get_user_by_api_token_def select_where_def dest!: fetchone_in)
  moreover have "u_id v \<noteq> uid" if "th old \<noteq> th tok" "get_user_by_api_token th s' old = Some v" for old v
    using that hash by (auto simp: get_user_by_api_token_def select_where_def dest!: fetchone_in)
  ultimately show ?thesis using v mem(2) by blast
qed

theorem rotate_token_replaces_witness:
  "\<exists>u s'. rotate_developer_token id 2 ''n'' accounts_db = Inr (Some u, s')
     \<and> get_user_by_api_token id s' ''n'' = Some u \<and> get_user_by_api_token id accounts_db ''t'' = Some dev_user"
proof -
  have "case rotate_developer_token id 2 ''n'' accounts_db of
      Inr (Some u, s') \<Rightarrow> u_status u = Active | _ \<Rightarrow> False" by code_simp
  then obtain u s' where run: "rotate_developer_token id 2 ''n'' accounts_db = Inr (Some u, s')" "u_status u = Active"
    by (auto split: sum.splits option.splits prod.splits)
  have "get_user_by_api_token id accounts_db ''t'' = Some dev_user" by code_simp
  with run rotate_token_replaces [OF accounts_db_inv run] show ?thesis by blast
qed

section \<open>Constraints\<close>

text \<open>C40: the account tables stay well formed through any sequence of operations: public ids,
  usernames and API token digests are unique, public ids of developers are canonical UUIDs, session
  digests are unique, every session belongs to an existing user, and there is one throttling row
  per scope, name and source and one policy row per header.\<close>
theorem account_constraints_kept:
  assumes "(account_step hp th)\<^sup>*\<^sup>* s s'" and "accounts_inv s"
  shows "accounts_inv s'"
  using assms by (induction rule: rtranclp_induct) (auto intro: account_step_inv)

theorem account_constraints_kept_witness:
  "accounts_inv (record_login_failure 9 ''a'' ''b'' ''c'' accounts_db)
   \<and> login_failures (record_login_failure 9 ''a'' ''b'' ''c'' accounts_db) \<noteq> []"
proof
  have "(account_step id id)\<^sup>*\<^sup>* accounts_db (record_login_failure 9 ''a'' ''b'' ''c'' accounts_db)"
    by (rule r_into_rtranclp) (rule account_step.failure)
  then show "accounts_inv (record_login_failure 9 ''a'' ''b'' ''c'' accounts_db)"
    using accounts_db_inv by (rule account_constraints_kept)
qed code_simp

section \<open>Login throttling\<close>

definition record_all :: "string \<Rightarrow> string \<Rightarrow> string \<Rightarrow> stamp list \<Rightarrow> db \<Rightarrow> db" where
  "record_all scope name source ts s =
     foldl (\<lambda>s t. record_login_failure t scope name source s) s ts"

lemma failure_key_fun: "failure_key a b c = (\<lambda>l. failure_id l = (a, b, c))"
  by (rule ext) (rule failure_key_id)

lemma upsert_failure_Cons:
  "upsert_failure l (q # qs) = (if failure_id q = failure_id l then l # qs else q # upsert_failure l qs)"
  by (auto simp: failure_key_id failure_id_def)

lemma find_upsert:
  "find (failure_key a b c) (upsert_failure l ls)
     = (if failure_id l = (a, b, c) then Some l else find (failure_key a b c) ls)"
  unfolding failure_key_fun
  by (induction ls) (auto simp: upsert_failure_Cons simp del: upsert_failure.simps(2))

lemma failure_row_record:
  "failure_row (record_login_failure t a b c s) a' b' c'
     = (if (a, b, c) = (a', b', c') then Some (next_failure t a b c (failure_row s a b c))
        else failure_row s a' b' c')"
  by (auto simp: failure_row_def record_login_failure_def find_upsert failure_id_def next_failure_def Let_def
      split: prod.splits)

lemma failure_row_all:
  assumes "ts \<noteq> []" and "\<forall>t \<in> set ts. t - hd ts < login_window" and "failure_row s a b c = None"
  shows "failure_row (record_all a b c ts s) a b c
    = Some \<lparr>l_scope = a, l_username = b, l_source = c, l_failures = int (length ts),
            l_first_failed_at = hd ts,
            l_blocked_until = (if length ts \<ge> 5 then Some (last ts + login_window) else None)\<rparr>"
  using assms(1,2)
proof (induction ts rule: rev_induct)
  case (snoc t ts)
  show ?case
  proof (cases "ts = []")
    case True
    with assms(3) show ?thesis
      by (simp add: record_all_def failure_row_record next_failure_def)
  next
    case False
    with snoc have "failure_row (record_all a b c ts s) a b c
      = Some \<lparr>l_scope = a, l_username = b, l_source = c, l_failures = int (length ts),
            l_first_failed_at = hd ts,
            l_blocked_until = (if length ts \<ge> 5 then Some (last ts + login_window) else None)\<rparr>"
      by simp
    moreover have "record_all a b c (ts @ [t]) s = record_login_failure t a b c (record_all a b c ts s)"
      by (simp add: record_all_def)
    moreover have "t - hd ts < login_window" using snoc(3) False by simp
    ultimately show ?thesis using False
      by (simp add: failure_row_record next_failure_def Let_def)
  qed
qed simp

text \<open>Seconds rounded up.\<close>

definition ceil_seconds :: "stamp \<Rightarrow> int" where
  "ceil_seconds d = - (- d div second)"

lemma retry_seconds:
  "max 0 (whole_seconds d + (if d mod second \<noteq> 0 then 1 else 0))
     = (if 0 < d then ceil_seconds d else if - second < d \<and> d < 0 then 1 else 0)"
proof -
  have pos: "whole_seconds d + (if d mod second \<noteq> 0 then 1 else 0) = ceil_seconds d" if "0 < d"
    using that by (auto simp: whole_seconds_def ceil_seconds_def second_def zdiv_zminus1_eq_if)
  have "0 < ceil_seconds d" if "0 < d"
    using that by (simp add: ceil_seconds_def second_def)
  moreover have "whole_seconds d = 0 \<and> d mod second \<noteq> 0" if "- second < d" "d < 0"
  proof -
    have "- d div second = 0" using that by (simp add: second_def)
    moreover have "(d + second) mod second = d + second"
      using that by (intro mod_pos_pos_trivial) (simp_all add: second_def)
    then have "d mod second = d + second" by simp
    ultimately show ?thesis using that by (simp add: whole_seconds_def)
  qed
  moreover have "whole_seconds d + (if d mod second \<noteq> 0 then 1 else 0) \<le> 0" if "d \<le> - second"
    using that by (auto simp: whole_seconds_def second_def)
  ultimately show ?thesis using pos by (auto simp: whole_seconds_def second_def max_def)
qed

text \<open>Five failures within fifteen minutes block further attempts for fifteen minutes from the last
  one, and fewer do not. After recording the failures \<open>ts\<close> of one scope, name and source, the
  retry delay reported at a later time is zero for fewer than five, else the time until the block
  ends in seconds, rounded up, and at most 900. Other scopes, names and sources are not affected.\<close>
theorem login_block:
  assumes "ts \<noteq> []" and "\<forall>t \<in> set ts. t - hd ts < 15 * 60 * 1000000" and "failure_row s a b c = None"
    and "last ts \<le> now"
  shows "(length ts < 5 \<longrightarrow> login_retry_after now a b c (record_all a b c ts s) = 0)
    \<and> (5 \<le> length ts \<and> now < last ts + 15 * 60 * 1000000 \<longrightarrow>
        login_retry_after now a b c (record_all a b c ts s)
          = ceil_seconds (last ts + 15 * 60 * 1000000 - now)
        \<and> 1 \<le> login_retry_after now a b c (record_all a b c ts s)
        \<and> login_retry_after now a b c (record_all a b c ts s) \<le> 900)
    \<and> (5 \<le> length ts \<and> last ts + 15 * 60 * 1000000 + 1000000 \<le> now \<longrightarrow>
        login_retry_after now a b c (record_all a b c ts s) = 0)
    \<and> ((a', b', c') \<noteq> (a, b, c) \<longrightarrow>
        login_retry_after now a' b' c' (record_all a b c ts s) = login_retry_after now a' b' c' s)"
proof -
  have row: "failure_row (record_all a b c ts s) a b c
    = Some \<lparr>l_scope = a, l_username = b, l_source = c, l_failures = int (length ts),
            l_first_failed_at = hd ts,
            l_blocked_until = (if length ts \<ge> 5 then Some (last ts + login_window) else None)\<rparr>"
    by (rule failure_row_all) (use assms in \<open>simp_all add: login_window_def second_def\<close>)
  have retry: "login_retry_after now a b c (record_all a b c ts s)
      = (let d = last ts + login_window - now
         in if length ts < 5 then 0
            else if 0 < d then ceil_seconds d else if - second < d \<and> d < 0 then 1 else 0)"
    using retry_seconds [of "last ts + login_window - now"] by (auto simp: login_retry_after_def row Let_def)
  have other: "failure_row (record_all a b c us s) a' b' c' = failure_row s a' b' c'"
    if "(a', b', c') \<noteq> (a, b, c)" for us
    using that by (induction us rule: rev_induct) (auto simp: record_all_def failure_row_record)
  have "1 \<le> ceil_seconds d" "ceil_seconds d \<le> 900" if "0 < d" "d \<le> login_window" for d
    using that by (simp_all add: ceil_seconds_def second_def login_window_def)
  from this [of "last ts + login_window - now"] show ?thesis
    using assms(4) retry other
    by (auto simp: Let_def login_window_def second_def login_retry_after_def)
qed

theorem login_block_witness:
  "login_retry_after 10 ''d'' ''u'' ''h'' (record_all ''d'' ''u'' ''h'' [1, 2, 3, 4, 5] accounts_db) = 900
   \<and> login_retry_after 10 ''d'' ''u'' ''h'' (record_all ''d'' ''u'' ''h'' [1, 2, 3, 4] accounts_db) = 0"
proof -
  have none: "failure_row accounts_db ''d'' ''u'' ''h'' = None"
    by (simp add: failure_row_def accounts_db_def empty_db_def)
  show ?thesis
    using login_block [where ts = "[1, 2, 3, 4, 5]" and now = 10, OF _ _ none]
      login_block [where ts = "[1, 2, 3, 4]" and now = 10, OF _ _ none]
    by (simp add: ceil_seconds_def second_def)
qed

text \<open>The reported retry delay rounds a block that has just ended up to one second. For less than a
  second after the end of the block the delay is still one, so the attempt is refused.\<close>
theorem login_retry_overshoot:
  assumes "failure_row s a b c = Some l" and "l_blocked_until l = Some until"
    and "until < now" and "now < until + 1000000"
  shows "login_retry_after now a b c s = 1"
  using assms retry_seconds [of "until - now"]
  by (simp add: login_retry_after_def Let_def) (simp add: second_def)

theorem login_retry_overshoot_witness:
  "login_retry_after 900000006 ''d'' ''u'' ''h'' (record_all ''d'' ''u'' ''h'' [1, 2, 3, 4, 5] accounts_db) = 1"
proof -
  let ?s = "record_all ''d'' ''u'' ''h'' [1, 2, 3, 4, 5] accounts_db"
  have row: "failure_row ?s ''d'' ''u'' ''h'' = Some \<lparr>l_scope = ''d'', l_username = ''u'', l_source = ''h'',
      l_failures = 5, l_first_failed_at = 1, l_blocked_until = Some (5 + login_window)\<rparr>"
    using failure_row_all [of "[1, 2, 3, 4, 5]" accounts_db "''d''" "''u''" "''h''"]
    by (simp add: failure_row_def accounts_db_def empty_db_def login_window_def second_def)
  show ?thesis
    by (rule login_retry_overshoot [OF row, where until = "5 + login_window"]) (simp_all add: login_window_def second_def)
qed

section \<open>Header policy\<close>

lemma in_enabled_headers:
  "m \<in> enabled_headers s \<longleftrightarrow> (\<exists>h \<in> set (header_policy s). h_enabled h \<and> h_name h = m)"
  by (auto simp: enabled_headers_def)

lemma upsert_enabled:
  assumes "distinct (map h_name hs)"
  shows "(\<exists>h \<in> set (upsert_header now n e hs). h_enabled h \<and> h_name h = m)
    \<longleftrightarrow> (if m = n then e else \<exists>h \<in> set hs. h_enabled h \<and> h_name h = m)"
  using assms by (induction hs) (auto simp: image_iff)

lemma insert_or_ignore_append:
  "\<exists>new. insert_or_ignore now ns hs = hs @ new \<and> set (map h_name new) = set ns - set (map h_name hs)
     \<and> (\<forall>h \<in> set new. h_enabled h)"
proof (induction now ns hs rule: insert_or_ignore.induct)
  case (2 now n ns hs)
  let ?row = "\<lparr>h_name = n, h_enabled = True, h_builtin = True, h_updated_at = now\<rparr>"
  show ?case
  proof (cases "n \<in> set (map h_name hs)")
    case True
    with 2 obtain new where "insert_or_ignore now ns hs = hs @ new"
      "set (map h_name new) = set ns - set (map h_name hs)" "\<forall>h \<in> set new. h_enabled h"
      by auto
    with True show ?thesis by auto
  next
    case False
    with 2 obtain new where new: "insert_or_ignore now ns (hs @ [?row]) = hs @ [?row] @ new"
      "set (map h_name new) = set ns - set (map h_name (hs @ [?row]))" "\<forall>h \<in> set new. h_enabled h"
      by auto
    with False show ?thesis by (intro exI [of _ "?row # new"]) auto
  qed
qed auto

text \<open>The header policy. Setting a header adds it to or removes it from the enabled set and changes
  nothing else; running the initialisation again (a restart) keeps every row an administrator set
  and only adds default headers that are missing, enabled.\<close>
theorem header_policy_functional:
  assumes "accounts_inv s"
  shows "enabled_headers (snd (set_header now n e s))
      = (if e then insert n (enabled_headers s) else enabled_headers s - {n})
    \<and> (\<exists>new. header_policy (initialize_headers now' s) = header_policy s @ new)
    \<and> enabled_headers (initialize_headers now' s)
        = enabled_headers s \<union> (set DEFAULT_HEADERS - set (map h_name (header_policy s)))"
proof -
  obtain new where new: "insert_or_ignore now' (sort DEFAULT_HEADERS) (header_policy s) = header_policy s @ new"
    "set (map h_name new) = set (sort DEFAULT_HEADERS) - set (map h_name (header_policy s))"
    "\<forall>h \<in> set new. h_enabled h"
    using insert_or_ignore_append by blast
  have "set (map h_name (filter h_enabled new)) = set (map h_name new)"
    using new(3) by (simp add: filter_True)
  then have "enabled_headers (initialize_headers now' s)
        = enabled_headers s \<union> (set DEFAULT_HEADERS - set (map h_name (header_policy s)))"
    unfolding enabled_headers_def using new by (simp add: initialize_headers_def)
  moreover have "enabled_headers (snd (set_header now n e s))
      = (if e then insert n (enabled_headers s) else enabled_headers s - {n})"
    using upsert_enabled [of "header_policy s" now n e] assms
    by (auto simp: set_eq_iff in_enabled_headers set_header_def accounts_inv_def)
  ultimately show ?thesis using new(1) by (simp add: initialize_headers_def)
qed

theorem header_policy_functional_witness:
  "enabled_headers (snd (set_header 0 ''zlib.h'' True accounts_db)) = {''zlib.h''}
   \<and> ''vector'' \<in> enabled_headers (initialize_headers 0 accounts_db)"
proof -
  have none: "header_policy accounts_db = []" by (simp add: accounts_db_def empty_db_def)
  have "''vector'' \<in> set DEFAULT_HEADERS" by (simp add: DEFAULT_HEADERS_def)
  with header_policy_functional [OF accounts_db_inv, of 0 "''zlib.h''" True 0] none show ?thesis
    by (simp add: enabled_headers_def)
qed

section \<open>Undoing a failed bootstrap\<close>

text \<open>No row of another table names a user id the counter has not reached: what the foreign keys
  guarantee, since AUTOINCREMENT never reuses an id.\<close>

definition user_refs :: "db \<Rightarrow> bool" where
  "user_refs s \<longleftrightarrow>
     (let n = t_seq (users s)
      in (\<forall>x \<in> set (t_rows (sessions s)). s_user_id x \<le> n)
       \<and> (\<forall>j \<in> set (t_rows (jobs s)). j_user_id j \<le> n)
       \<and> (\<forall>g \<in> set (t_rows (quota_grants s)). g_user_id g \<le> n \<and> g_created_by g \<le> n)
       \<and> (\<forall>r \<in> set (t_rows (extension_requests s)).
            r_user_id r \<le> n \<and> (\<forall>i. r_decided_by r = Some i \<longrightarrow> i \<le> n))
       \<and> (\<forall>a \<in> set (t_rows (audit_log s)). \<forall>i. a_actor_user_id a = Some i \<longrightarrow> i \<le> n))"

lemma delete_created_developer:
  assumes "accounts_inv s" and "user_refs s"
    and "create_developer hp th fresh now name pw tok path pid s = Inr (u, s')"
  shows "\<exists>v. u = Some v \<and> delete_unconfigured_developer (u_id v) (u_public_id v) s'
    = Inr (s\<lparr>users := (users s)\<lparr>t_seq := t_seq (users s) + 1\<rparr>\<rparr>)"
proof -
  from assms(3) obtain row uid where ins: "insert_user row s = Inr (uid, s')"
    and u: "u = get_user s' uid" and dev: "u_role row = Developer"
    by (rule create_developer_Inr) simp
  let ?n = "t_seq (users s)" and ?v = "row\<lparr>u_id := t_seq (users s) + 1\<rparr>"
  from ins have uid: "uid = ?n + 1"
    and s': "s' = s\<lparr>users := snd (insert_row (\<lambda>i. u_id_update (\<lambda>_. i)) row (users s))\<rparr>"
    by (simp_all add: insert_user_Inr)
  have old: "filter (\<lambda>q. u_id q = ?n + 1 \<and> Q q) (t_rows (users s)) = []" for Q
    using assms(1) by (auto simp: accounts_inv_def users_inv_def keys_ok_def filter_empty_conv)
  have keep: "filter (\<lambda>q. u_id q \<noteq> ?n + 1) (t_rows (users s)) = t_rows (users s)"
    using assms(1) by (auto simp: accounts_inv_def users_inv_def keys_ok_def filter_id_conv)
  have "u = Some ?v"
    using old [of "\<lambda>_. True"] by (simp add: u uid s' get_user_def select_where_def)
  moreover have "select_where (\<lambda>q. u_id q = ?n + 1 \<and> u_public_id q = u_public_id row \<and> u_role q = Developer) (users s') \<noteq> []"
    using dev by (simp add: s' select_where_def)
  moreover have "delete_user_cascade (?n + 1) s' = Inr (s\<lparr>users := (users s)\<lparr>t_seq := ?n + 1\<rparr>\<rparr>)"
  proof -
    have ses: "delete_where (\<lambda>x. s_user_id x = ?n + 1) (sessions s) = sessions s"
      using assms(2) by (intro delete_where_none) (force simp: user_refs_def Let_def)
    have grants: "delete_where (\<lambda>g. g_user_id g = ?n + 1) (quota_grants s) = quota_grants s"
      using assms(2) by (intro delete_where_none) (force simp: user_refs_def Let_def)
    have gone: "select_where (\<lambda>g. g_user_id g = ?n + 1) (quota_grants s) = []"
      using assms(2) by (auto simp: select_where_def user_refs_def Let_def filter_empty_conv)
    have users: "delete_where (\<lambda>q. u_id q = ?n + 1) (snd (insert_row (\<lambda>i. u_id_update (\<lambda>_. i)) row (users s)))
        = (users s)\<lparr>t_seq := ?n + 1\<rparr>"
      using keep by (simp add: delete_where_def insert_row_def Let_def)
    show ?thesis
      using assms(2) by (simp add: delete_user_cascade_def Let_def s' ses grants gone users)
        (auto simp: user_refs_def Let_def)
  qed
  ultimately show ?thesis by (simp add: delete_unconfigured_developer_def)
qed

text \<open>The compensation of a failed bootstrap is exact. Deleting the developer that was just created
  succeeds and restores every table; only the id counter has moved on.\<close>
theorem bootstrap_rollback:
  assumes "accounts_inv s" and "user_refs s"
    and "create_developer hp th fresh now name pw tok path pid s = Inr (u, s')"
  shows "\<exists>v. u = Some v \<and> delete_unconfigured_developer (u_id v) (u_public_id v) s'
    = Inr (s\<lparr>users := (users s)\<lparr>t_seq := t_seq (users s) + 1\<rparr>\<rparr>)"
  using assms by (rule delete_created_developer)

definition one_uuid :: string where
  "one_uuid = ''11111111-1111-1111-1111-111111111111''"

theorem bootstrap_rollback_witness:
  "\<exists>v s'. create_developer id id zero_uuid 1 ''e'' ''p'' ''n'' ''/w'' (Some one_uuid) accounts_db
      = Inr (Some v, s')
    \<and> delete_unconfigured_developer (u_id v) (u_public_id v) s'
      = Inr (accounts_db\<lparr>users := (users accounts_db)\<lparr>t_seq := 3\<rparr>\<rparr>)"
proof -
  have "canonical_uuid one_uuid"
    by (rule canonical_shape_uuid) code_simp
  then obtain u s' where run: "create_developer id id zero_uuid 1 ''e'' ''p'' ''n'' ''/w''
      (Some one_uuid) accounts_db = Inr (u, s')"
    by (simp add: create_developer_def require_uuid_def insert_user_def unique_violation_def
        accounts_db_def dev_user_def root_user_def zero_uuid_def one_uuid_def insert_row_def Let_def)
  have "user_refs accounts_db" "t_seq (users accounts_db) = 2"
    by (simp_all add: user_refs_def accounts_db_def empty_db_def)
  with bootstrap_rollback [OF accounts_db_inv _ run] run show ?thesis by auto
qed

section \<open>Extension requests\<close>

text \<open>A pending request for an extension that the user already has cannot be approved. When the same
  user has an approved request for the same catalog entry, the approval raises a constraint error
  (and a second request while one is pending raises one as well), which the callers do not catch.\<close>
theorem second_approval_fails:
  assumes "keys_ok r_id (extension_requests s)"
    and "r \<in> set (t_rows (extension_requests s))" and "r_status r = Pending"
    and "q \<in> set (t_rows (extension_requests s))" and "r_status q = Approved"
    and "r_user_id q = r_user_id r" and "r_catalog_id q = r_catalog_id r"
    and "find (\<lambda>u. u_id u = admin_id) (t_rows (users s)) \<noteq> None" and "scope = ''user'' \<or> scope = ''global''"
  shows "decide_extension_request now (r_id r) admin_id scope s
    = Inl (IntegrityError ''UNIQUE constraint failed: extension_requests'')"
proof -
  let ?found = "select_where (\<lambda>x. r_id x = r_id r \<and> r_status x = Pending) (extension_requests s)"
  have one: "x = r" if "x \<in> set ?found" for x
  proof -
    from that have "x \<in> set (t_rows (extension_requests s))" "r_id x = r_id r"
      by (simp_all add: select_where_def)
    then show ?thesis using keys_ok_unique [OF assms(1) _ assms(2)] by blast
  qed
  have "r \<in> set ?found" using assms(2,3) by (simp add: select_where_def)
  then obtain x rest where found: "?found = x # rest" by (cases ?found) simp_all
  then have "x = r" using one [of x] by simp
  with found have "?found = r # rest" by simp
  moreover have "\<exists>x \<in> set (t_rows (extension_requests s)). request_clash (r_user_id r) (r_catalog_id r) Approved x"
    using assms(4-7) by (intro bexI [OF _ assms(4)]) (simp add: request_clash_def)
  ultimately show ?thesis using assms(8,9) by (simp add: decide_extension_request_def Let_def)
qed

definition requests_db :: db where
  "requests_db =
     (let r = \<lparr>r_id = 1, r_user_id = 2, r_catalog_id = 1, r_status = Approved, r_scope = Some ''user'',
               r_created_at = 0, r_decided_at = Some 1, r_decided_by = Some 1\<rparr>
      in accounts_db\<lparr>extension_requests :=
           \<lparr>t_rows = [r, r\<lparr>r_id := 2, r_status := Pending, r_scope := None\<rparr>], t_seq = 2\<rparr>\<rparr>)"

theorem second_approval_fails_witness:
  "decide_extension_request 5 2 1 ''user'' requests_db
     = Inl (IntegrityError ''UNIQUE constraint failed: extension_requests'')"
proof -
  let ?rows = "t_rows (extension_requests requests_db)"
  have "keys_ok r_id (extension_requests requests_db)"
    "?rows ! 1 \<in> set ?rows" "r_status (?rows ! 1) = Pending" "?rows ! 0 \<in> set ?rows"
    "r_status (?rows ! 0) = Approved" "r_user_id (?rows ! 0) = r_user_id (?rows ! 1)"
    "r_catalog_id (?rows ! 0) = r_catalog_id (?rows ! 1)"
    "find (\<lambda>u. u_id u = 1) (t_rows (users requests_db)) \<noteq> None" "r_id (?rows ! 1) = 2"
    by (simp_all add: requests_db_def Let_def keys_ok_def accounts_db_def root_user_def)
  from second_approval_fails [OF this(1-8), of "''user''" 5] this(9) show ?thesis by simp
qed

end
