(* ===== verification/Effects.thy ===== *)
theory Effects
  imports Prelude
begin

text \<open>
  Two small bases of the process-level components: Python statements that change a state and may
  raise (an action returns its value or the exception, and the state reached so far, since nothing is
  rolled back), and decimal numerals (\<open>str(i)\<close> and the reading of a string of digits).
\<close>

section \<open>Actions\<close>

type_synonym ('h, 'e, 'a) effect = "'h \<Rightarrow> ('e + 'a) \<times> 'h"
type_synonym ('h, 'a) action = "('h, py_error, 'a) effect"

definition ret :: "'a \<Rightarrow> ('h, 'e, 'a) effect" where
  "ret x h = (Inr x, h)"

definition raise :: "'e \<Rightarrow> ('h, 'e, 'a) effect" where
  "raise e h = (Inl e, h)"

text \<open>Lifts a computation that does not change the state.\<close>

definition lift :: "'e + 'a \<Rightarrow> ('h, 'e, 'a) effect" where
  "lift r h = (r, h)"

definition andthen ::
    "('h, 'e, 'a) effect \<Rightarrow> ('a \<Rightarrow> ('h, 'e, 'b) effect) \<Rightarrow> ('h, 'e, 'b) effect" where
  "andthen m f h = (case m h of (Inl e, h') \<Rightarrow> (Inl e, h') | (Inr x, h') \<Rightarrow> f x h')"

abbreviation followed :: "('h, 'e, unit) effect \<Rightarrow> ('h, 'e, 'b) effect \<Rightarrow> ('h, 'e, 'b) effect" where
  "followed m k \<equiv> andthen m (\<lambda>_. k)"

text \<open>A loop of one statement over a list.\<close>

fun for_each :: "('a \<Rightarrow> ('h, 'e, unit) effect) \<Rightarrow> 'a list \<Rightarrow> ('h, 'e, unit) effect" where
  "for_each f [] = ret ()"
| "for_each f (x # xs) = followed (f x) (for_each f xs)"

lemma action_simps [simp]:
  "ret x h = (Inr x, h)"
  "raise e h = (Inl e, h)"
  "lift r h = (r, h)"
  "andthen (ret x) f = f x"
  "andthen (raise e) f = raise e"
  "andthen (lift (Inr x)) f = f x"
  "andthen (lift (Inl e)) f = raise e"
  by (simp_all add: ret_def raise_def lift_def andthen_def fun_eq_iff)

lemma andthen_Inr [simp]:
  "andthen m f h = (Inr y, h'') \<longleftrightarrow> (\<exists>x h'. m h = (Inr x, h') \<and> f x h' = (Inr y, h''))"
  by (auto simp: andthen_def split: prod.splits sum.splits)

lemma andthen_run:
  "m h = (Inr x, h') \<Longrightarrow> andthen m f h = f x h'"
  "m h = (Inl e, h') \<Longrightarrow> andthen m f h = (Inl e, h')"
  by (simp_all add: andthen_def)

section \<open>Decimal numerals\<close>

definition digit_char :: "nat \<Rightarrow> char" where
  "digit_char d = char_of (48 + d)"

fun nat_text :: "nat \<Rightarrow> string" where
  "nat_text n = (if n < 10 then [digit_char n] else nat_text (n div 10) @ [digit_char (n mod 10)])"

declare nat_text.simps [simp del]

definition int_text :: "int \<Rightarrow> string" where
  "int_text i = (if i < 0 then CHR ''-'' # nat_text (nat (- i)) else nat_text (nat i))"

text \<open>The same numeral computed on integers, for evaluation.\<close>

function pos_text :: "int \<Rightarrow> string" where
  "pos_text i =
     (if i < 10 then [digit_char (nat i)] else pos_text (i div 10) @ [digit_char (nat (i mod 10))])"
  by pat_completeness auto
termination by (relation "measure nat") auto

declare pos_text.simps [simp del]

lemma pos_text_nat_text: "0 \<le> i \<Longrightarrow> pos_text i = nat_text (nat i)"
proof (induction i rule: pos_text.induct)
  case (1 i)
  show ?case
  proof (cases "i < 10")
    case True
    with "1.prems" show ?thesis by (simp add: pos_text.simps [of i] nat_text.simps [of "nat i"] nat_less_iff)
  next
    case False
    with 1 have "pos_text (i div 10) = nat_text (nat (i div 10))" by simp
    with False "1.prems" show ?thesis
      by (simp add: pos_text.simps [of i] nat_text.simps [of "nat i"] nat_less_iff nat_div_distrib nat_mod_distrib)
  qed
qed

lemma int_text_code [code]: "int_text i = (if i < 0 then CHR ''-'' # pos_text (- i) else pos_text i)"
  by (simp add: int_text_def pos_text_nat_text)

text \<open>\<open>str.isdigit\<close> on ASCII text, and \<open>int(s)\<close> for such a string.\<close>

definition is_digit :: "char \<Rightarrow> bool" where
  "is_digit c \<longleftrightarrow> 48 \<le> (of_char c :: nat) \<and> (of_char c :: nat) \<le> 57"

definition digits_value :: "string \<Rightarrow> nat" where
  "digits_value s = foldl (\<lambda>n c. n * 10 + (of_char c - 48)) 0 s"

lemma digit_char_code: "d < 10 \<Longrightarrow> (of_char (digit_char d) :: nat) = 48 + d"
  by (simp add: digit_char_def)

lemma digit_char_digit: "d < 10 \<Longrightarrow> is_digit (digit_char d)"
  by (simp add: is_digit_def digit_char_code)

lemma nat_text_digits: "c \<in> set (nat_text n) \<Longrightarrow> is_digit c"
proof (induction n rule: nat_text.induct)
  case (1 n)
  from "1.prems" show ?case
    by (subst (asm) nat_text.simps) (auto split: if_splits intro: digit_char_digit "1.IH")
qed

lemma nat_text_nonempty [simp]: "nat_text n \<noteq> []"
  by (subst nat_text.simps) simp

lemma digits_value_nat_text [simp]: "digits_value (nat_text n) = n"
proof (induction n rule: nat_text.induct)
  case (1 n)
  then show ?case
    by (subst nat_text.simps) (auto simp: digits_value_def digit_char_code)
qed

lemma nat_text_inject [simp]: "nat_text m = nat_text n \<longleftrightarrow> m = n"
  by (metis digits_value_nat_text)

lemma int_text_pos: "0 \<le> i \<Longrightarrow> int_text i = nat_text (nat i)"
  by (simp add: int_text_def)

lemma int_text_inject_pos: "0 \<le> i \<Longrightarrow> 0 \<le> j \<Longrightarrow> int_text i = int_text j \<longleftrightarrow> i = j"
  by (auto simp: int_text_pos)

lemma int_text_digits: "0 \<le> i \<Longrightarrow> c \<in> set (int_text i) \<Longrightarrow> is_digit c"
  by (simp add: int_text_pos nat_text_digits)

text \<open>\<open>str.split()\<close> without a separator, and \<open>str.splitlines()\<close>, on code points below 256.\<close>

definition words_of :: "string \<Rightarrow> string list" where
  "words_of s = filter (\<lambda>w. w \<noteq> []) (split_on sp (map (\<lambda>c. if is_py_space c then sp else c) s))"

definition is_line_break :: "char \<Rightarrow> bool" where
  "is_line_break c \<longleftrightarrow>
     (let n = of_char c :: nat in 10 \<le> n \<and> n \<le> 13 \<or> 28 \<le> n \<and> n \<le> 30 \<or> n = 133)"

function lines_of :: "string \<Rightarrow> string list" where
  "lines_of [] = []"
| "lines_of (c # cs) =
     (if is_line_break c then
        [] # lines_of (if c = CHR 0x0D \<and> starts_with cs [nl] then tl cs else cs)
      else (case lines_of cs of [] \<Rightarrow> [[c]] | w # ws \<Rightarrow> (c # w) # ws))"
  by pat_completeness auto
termination by (relation "measure length") auto

lemma lines_of_line:
  "\<forall>c \<in> set w. \<not> is_line_break c \<Longrightarrow> lines_of (w @ nl # rest) = w # lines_of rest"
  by (induction w) (auto simp: is_line_break_def)

end
