(* ===== verification/Broker_Wire.thy ===== *)
theory Broker_Wire
  imports Db_Jobs Uuid Effects
begin

text \<open>
  The control/worker broker of \<open>broker.py\<close>: JSON values and their compact text, the schema checks,
  the conversion of jobs and results to and from the wire, the request handler, and the client of
  the Unix socket. A JSON object is the list of its items (\<open>json.loads\<close> yields distinct keys); a float
  is kept as its text. The socket and the peer credentials are in \<open>Broker_Server\<close>; here one exchange of
  a client is the request handler applied to the request, with the size limits of both sides.
\<close>

section \<open>JSON\<close>

datatype json =
    JNull
  | JBool bool
  | JInt int
  | JFloat string
  | JStr string
  | JArr "json list"
  | JObj "(string \<times> json) list"

text \<open>The string escapes of \<open>json.dumps(..., ensure_ascii=False)\<close>.\<close>

definition escape_char :: "char \<Rightarrow> string" where
  "escape_char c =
     (if c = CHR 0x22 then [CHR 0x5C, CHR 0x22]
      else if c = CHR 0x5C then [CHR 0x5C, CHR 0x5C]
      else if c = nl then [CHR 0x5C, CHR ''n'']
      else if c = CHR 0x0D then [CHR 0x5C, CHR ''r'']
      else if c = tab then [CHR 0x5C, CHR ''t'']
      else if c = CHR 0x0C then [CHR 0x5C, CHR ''f'']
      else if c = CHR 0x08 then [CHR 0x5C, CHR ''b'']
      else if (of_char c :: nat) < 32 then CHR 0x5C # CHR ''u'' # hex_fixed 4 (of_char c)
      else [c])"

definition string_text :: "string \<Rightarrow> string" where
  "string_text s = CHR 0x22 # concat (map escape_char s) @ [CHR 0x22]"

text \<open>\<open>json.dumps(value, separators=(",", ":"), ensure_ascii=False)\<close>.\<close>

fun dumps :: "json \<Rightarrow> string" where
  "dumps JNull = ''null''"
| "dumps (JBool b) = (if b then ''true'' else ''false'')"
| "dumps (JInt i) = int_text i"
| "dumps (JFloat t) = t"
| "dumps (JStr s) = string_text s"
| "dumps (JArr vs) = CHR ''['' # join_on CHR '','' (map dumps vs) @ [CHR '']'']"
| "dumps (JObj kvs) =
     CHR 0x7B # join_on CHR '','' (map (\<lambda>(k, v). string_text k @ CHR '':'' # dumps v) kvs) @ [CHR 0x7D]"

text \<open>Length of the UTF-8 encoding of code points below 256.\<close>

definition utf8_length :: "string \<Rightarrow> nat" where
  "utf8_length s = sum_list (map (\<lambda>c. if (of_char c :: nat) < 128 then 1 else 2) s)"

definition wire_size :: "json \<Rightarrow> nat" where
  "wire_size v = utf8_length (dumps v)"

section \<open>Schema checks\<close>

definition exact_object :: "json \<Rightarrow> string list \<Rightarrow> (string \<times> json) list result" where
  "exact_object v keys =
     (case v of
        JObj kvs \<Rightarrow>
          if set (map fst kvs) = set keys then Inr kvs
          else Inl (ValueError ''object keys do not match schema'')
      | _ \<Rightarrow> Inl (ValueError ''object keys do not match schema''))"

text \<open>\<open>data[k]\<close> after the keys were checked.\<close>

definition item :: "(string \<times> json) list \<Rightarrow> string \<Rightarrow> json" where
  "item kvs k = (case map_of kvs k of None \<Rightarrow> JNull | Some v \<Rightarrow> v)"

definition positive_job_id :: "json \<Rightarrow> int result" where
  "positive_job_id v =
     (case v of
        JInt i \<Rightarrow> if i \<le> 0 then Inl (ValueError ''job_id must be a positive integer'') else Inr i
      | _ \<Rightarrow> Inl (ValueError ''job_id must be a positive integer''))"

definition nullable_int :: "json \<Rightarrow> int option result" where
  "nullable_int v =
     (case v of
        JNull \<Rightarrow> Inr None
      | JInt i \<Rightarrow>
          if i < 0 then Inl (ValueError ''expected a non-negative integer or null'') else Inr (Some i)
      | _ \<Rightarrow> Inl (ValueError ''expected a non-negative integer or null''))"

definition text_of :: "json \<Rightarrow> string result" where
  "text_of v = (case v of JStr s \<Rightarrow> Inr s | _ \<Rightarrow> Inl (ValueError ''expected string''))"

definition wire_uuid :: "json \<Rightarrow> string result" where
  "wire_uuid v = bind_result (text_of v) (require_uuid ''expected canonical UUID'')"

definition one_of :: "json \<Rightarrow> job_state list \<Rightarrow> job_state result" where
  "one_of v allowed =
     bind_result (text_of v) (\<lambda>t.
       case find (\<lambda>st. state_name st = t) allowed of
         None \<Rightarrow> Inl (ValueError ''value is outside the allowed enum'')
       | Some st \<Rightarrow> Inr st)"

definition boolean_of :: "json \<Rightarrow> bool result" where
  "boolean_of v = (case v of JBool b \<Rightarrow> Inr b | _ \<Rightarrow> Inl (ValueError ''expected boolean''))"

definition array_of :: "json \<Rightarrow> json list result" where
  "array_of v = (case v of JArr vs \<Rightarrow> Inr vs | _ \<Rightarrow> Inl (ValueError ''cases must be an array''))"

section \<open>Results on the wire\<close>

definition nullable :: "int option \<Rightarrow> json" where
  "nullable v = (case v of None \<Rightarrow> JNull | Some i \<Rightarrow> JInt i)"

definition state_json :: "job_state \<Rightarrow> json" where
  "state_json st = JStr (state_name st)"

definition compile_to_wire :: "compile_result \<Rightarrow> json" where
  "compile_to_wire c =
     JObj [(''status'', state_json (cr_status c)), (''stdout'', JStr (cr_stdout c)),
           (''stderr'', JStr (cr_stderr c)), (''exit_code'', nullable (cr_exit_code c)),
           (''wall_time_ms'', nullable (cr_wall_time_ms c)),
           (''output_truncated'', JBool (cr_output_truncated c))]"

definition case_to_wire :: "case_result \<Rightarrow> json" where
  "case_to_wire c =
     JObj [(''position'', JInt (ca_position c)), (''status'', state_json (ca_status c)),
           (''stdout'', JStr (ca_stdout c)), (''stderr'', JStr (ca_stderr c)),
           (''exit_code'', nullable (ca_exit_code c)), (''term_signal'', nullable (ca_term_signal c)),
           (''wall_time_ms'', nullable (ca_wall_time_ms c)),
           (''peak_memory_kib'', nullable (ca_peak_memory_kib c)),
           (''output_truncated'', JBool (ca_output_truncated c))]"

definition execution_to_wire :: "execution_result \<Rightarrow> json" where
  "execution_to_wire e =
     JObj [(''status'', state_json (ex_status e)), (''compile'', compile_to_wire (ex_compile e)),
           (''cases'', JArr (map case_to_wire (ex_cases e)))]"

definition compile_states :: "job_state list" where
  "compile_states = [Completed, CompileError, SystemError]"

definition compile_from_wire :: "json \<Rightarrow> compile_result result" where
  "compile_from_wire v =
     bind_result (exact_object v [''status'', ''stdout'', ''stderr'', ''exit_code'', ''wall_time_ms'', ''output_truncated'']) (\<lambda>d.
     bind_result (one_of (item d ''status'') compile_states) (\<lambda>st.
     bind_result (text_of (item d ''stdout'')) (\<lambda>out.
     bind_result (text_of (item d ''stderr'')) (\<lambda>err.
     bind_result (nullable_int (item d ''exit_code'')) (\<lambda>code.
     bind_result (nullable_int (item d ''wall_time_ms'')) (\<lambda>wall.
     bind_result (boolean_of (item d ''output_truncated'')) (\<lambda>trunc.
     Inr \<lparr>cr_status = st, cr_stdout = out, cr_stderr = err, cr_exit_code = code,
          cr_wall_time_ms = wall, cr_output_truncated = trunc\<rparr>)))))))"

definition case_from_wire :: "json \<Rightarrow> case_result result" where
  "case_from_wire v =
     bind_result (exact_object v [''position'', ''status'', ''stdout'', ''stderr'', ''exit_code'', ''term_signal'', ''wall_time_ms'', ''peak_memory_kib'', ''output_truncated'']) (\<lambda>d.
     bind_result (positive_job_id (item d ''position'')) (\<lambda>pos.
     bind_result (one_of (item d ''status'') TERMINAL_STATES) (\<lambda>st.
     bind_result (text_of (item d ''stdout'')) (\<lambda>out.
     bind_result (text_of (item d ''stderr'')) (\<lambda>err.
     bind_result (nullable_int (item d ''exit_code'')) (\<lambda>code.
     bind_result (nullable_int (item d ''term_signal'')) (\<lambda>sig.
     bind_result (nullable_int (item d ''wall_time_ms'')) (\<lambda>wall.
     bind_result (nullable_int (item d ''peak_memory_kib'')) (\<lambda>peak.
     bind_result (boolean_of (item d ''output_truncated'')) (\<lambda>trunc.
     Inr \<lparr>ca_position = pos, ca_status = st, ca_stdout = out, ca_stderr = err,
          ca_exit_code = code, ca_term_signal = sig, ca_wall_time_ms = wall,
          ca_peak_memory_kib = peak, ca_output_truncated = trunc\<rparr>))))))))))"

definition execution_from_wire :: "json \<Rightarrow> execution_result result" where
  "execution_from_wire v =
     bind_result (exact_object v [''status'', ''compile'', ''cases'']) (\<lambda>d.
     bind_result (one_of (item d ''status'') TERMINAL_STATES) (\<lambda>st.
     bind_result (compile_from_wire (item d ''compile'')) (\<lambda>comp.
     bind_result (array_of (item d ''cases'')) (\<lambda>raw.
     bind_result (map_result case_from_wire raw) (\<lambda>cases.
     Inr \<lparr>ex_status = st, ex_compile = comp, ex_cases = cases\<rparr>)))))"

section \<open>Jobs on the wire\<close>

text \<open>What a worker sees of a claimed job.\<close>

record wire_job =
  wj_id :: int
  wj_owner_public_id :: string
  wj_filename :: string
  wj_source :: string
  wj_compiler :: string
  wj_time_limit_ms :: int
  wj_memory_limit_mib :: int
  wj_inputs :: "string list"

definition job_view :: "claimed_job \<Rightarrow> wire_job" where
  "job_view c =
     \<lparr>wj_id = j_id (cj_job c), wj_owner_public_id = cj_owner_public_id c,
      wj_filename = j_filename (cj_job c), wj_source = j_source (cj_job c),
      wj_compiler = j_compiler (cj_job c), wj_time_limit_ms = j_time_limit_ms (cj_job c),
      wj_memory_limit_mib = j_memory_limit_mib (cj_job c),
      wj_inputs = map c_input_text (cj_cases c)\<rparr>"

definition job_to_wire :: "wire_job option \<Rightarrow> json" where
  "job_to_wire job =
     (case job of
        None \<Rightarrow> JNull
      | Some j \<Rightarrow>
          JObj [(''id'', JInt (wj_id j)), (''owner_public_id'', JStr (wj_owner_public_id j)),
                (''filename'', JStr (wj_filename j)), (''source'', JStr (wj_source j)),
                (''compiler'', JStr (wj_compiler j)), (''time_limit_ms'', JInt (wj_time_limit_ms j)),
                (''memory_limit_mib'', JInt (wj_memory_limit_mib j)),
                (''cases'', JArr (map (\<lambda>t. JObj [(''input_text'', JStr t)]) (wj_inputs j)))])"

definition input_from_wire :: "json \<Rightarrow> string result" where
  "input_from_wire v = bind_result (exact_object v [''input_text'']) (\<lambda>d. text_of (item d ''input_text''))"

definition job_from_wire :: "json \<Rightarrow> wire_job option result" where
  "job_from_wire v =
     (if v = JNull then Inr None
      else
        bind_result (exact_object v [''id'', ''owner_public_id'', ''filename'', ''source'', ''compiler'', ''time_limit_ms'', ''memory_limit_mib'', ''cases'']) (\<lambda>d.
        bind_result (positive_job_id (item d ''id'')) (\<lambda>i.
        bind_result (wire_uuid (item d ''owner_public_id'')) (\<lambda>owner.
        bind_result (text_of (item d ''filename'')) (\<lambda>filename.
        bind_result (text_of (item d ''source'')) (\<lambda>source.
        bind_result (text_of (item d ''compiler'')) (\<lambda>compiler.
        bind_result (positive_job_id (item d ''time_limit_ms'')) (\<lambda>time.
        bind_result (positive_job_id (item d ''memory_limit_mib'')) (\<lambda>memory.
        bind_result (array_of (item d ''cases'')) (\<lambda>raw.
        bind_result (map_result input_from_wire raw) (\<lambda>inputs.
        Inr (Some \<lparr>wj_id = i, wj_owner_public_id = owner, wj_filename = filename, wj_source = source,
                   wj_compiler = compiler, wj_time_limit_ms = time, wj_memory_limit_mib = memory,
                   wj_inputs = inputs\<rparr>))))))))))))"

section \<open>Requests\<close>

datatype request =
    Claim
  | CancelCheck int
  | Complete int execution_result
  | ReportError int string

definition max_error_chars :: nat where
  "max_error_chars = 16384"

text \<open>The completed request keeps the parsed result, which \<open>_dispatch\<close> parses again.\<close>

definition parse_request :: "json \<Rightarrow> request result" where
  "parse_request v =
     (case v of
        JObj kvs \<Rightarrow>
          (case map_of kvs ''op'' of
             Some (JStr op) \<Rightarrow>
               if op = ''claim'' then bind_result (exact_object v [''op'']) (\<lambda>_. Inr Claim)
               else if op = ''cancel-check'' then
                 bind_result (exact_object v [''op'', ''job_id'']) (\<lambda>d.
                 bind_result (positive_job_id (item d ''job_id'')) (\<lambda>i. Inr (CancelCheck i)))
               else if op = ''complete'' then
                 bind_result (exact_object v [''op'', ''job_id'', ''execution'']) (\<lambda>d.
                 bind_result (positive_job_id (item d ''job_id'')) (\<lambda>i.
                 bind_result (execution_from_wire (item d ''execution'')) (\<lambda>e. Inr (Complete i e))))
               else if op = ''system-error'' then
                 bind_result (exact_object v [''op'', ''job_id'', ''message'']) (\<lambda>d.
                 bind_result (positive_job_id (item d ''job_id'')) (\<lambda>i.
                 bind_result (text_of (item d ''message'')) (\<lambda>m.
                 if length m > max_error_chars then Inl (ValueError ''message too long'')
                 else Inr (ReportError i m))))
               else Inl (ValueError ''unknown operation'')
           | _ \<Rightarrow> Inl (ValueError ''request must have an operation''))
      | _ \<Rightarrow> Inl (ValueError ''request must have an operation''))"

definition request_json :: "request \<Rightarrow> json" where
  "request_json r =
     (case r of
        Claim \<Rightarrow> JObj [(''op'', JStr ''claim'')]
      | CancelCheck i \<Rightarrow> JObj [(''op'', JStr ''cancel-check''), (''job_id'', JInt i)]
      | Complete i e \<Rightarrow>
          JObj [(''op'', JStr ''complete''), (''job_id'', JInt i), (''execution'', execution_to_wire e)]
      | ReportError i m \<Rightarrow>
          JObj [(''op'', JStr ''system-error''), (''job_id'', JInt i), (''message'', JStr m)])"

section \<open>The broker interface and the server\<close>

text \<open>The \<open>JobBroker\<close> protocol: every operation returns or raises, and moves the state.\<close>

record 's broker =
  b_claim :: "'s \<Rightarrow> wire_job option result \<times> 's"
  b_is_cancel_requested :: "int \<Rightarrow> 's \<Rightarrow> bool result \<times> 's"
  b_finish :: "int \<Rightarrow> execution_result \<Rightarrow> 's \<Rightarrow> unit result \<times> 's"
  b_mark_error :: "int \<Rightarrow> string \<Rightarrow> 's \<Rightarrow> unit result \<times> 's"

text \<open>\<open>DatabaseJobBroker\<close>; the clock is read by the claim (0, 1, 2), the completion (3) and the
  error report (4).\<close>

definition database_broker :: "clock \<Rightarrow> db broker" where
  "database_broker clk =
     \<lparr>b_claim = (\<lambda>s. let (c, s') = claim_next_job clk s in (Inr (map_option job_view c), s')),
      b_is_cancel_requested = (\<lambda>i s. (Inr (is_cancel_requested i s), s)),
      b_finish = (\<lambda>i e s. (Inr (), finish_job (clk 3) i e s)),
      b_mark_error = (\<lambda>i m s. (Inr (), mark_job_system_error (clk 4) i m s))\<rparr>"

definition ok_reply :: "(string \<times> json) list \<Rightarrow> json" where
  "ok_reply items = JObj ((''ok'', JBool True) # items)"

definition error_reply :: "string \<Rightarrow> json" where
  "error_reply e = JObj [(''ok'', JBool False), (''error'', JStr e)]"

text \<open>\<open>_dispatch\<close>, with the exception of the broker operation passed on.\<close>

definition dispatch :: "'s broker \<Rightarrow> request \<Rightarrow> 's \<Rightarrow> json result \<times> 's" where
  "dispatch b r s =
     (case r of
        Claim \<Rightarrow>
          let (job, s') = b_claim b s
          in (bind_result job (\<lambda>j. Inr (ok_reply [(''job'', job_to_wire j)])), s')
      | CancelCheck i \<Rightarrow>
          let (c, s') = b_is_cancel_requested b i s
          in (bind_result c (\<lambda>x. Inr (ok_reply [(''cancel_requested'', JBool x)])), s')
      | Complete i e \<Rightarrow>
          let (u, s') = b_finish b i e s in (bind_result u (\<lambda>_. Inr (ok_reply [])), s')
      | ReportError i m \<Rightarrow>
          let (u, s') = b_mark_error b i m s in (bind_result u (\<lambda>_. Inr (ok_reply [])), s'))"

text \<open>The body of \<open>_RequestHandler.handle\<close> for an authorised peer and one complete line.\<close>

definition handle_request :: "'s broker \<Rightarrow> json \<Rightarrow> 's \<Rightarrow> json \<times> 's" where
  "handle_request b v s =
     (case parse_request v of
        Inl _ \<Rightarrow> (error_reply ''invalid_request'', s)
      | Inr r \<Rightarrow>
          (case dispatch b r s of
             (Inr reply, s') \<Rightarrow> (reply, s')
           | (Inl (ValueError _), s') \<Rightarrow> (error_reply ''invalid_request'', s')
           | (Inl _, s') \<Rightarrow> (error_reply ''internal_error'', s')))"

section \<open>One connection\<close>

text \<open>UTF-8 of the code points below 256, a byte as a character.\<close>

definition utf8_char :: "char \<Rightarrow> string" where
  "utf8_char c =
     (let n = of_char c :: nat
      in if n < 128 then [c] else [char_of (192 + n div 64), char_of (128 + n mod 64)])"

definition utf8_encode :: "string \<Rightarrow> string" where
  "utf8_encode s = concat (map utf8_char s)"

datatype frame = Closed | TooLarge | Malformed | Line string

text \<open>The receive loop of \<open>handle\<close>: the chunks are what \<open>recv\<close> returns, an empty chunk is the end of
  the stream.\<close>

fun recv_line :: "nat \<Rightarrow> string \<Rightarrow> string list \<Rightarrow> frame" where
  "recv_line maximum raw [] = Closed"
| "recv_line maximum raw (chunk # chunks) =
     (if chunk = [] then Closed
      else
        let raw' = raw @ chunk
        in if nl \<in> set chunk then
             let line = takeWhile (\<lambda>c. c \<noteq> nl) raw'; remainder = tl (dropWhile (\<lambda>c. c \<noteq> nl) raw')
             in if length line > maximum then TooLarge
                else if remainder \<noteq> [] then Malformed
                else Line line
           else if length raw' > maximum then TooLarge
           else recv_line maximum raw' chunks)"

text \<open>\<open>handle\<close> and \<open>_reply\<close>: the reply actually sent, if any. \<open>loads\<close> is the JSON decoder applied to
  the decoded line, without a value where it raises.\<close>

definition serve_connection ::
    "(string \<Rightarrow> json option) \<Rightarrow> nat \<Rightarrow> bool \<Rightarrow> 's broker \<Rightarrow> string list \<Rightarrow> 's \<Rightarrow> json option \<times> 's" where
  "serve_connection loads maximum authorised b chunks s =
     (let (reply, s') =
        (if \<not> authorised then (Some (error_reply ''unauthorized_peer''), s)
         else case recv_line maximum [] chunks of
                Closed \<Rightarrow> (None, s)
              | TooLarge \<Rightarrow> (Some (error_reply ''message_too_large''), s)
              | Malformed \<Rightarrow> (Some (error_reply ''invalid_request''), s)
              | Line line \<Rightarrow>
                  (case loads line of
                     None \<Rightarrow> (Some (error_reply ''invalid_request''), s)
                   | Some v \<Rightarrow> let (r, s') = handle_request b v s in (Some r, s')))
      in (case reply of
            None \<Rightarrow> None
          | Some r \<Rightarrow> if wire_size r > maximum then None else Some r, s'))"

section \<open>The client\<close>

definition protocol_error :: "string \<Rightarrow> 'a result" where
  "protocol_error m = Inl (RuntimeError m)"

text \<open>The checks of \<open>_call\<close> on a response.\<close>

definition check_response :: "json \<Rightarrow> json result" where
  "check_response v =
     (case v of
        JObj kvs \<Rightarrow>
          (case map_of kvs ''ok'' of
             Some (JBool True) \<Rightarrow> Inr v
           | Some (JBool False) \<Rightarrow>
               (case (exact_object v [''ok'', ''error''], item kvs ''error'') of
                  (Inr _, JStr e) \<Rightarrow> protocol_error (''broker rejected request: '' @ e)
                | _ \<Rightarrow> protocol_error ''broker error response violates schema'')
           | _ \<Rightarrow> protocol_error ''broker response violates schema'')
      | _ \<Rightarrow> protocol_error ''broker response violates schema'')"

text \<open>
  One exchange: the client refuses to send a request above its limit, the server answers an oversized
  request without acting on it, and a reply above the limit is dropped by \<open>_reply\<close>, so that the client
  sees the connection close.
\<close>

definition call :: "nat \<Rightarrow> 's broker \<Rightarrow> json \<Rightarrow> 's \<Rightarrow> json result \<times> 's" where
  "call maximum b v s =
     (if wire_size v > maximum then (protocol_error ''message exceeds configured limit'', s)
      else
        let (reply, s') = handle_request b v s
        in if wire_size reply > maximum then (protocol_error ''broker closed before a response'', s')
           else (check_response reply, s'))"

definition client_claim :: "nat \<Rightarrow> 's broker \<Rightarrow> 's \<Rightarrow> wire_job option result \<times> 's" where
  "client_claim maximum b s =
     (let (r, s') = call maximum b (request_json Claim) s
      in (bind_result r (\<lambda>v. bind_result (exact_object v [''ok'', ''job'']) (\<lambda>d. job_from_wire (item d ''job''))), s'))"

definition client_is_cancel_requested :: "nat \<Rightarrow> 's broker \<Rightarrow> int \<Rightarrow> 's \<Rightarrow> bool result \<times> 's" where
  "client_is_cancel_requested maximum b i s =
     (let (r, s') = call maximum b (request_json (CancelCheck i)) s
      in (bind_result r (\<lambda>v. bind_result (exact_object v [''ok'', ''cancel_requested''])
            (\<lambda>d. boolean_of (item d ''cancel_requested''))), s'))"

definition client_finish :: "nat \<Rightarrow> 's broker \<Rightarrow> int \<Rightarrow> execution_result \<Rightarrow> 's \<Rightarrow> unit result \<times> 's" where
  "client_finish maximum b i e s =
     (let (r, s') = call maximum b (request_json (Complete i e)) s
      in (bind_result r (\<lambda>v. bind_result (exact_object v [''ok'']) (\<lambda>_. Inr ())), s'))"

definition client_mark_error :: "nat \<Rightarrow> 's broker \<Rightarrow> int \<Rightarrow> string \<Rightarrow> 's \<Rightarrow> unit result \<times> 's" where
  "client_mark_error maximum b i m s =
     (let (r, s') = call maximum b (request_json (ReportError i m)) s
      in (bind_result r (\<lambda>v. bind_result (exact_object v [''ok'']) (\<lambda>_. Inr ())), s'))"

text \<open>\<open>UnixJobBrokerClient\<close> talking to a server over the broker \<open>b\<close>.\<close>

definition client_broker :: "nat \<Rightarrow> 's broker \<Rightarrow> 's broker" where
  "client_broker maximum b =
     \<lparr>b_claim = client_claim maximum b, b_is_cancel_requested = client_is_cancel_requested maximum b,
      b_finish = client_finish maximum b, b_mark_error = client_mark_error maximum b\<rparr>"

definition default_max_message_bytes :: nat where
  "default_max_message_bytes = 32 * 1024 * 1024"

end
