(* ===== verification/Broker_Codec.thy ===== *)
theory Broker_Codec
  imports Broker_Wire
begin

text \<open>
  Decoding what was encoded: the schema checks accept exactly the values the encoders produce for
  well-formed jobs, results and requests, and return them unchanged; the text of a message never
  contains the line terminator.
\<close>

named_theorems wire_simps

lemma exact_object_obj [wire_simps]:
  "exact_object (JObj kvs) keys =
     (if set (map fst kvs) = set keys then Inr kvs else Inl (ValueError ''object keys do not match schema''))"
  by (simp add: exact_object_def)

lemma item_Cons [wire_simps]:
  "item ((k, v) # kvs) k' = (if k = k' then v else item kvs k')"
  by (simp add: item_def)

lemma scalar_simps [wire_simps]:
  "text_of (JStr s) = Inr s"
  "boolean_of (JBool b) = Inr b"
  "array_of (JArr vs) = Inr vs"
  "positive_job_id (JInt i) = (if i \<le> 0 then Inl (ValueError ''job_id must be a positive integer'') else Inr i)"
  by (simp_all add: text_of_def boolean_of_def array_of_def positive_job_id_def)

definition natural :: "int option \<Rightarrow> bool" where
  "natural v \<longleftrightarrow> (case v of None \<Rightarrow> True | Some i \<Rightarrow> 0 \<le> i)"

lemma nullable_int_nullable [wire_simps]:
  "nullable_int (nullable v) =
     (if natural v then Inr v else Inl (ValueError ''expected a non-negative integer or null''))"
  by (cases v) (auto simp: nullable_int_def nullable_def natural_def)

lemma one_of_state [wire_simps]:
  "one_of (state_json st) allowed =
     (if st \<in> set allowed then Inr st else Inl (ValueError ''value is outside the allowed enum''))"
proof -
  have "find (\<lambda>x. state_name x = state_name st) xs = (if st \<in> set xs then Some st else None)" for xs
    by (induction xs) auto
  then show ?thesis by (simp add: one_of_def state_json_def text_of_def)
qed

definition compile_fits :: "compile_result \<Rightarrow> bool" where
  "compile_fits c \<longleftrightarrow> cr_status c \<in> set compile_states \<and> natural (cr_exit_code c) \<and> natural (cr_wall_time_ms c)"

definition case_fits :: "case_result \<Rightarrow> bool" where
  "case_fits c \<longleftrightarrow> 0 < ca_position c \<and> terminal (ca_status c) \<and> natural (ca_exit_code c)
     \<and> natural (ca_term_signal c) \<and> natural (ca_wall_time_ms c) \<and> natural (ca_peak_memory_kib c)"

text \<open>The results the schema admits.\<close>

definition execution_fits :: "execution_result \<Rightarrow> bool" where
  "execution_fits e \<longleftrightarrow> terminal (ex_status e) \<and> compile_fits (ex_compile e) \<and> list_all case_fits (ex_cases e)"

lemma compile_round_trip:
  "compile_fits c \<Longrightarrow> compile_from_wire (compile_to_wire c) = Inr c"
  by (simp add: compile_from_wire_def compile_to_wire_def compile_fits_def wire_simps)

lemma case_round_trip: "case_fits c \<Longrightarrow> case_from_wire (case_to_wire c) = Inr c"
  by (simp add: case_from_wire_def case_to_wire_def case_fits_def wire_simps)

lemma compile_reject: "\<not> compile_fits c \<Longrightarrow> \<exists>e. compile_from_wire (compile_to_wire c) = Inl (ValueError e)"
  by (auto simp: compile_from_wire_def compile_to_wire_def compile_fits_def wire_simps)

lemma case_reject: "\<not> case_fits c \<Longrightarrow> \<exists>e. case_from_wire (case_to_wire c) = Inl (ValueError e)"
  by (auto simp: case_from_wire_def case_to_wire_def case_fits_def wire_simps)

lemma cases_reject:
  "\<not> list_all case_fits cs \<Longrightarrow> \<exists>e. map_result case_from_wire (map case_to_wire cs) = Inl (ValueError e)"
proof (induction cs)
  case (Cons c cs)
  show ?case
  proof (cases "case_fits c")
    case True
    with Cons show ?thesis by (auto simp: case_round_trip)
  next
    case False
    with case_reject [OF this] show ?thesis by auto
  qed
qed simp

lemma execution_round_trip:
  assumes "execution_fits e"
  shows "execution_from_wire (execution_to_wire e) = Inr e"
proof -
  have "map_result case_from_wire (map case_to_wire (ex_cases e)) = Inr (map id (ex_cases e))"
    using assms by (intro map_result_map) (auto simp: execution_fits_def list_all_iff case_round_trip)
  with assms show ?thesis
    by (simp add: execution_from_wire_def execution_to_wire_def execution_fits_def wire_simps compile_round_trip)
qed

lemma execution_reject:
  assumes "\<not> execution_fits e"
  shows "\<exists>m. execution_from_wire (execution_to_wire e) = Inl (ValueError m)"
proof (cases "terminal (ex_status e)")
  case True
  show ?thesis
  proof (cases "compile_fits (ex_compile e)")
    case fits: True
    with True assms have "\<not> list_all case_fits (ex_cases e)" by (simp add: execution_fits_def)
    from cases_reject [OF this] True fits show ?thesis
      by (auto simp: execution_from_wire_def execution_to_wire_def wire_simps compile_round_trip)
  next
    case False
    from compile_reject [OF this] True show ?thesis
      by (auto simp: execution_from_wire_def execution_to_wire_def wire_simps)
  qed
qed (auto simp: execution_from_wire_def execution_to_wire_def wire_simps)

definition job_fits :: "wire_job \<Rightarrow> bool" where
  "job_fits j \<longleftrightarrow> 0 < wj_id j \<and> canonical_uuid (wj_owner_public_id j) \<and> 0 < wj_time_limit_ms j \<and> 0 < wj_memory_limit_mib j"

lemma wire_uuid_simps [wire_simps]:
  "wire_uuid (JStr s) = (if canonical_uuid s then Inr s else Inl (ValueError ''expected canonical UUID''))"
  by (simp add: wire_uuid_def require_uuid_def wire_simps)

lemma inputs_round_trip:
  "map_result input_from_wire (map (\<lambda>t. JObj [(''input_text'', JStr t)]) ts) = Inr ts"
proof -
  have "map_result input_from_wire (map (\<lambda>t. JObj [(''input_text'', JStr t)]) ts) = Inr (map id ts)"
    by (intro map_result_map) (simp add: input_from_wire_def wire_simps)
  then show ?thesis by simp
qed

lemma job_round_trip:
  assumes "list_all job_fits (case job of None \<Rightarrow> [] | Some j \<Rightarrow> [j])"
  shows "job_from_wire (job_to_wire job) = Inr job"
proof (cases job)
  case None
  then show ?thesis by (simp add: job_from_wire_def job_to_wire_def)
next
  case (Some j)
  with assms show ?thesis
    by (simp add: job_from_wire_def job_to_wire_def job_fits_def wire_simps inputs_round_trip)
qed

section \<open>Requests\<close>

definition request_fits :: "request \<Rightarrow> bool" where
  "request_fits r \<longleftrightarrow>
     (case r of
        Claim \<Rightarrow> True
      | CancelCheck i \<Rightarrow> 0 < i
      | Complete i e \<Rightarrow> 0 < i \<and> execution_fits e
      | ReportError i m \<Rightarrow> 0 < i \<and> length m \<le> max_error_chars)"

lemma request_round_trip: "request_fits r \<Longrightarrow> parse_request (request_json r) = Inr r"
  by (cases r)
     (simp_all add: parse_request_def request_json_def request_fits_def wire_simps execution_round_trip)

lemma request_reject:
  assumes "\<not> request_fits r"
  shows "\<exists>m. parse_request (request_json r) = Inl (ValueError m)"
proof (cases r)
  case (Complete i e)
  show ?thesis
  proof (cases "i \<le> 0")
    case False
    with Complete assms have "\<not> execution_fits e" by (simp add: request_fits_def)
    from execution_reject [OF this] Complete False show ?thesis
      by (auto simp: parse_request_def request_json_def wire_simps)
  qed (simp add: Complete parse_request_def request_json_def wire_simps)
qed (use assms in \<open>auto simp: parse_request_def request_json_def request_fits_def wire_simps\<close>)

text \<open>A parsed request always fits: the schema is all that reaches the broker operations.\<close>

lemma one_of_in: "one_of v allowed = Inr st \<Longrightarrow> st \<in> set allowed"
  by (auto simp: one_of_def split: option.splits dest: find_Some_filter)

lemma positive_job_id_pos: "positive_job_id v = Inr i \<Longrightarrow> 0 < i"
  by (auto simp: positive_job_id_def split: json.splits if_splits)

lemma nullable_int_natural: "nullable_int v = Inr n \<Longrightarrow> natural n"
  by (auto simp: nullable_int_def natural_def split: json.splits if_splits)

lemmas check_results = one_of_in positive_job_id_pos nullable_int_natural

lemma case_from_wire_fits: "case_from_wire v = Inr c \<Longrightarrow> case_fits c"
  by (auto simp: case_from_wire_def case_fits_def dest: check_results)

lemma compile_from_wire_fits: "compile_from_wire v = Inr c \<Longrightarrow> compile_fits c"
  by (auto simp: compile_from_wire_def compile_fits_def dest: check_results)

lemma execution_from_wire_fits:
  assumes "execution_from_wire v = Inr e"
  shows "execution_fits e"
proof -
  from assms obtain d raw where "one_of (item d ''status'') TERMINAL_STATES = Inr (ex_status e)"
    and "compile_from_wire (item d ''compile'') = Inr (ex_compile e)"
    and cases: "map_result case_from_wire raw = Inr (ex_cases e)"
    by (auto simp: execution_from_wire_def)
  moreover have "list_all case_fits (ex_cases e)"
    unfolding list_all_iff using map_result_Inr_all [OF cases] case_from_wire_fits by blast
  ultimately show ?thesis
    by (auto simp: execution_fits_def dest: one_of_in compile_from_wire_fits)
qed

lemma parse_request_cases:
  assumes "parse_request v = Inr r"
  obtains "r = Claim"
  | d i where "positive_job_id (item d ''job_id'') = Inr i" "r = CancelCheck i"
  | d i e where "positive_job_id (item d ''job_id'') = Inr i"
      "execution_from_wire (item d ''execution'') = Inr e" "r = Complete i e"
  | d i m where "positive_job_id (item d ''job_id'') = Inr i" "length m \<le> max_error_chars" "r = ReportError i m"
proof -
  from assms obtain kvs oper where v: "v = JObj kvs" and oper: "map_of kvs ''op'' = Some (JStr oper)"
    by (auto simp: parse_request_def split: json.splits option.splits)
  consider "oper = ''claim''" | "oper = ''cancel-check''" | "oper = ''complete''" | "oper = ''system-error''"
    using assms v oper by (auto simp: parse_request_def split: if_splits)
  then show ?thesis
    using assms that unfolding parse_request_def v json.case oper option.case
    by cases (auto split: if_splits)
qed

lemma parse_request_fits: "parse_request v = Inr r \<Longrightarrow> request_fits r"
  by (erule parse_request_cases)
     (auto simp: request_fits_def dest: positive_job_id_pos execution_from_wire_fits)

section \<open>The text of a message\<close>

lemma nl_code: "(of_char nl :: nat) = 10"
  by simp

lemma nat_text_no_nl: "nl \<notin> set (nat_text n)"
  using nat_text_digits [of nl n] by (auto simp: is_digit_def)

lemma lower_hex_no_nl: "lower_hex c \<Longrightarrow> c \<noteq> nl"
  by (auto simp: lower_hex_def)

lemma escape_char_no_nl: "nl \<notin> set (escape_char c)"
proof -
  have "nl \<notin> set (hex_fixed 4 n)" for n using hex_fixed_lower lower_hex_no_nl by blast
  then show ?thesis unfolding escape_char_def by (auto split: if_splits)
qed

lemma string_text_no_nl: "nl \<notin> set (string_text s)"
  using escape_char_no_nl by (auto simp: string_text_def)

lemma set_join_on: "set (join_on c ws) \<subseteq> insert c (\<Union> (set ` set ws))"
  by (induction c ws rule: join_on.induct) auto

lemma nl_comma: "nl \<noteq> CHR '',''"
proof
  assume "nl = CHR '',''"
  then have "(of_char nl :: nat) = of_char (CHR '','')" by (rule arg_cong)
  then show False by simp
qed

lemma join_on_absent:
  assumes "x \<noteq> c" and "\<And>w. w \<in> set ws \<Longrightarrow> x \<notin> set w"
  shows "x \<notin> set (join_on c ws)"
  using assms set_join_on [of c ws] by blast

text \<open>Floats never contain the terminator: their text is that of a Python float.\<close>

fun floats_clean :: "json \<Rightarrow> bool" where
  "floats_clean (JFloat t) = (nl \<notin> set t)"
| "floats_clean (JArr vs) = list_all floats_clean vs"
| "floats_clean (JObj kvs) = list_all floats_clean (map snd kvs)"
| "floats_clean _ = True"

lemma dumps_no_nl: "floats_clean v \<Longrightarrow> nl \<notin> set (dumps v)"
proof (induction v rule: dumps.induct)
  case (3 i)
  then show ?case using nat_text_no_nl by (simp add: int_text_def)
next
  case (5 s)
  then show ?case by (simp add: string_text_no_nl)
next
  case (6 vs)
  have "nl \<notin> set w" if "w \<in> set (map dumps vs)" for w
    using that 6 by (auto simp: list_all_iff)
  then have "nl \<notin> set (join_on CHR '','' (map dumps vs))"
    by (rule join_on_absent [rotated]) (simp_all add: nl_comma)
  then show ?case by simp
next
  case (7 kvs)
  have "nl \<notin> set (dumps v)" if "(k, v) \<in> set kvs" for k v
    using that 7 by (force simp: list_all_iff)
  then have "nl \<notin> set w" if "w \<in> set (map (\<lambda>(k, v). string_text k @ CHR '':'' # dumps v) kvs)" for w
    using that string_text_no_nl by auto
  then have "nl \<notin> set (join_on CHR '','' (map (\<lambda>(k, v). string_text k @ CHR '':'' # dumps v) kvs))"
    by (rule join_on_absent [rotated]) (simp_all add: nl_comma)
  then show ?case by simp
qed auto

end
