(* ===== verification/Broker_Properties.thy ===== *)
theory Broker_Properties
  imports Broker_Codec Queue_Sample
begin

text \<open>
  What the broker promises: any fragmentation of a request is reassembled, what one side encodes the
  other decodes, a client over the socket is as good as the database itself, and whatever a worker
  sends only takes steps of the job queue; and the two places where a worker's message is lost.
\<close>

section \<open>Framing\<close>

lemma utf8_char_no_nl: "c \<noteq> nl \<Longrightarrow> nl \<notin> set (utf8_char c)"
proof
  assume c: "c \<noteq> nl" and "nl \<in> set (utf8_char c)"
  then consider "nl = char_of (192 + (of_char c :: nat) div 64)" | "nl = char_of (128 + (of_char c :: nat) mod 64)"
    by (auto simp: utf8_char_def Let_def split: if_splits)
  then have "(10 :: nat) = (192 + of_char c div 64) mod 256 \<or> (10 :: nat) = (128 + of_char c mod 64) mod 256"
    by cases (metis nl_code of_char_of)+
  moreover have "(of_char c :: nat) < 256" by (metis of_char_mod_256 mod_less_divisor zero_less_numeral)
  ultimately show False by auto
qed

lemma utf8_no_nl: "nl \<notin> set s \<Longrightarrow> nl \<notin> set (utf8_encode s)"
proof -
  assume "nl \<notin> set s"
  then have "nl \<notin> set (utf8_char c)" if "c \<in> set s" for c using that utf8_char_no_nl by metis
  then show ?thesis by (simp add: utf8_encode_def)
qed

lemma utf8_encode_length: "length (utf8_encode s) = utf8_length s"
  by (induction s) (auto simp: utf8_encode_def utf8_length_def utf8_char_def Let_def)

lemma recv_line_whole:
  assumes "concat chunks = line @ [nl]" and "nl \<notin> set line" and "[] \<notin> set chunks" and "nl \<notin> set raw"
  shows "recv_line maximum raw chunks
    = (if length (raw @ line) \<le> maximum then Line (raw @ line) else TooLarge)"
  using assms
proof (induction chunks arbitrary: raw line)
  case (Cons chunk chunks)
  show ?case
  proof (cases "nl \<in> set chunk")
    case True
    then obtain xs ys where split: "chunk = xs @ nl # ys" "nl \<notin> set xs" by (meson split_list_first)
    have "takeWhile (\<lambda>c. c \<noteq> nl) (xs @ nl # ys @ concat chunks) = xs"
      using split(2) by (auto simp: takeWhile_append)
    moreover have "takeWhile (\<lambda>c. c \<noteq> nl) (line @ [nl]) = line"
      using Cons.prems(2) by (auto simp: takeWhile_append)
    moreover have whole: "xs @ nl # ys @ concat chunks = line @ [nl]"
      using Cons.prems(1) split(1) by simp
    ultimately have "xs = line" by simp
    with whole have "ys = [] \<and> concat chunks = []" by simp
    note \<open>xs = line\<close> this
    with split Cons.prems(2,4) show ?thesis
      by (auto simp: Let_def takeWhile_append dropWhile_append)
  next
    case False
    from Cons.prems(1) False obtain rest where rest: "line = chunk @ rest" "concat chunks = rest @ [nl]"
      by (auto simp: append_eq_append_conv2 append_eq_Cons_conv)
    from Cons.prems rest have "recv_line maximum (raw @ chunk) chunks
        = (if length ((raw @ chunk) @ rest) \<le> maximum then Line ((raw @ chunk) @ rest) else TooLarge)"
      by (intro Cons.IH) (auto simp: False)
    with Cons.prems(3) False rest show ?thesis by (auto simp: Let_def)
  qed
qed simp

text \<open>A request arrives as it was sent, however the stream cuts it. For a JSON value sent as one
  line to an authorised peer's connection, every division of the bytes into chunks gives the reply
  and the effect of handling the value when the line is within the limit, and the size error without
  any effect when it is not.\<close>
theorem fragmented_request_served:
  assumes "concat chunks = utf8_encode (dumps v) @ [nl]" and "[] \<notin> set chunks"
    and "floats_clean v" and "loads (utf8_encode (dumps v)) = Some v" and "64 \<le> maximum"
  shows "serve_connection loads maximum True b chunks s
    = (if wire_size v \<le> maximum
       then (let (r, s') = handle_request b v s in (if wire_size r > maximum then None else Some r, s'))
       else (Some (error_reply ''message_too_large''), s))"
proof -
  have "nl \<notin> set (utf8_encode (dumps v))" using dumps_no_nl [OF assms(3)] by (rule utf8_no_nl)
  from recv_line_whole [OF assms(1) this assms(2), of "[]" maximum]
  have line: "recv_line maximum [] chunks
      = (if wire_size v \<le> maximum then Line (utf8_encode (dumps v)) else TooLarge)"
    by (simp add: utf8_encode_length wire_size_def)
  have "wire_size (error_reply ''message_too_large'') = 40" by code_simp
  with assms(4,5) line show ?thesis by (simp add: serve_connection_def Let_def split: prod.splits)
qed

theorem fragmented_request_served_witness:
  "serve_connection (\<lambda>_. Some (request_json Claim)) 64 True (database_broker (at 0))
     [''{\"op\":'', ''\"claim\"}'', [nl]] sample_db = (Some (ok_reply [(''job'', JNull)]), sample_db)"
proof -
  have parts: "concat [''{\"op\":'', ''\"claim\"}'', [nl]] = utf8_encode (dumps (request_json Claim)) @ [nl]"
    "floats_clean (request_json Claim)" "wire_size (request_json Claim) \<le> 64"
    "wire_size (ok_reply [(''job'', JNull)]) \<le> 64"
    by code_simp+
  have "handle_request (database_broker (at 0)) (request_json Claim) sample_db = (ok_reply [(''job'', JNull)], sample_db)"
  proof -
    have "next_candidate sample_db (at 0 0) = None" by code_simp
    then show ?thesis
      by (simp add: handle_request_def request_round_trip request_fits_def dispatch_def
          database_broker_def claim_next_job_def job_to_wire_def)
  qed
  with fragmented_request_served [where v = "request_json Claim" and maximum = 64 and loads = "\<lambda>_. Some (request_json Claim)"
      and b = "database_broker (at 0)" and s = sample_db, OF parts(1) _ parts(2)] parts(3,4)
  show ?thesis by simp
qed

section \<open>Round trips\<close>

text \<open>A result the runner reports crosses the wire unchanged exactly when it fits the schema
  (terminal statuses, a compile status of the three the schema lists, non-negative numbers, positive
  positions); any other result is refused with a value error.\<close>
theorem execution_wire_round_trip:
  "(execution_from_wire (execution_to_wire e) = Inr e \<longleftrightarrow> execution_fits e)
   \<and> (execution_fits e \<or> (\<exists>m. execution_from_wire (execution_to_wire e) = Inl (ValueError m)))"
  using execution_round_trip execution_reject by force

text \<open>A claimed job crosses the wire unchanged: for a positive id and limits and a canonical owner
  id the worker decodes exactly the fields and the inputs, in order, that the server sent.\<close>
theorem job_wire_round_trip:
  assumes "job_fits j"
  shows "job_from_wire (job_to_wire (Some j)) = Inr (Some j) \<and> job_from_wire (job_to_wire None) = Inr None"
  using assms job_round_trip [of "Some j"] job_round_trip [of None] by simp

definition sample_wire_job :: wire_job where
  "sample_wire_job =
     \<lparr>wj_id = 1, wj_owner_public_id = ''00000000-0000-0000-0000-000000000000'', wj_filename = ''a.cpp'',
      wj_source = [], wj_compiler = ''g'', wj_time_limit_ms = 1000, wj_memory_limit_mib = 64,
      wj_inputs = [''1'', ''2'']\<rparr>"

lemma sample_wire_fits: "job_fits sample_wire_job"
proof -
  have "canonical_uuid (wj_owner_public_id sample_wire_job)" by (rule canonical_shape_uuid) code_simp
  then show ?thesis by (simp add: job_fits_def sample_wire_job_def)
qed

theorem job_wire_round_trip_witness:
  "job_from_wire (job_to_wire (Some sample_wire_job)) = Inr (Some sample_wire_job)"
  using job_wire_round_trip [OF sample_wire_fits] by simp

section \<open>The client refines the broker\<close>

lemma call_ok:
  assumes "request_fits r" and "wire_size (request_json r) \<le> maximum"
    and "dispatch b r s = (Inr (ok_reply items), s')" and "wire_size (ok_reply items) \<le> maximum"
  shows "call maximum b (request_json r) s = (Inr (ok_reply items), s')"
  using assms
  by (simp add: call_def handle_request_def request_round_trip check_response_def ok_reply_def)

lemma small_replies:
  "wire_size (ok_reply []) = 11"
  "wire_size (ok_reply [(''cancel_requested'', JBool x)]) \<le> 36"
proof -
  show "wire_size (ok_reply []) = 11" by code_simp
  have "wire_size (ok_reply [(''cancel_requested'', JBool True)]) \<le> 36"
    "wire_size (ok_reply [(''cancel_requested'', JBool False)]) \<le> 36" by code_simp+
  then show "wire_size (ok_reply [(''cancel_requested'', JBool x)]) \<le> 36" by (cases x) simp_all
qed

lemma ok_reply_simps [wire_simps]:
  "exact_object (ok_reply items) keys =
     (if set (map fst ((''ok'', JBool True) # items)) = set keys then Inr ((''ok'', JBool True) # items)
      else Inl (ValueError ''object keys do not match schema''))"
  by (simp add: ok_reply_def wire_simps)

text \<open>C14: over the socket a worker gets the same broker. When the server's broker answers an operation,
  the client returns the same answer and leaves the same state, for every result and job that fits
  the schema and every message within the limit (which is at least 64 bytes).\<close>
theorem client_refines_broker:
  assumes "64 \<le> maximum" and "0 < i"
  shows "(\<forall>job s'. b_claim b s = (Inr job, s') \<and> (\<forall>j. job = Some j \<longrightarrow> job_fits j)
        \<and> wire_size (ok_reply [(''job'', job_to_wire job)]) \<le> maximum
      \<longrightarrow> b_claim (client_broker maximum b) s = (Inr job, s'))
    \<and> (\<forall>x s'. b_is_cancel_requested b i s = (Inr x, s') \<and> wire_size (request_json (CancelCheck i)) \<le> maximum
      \<longrightarrow> b_is_cancel_requested (client_broker maximum b) i s = (Inr x, s'))
    \<and> (\<forall>e s'. b_finish b i e s = (Inr (), s') \<and> execution_fits e \<and> wire_size (request_json (Complete i e)) \<le> maximum
      \<longrightarrow> b_finish (client_broker maximum b) i e s = (Inr (), s'))
    \<and> (\<forall>m s'. b_mark_error b i m s = (Inr (), s') \<and> length m \<le> max_error_chars
        \<and> wire_size (request_json (ReportError i m)) \<le> maximum
      \<longrightarrow> b_mark_error (client_broker maximum b) i m s = (Inr (), s'))"
proof (intro conjI allI impI; elim conjE)
  fix job s' assume run: "b_claim b s = (Inr job, s')" and fits: "\<forall>j. job = Some j \<longrightarrow> job_fits j"
    and size: "wire_size (ok_reply [(''job'', job_to_wire job)]) \<le> maximum"
  have "wire_size (request_json Claim) = 14" by code_simp
  with assms have "call maximum b (request_json Claim) s = (Inr (ok_reply [(''job'', job_to_wire job)]), s')"
    by (intro call_ok size) (simp_all add: request_fits_def dispatch_def run)
  moreover have "job_from_wire (job_to_wire job) = Inr job"
    using fits by (intro job_round_trip) (auto split: option.split)
  ultimately show "b_claim (client_broker maximum b) s = (Inr job, s')"
    by (simp add: client_broker_def client_claim_def wire_simps insert_commute)
next
  fix x s' assume run: "b_is_cancel_requested b i s = (Inr x, s')"
    and size: "wire_size (request_json (CancelCheck i)) \<le> maximum"
  have "call maximum b (request_json (CancelCheck i)) s = (Inr (ok_reply [(''cancel_requested'', JBool x)]), s')"
    using assms small_replies(2) [of x] by (intro call_ok size) (simp_all add: request_fits_def dispatch_def run)
  then show "b_is_cancel_requested (client_broker maximum b) i s = (Inr x, s')"
    by (simp add: client_broker_def client_is_cancel_requested_def wire_simps insert_commute)
next
  fix e s' assume run: "b_finish b i e s = (Inr (), s')" and fits: "execution_fits e"
    and size: "wire_size (request_json (Complete i e)) \<le> maximum"
  have "call maximum b (request_json (Complete i e)) s = (Inr (ok_reply []), s')"
    using assms fits small_replies(1) by (intro call_ok size) (simp_all add: request_fits_def dispatch_def run)
  then show "b_finish (client_broker maximum b) i e s = (Inr (), s')"
    by (simp add: client_broker_def client_finish_def wire_simps)
next
  fix m s' assume run: "b_mark_error b i m s = (Inr (), s')" and fits: "length m \<le> max_error_chars"
    and size: "wire_size (request_json (ReportError i m)) \<le> maximum"
  have "call maximum b (request_json (ReportError i m)) s = (Inr (ok_reply []), s')"
    using assms fits small_replies(1) by (intro call_ok size) (simp_all add: request_fits_def dispatch_def run)
  then show "b_mark_error (client_broker maximum b) i m s = (Inr (), s')"
    by (simp add: client_broker_def client_mark_error_def wire_simps)
qed

theorem client_refines_broker_witness:
  "b_is_cancel_requested (client_broker 64 (database_broker (at 0))) 1 claimed_db = (Inr False, claimed_db)"
proof -
  have facts: "is_cancel_requested 1 claimed_db = False" "wire_size (request_json (CancelCheck 1)) \<le> 64"
    by code_simp+
  have "b_is_cancel_requested (database_broker (at 0)) 1 claimed_db = (Inr False, claimed_db)"
    by (simp add: database_broker_def facts(1))
  with client_refines_broker [of 64 1 "database_broker (at 0)" claimed_db, THEN conjunct2, THEN conjunct1,
      rule_format, of False claimed_db] facts(2)
  show ?thesis by simp
qed

section \<open>What a worker can do\<close>

lemma handle_request_steps: "queue_step\<^sup>*\<^sup>* s (snd (handle_request (database_broker clk) v s))"
proof (cases "parse_request v")
  case (Inl e)
  then show ?thesis by (simp add: handle_request_def)
next
  case (Inr r)
  then have fits: "request_fits r" by (rule parse_request_fits)
  have "queue_step\<^sup>*\<^sup>* s (snd (dispatch (database_broker clk) r s))"
  proof (cases r)
    case Claim
    obtain c s' where run: "claim_next_job clk s = (c, s')" by fastforce
    then have "queue_step s s'" by (rule queue_step.claim)
    then show ?thesis by (auto simp: Claim dispatch_def database_broker_def run)
  next
    case (Complete i e)
    with fits have "queue_step s (finish_job (clk 3) i e s)"
      by (intro queue_step.finish) (simp add: request_fits_def execution_fits_def)
    then show ?thesis by (auto simp: Complete dispatch_def database_broker_def)
  next
    case (ReportError i m)
    have "queue_step s (mark_job_system_error (clk 4) i m s)" by (rule queue_step.fail)
    then show ?thesis by (auto simp: ReportError dispatch_def database_broker_def)
  qed (simp add: dispatch_def database_broker_def)
  then show ?thesis
    by (auto simp: handle_request_def Inr split: prod.splits sum.splits py_error.splits)
qed

text \<open>Whatever JSON a worker sends, the request handler over the database only takes steps of the
  job queue (so every guarantee about reachable queue states survives a faulty worker), and a
  request outside the schema changes nothing and is answered as invalid.\<close>
theorem worker_request_safe:
  "queue_step\<^sup>*\<^sup>* s (snd (handle_request (database_broker clk) v s))
   \<and> (is_ok (parse_request v) \<or> handle_request (database_broker clk) v s = (error_reply ''invalid_request'', s))"
  using handle_request_steps by (auto simp: handle_request_def split: sum.splits)

section \<open>Lost messages\<close>

text \<open>A compile result with a negative exit code cannot be reported. The schema admits only
  non-negative numbers, while a compiler killed by a signal has the exit code minus the signal
  number; the completion is refused and the state is unchanged, so the diagnostics are lost.\<close>
theorem negative_exit_code_refused:
  assumes "cr_exit_code (ex_compile e) = Some n" and "n < 0"
  shows "snd (b_finish (client_broker maximum b) i e s) = s
    \<and> (\<exists>err. fst (b_finish (client_broker maximum b) i e s) = Inl err)"
proof -
  have "\<not> request_fits (Complete i e)"
    using assms by (simp add: request_fits_def execution_fits_def compile_fits_def natural_def)
  then obtain m where "parse_request (request_json (Complete i e)) = Inl (ValueError m)"
    using request_reject by blast
  then show ?thesis
    by (simp add: client_broker_def client_finish_def call_def handle_request_def protocol_error_def Let_def
        check_response_def error_reply_def exact_object_def item_def)
qed

definition killed_compile :: execution_result where
  "killed_compile =
     \<lparr>ex_status = CompileError,
      ex_compile = \<lparr>cr_status = CompileError, cr_stdout = [], cr_stderr = ''t'', cr_exit_code = Some (- 9),
                    cr_wall_time_ms = Some 30000, cr_output_truncated = False\<rparr>,
      ex_cases = []\<rparr>"

theorem negative_exit_code_refused_witness:
  "snd (b_finish (client_broker default_max_message_bytes (database_broker (at 60))) 1 killed_compile claimed_db)
     = claimed_db"
proof -
  have "cr_exit_code (ex_compile killed_compile) = Some (- 9)" by (simp add: killed_compile_def)
  then show ?thesis by (rule negative_exit_code_refused [THEN conjunct1]) simp
qed

lemma utf8_length_append [simp]: "utf8_length (s @ t) = utf8_length s + utf8_length t"
  by (simp add: utf8_length_def)

lemma utf8_length_Cons [simp]:
  "utf8_length (c # s) = (if (of_char c :: nat) < 128 then 1 else 2) + utf8_length s"
  by (simp add: utf8_length_def)

lemma utf8_length_Nil [simp]: "utf8_length [] = 0"
  by (simp add: utf8_length_def)

lemma string_text_size: "2 * count_list s nl \<le> utf8_length (string_text s)"
proof -
  have "2 * count_list s nl \<le> utf8_length (concat (map escape_char s))"
    by (induction s) (auto simp: escape_char_def)
  then show ?thesis by (simp add: string_text_def)
qed

lemma join_on_size: "sum_list (map utf8_length ws) \<le> utf8_length (join_on c ws)"
  by (induction c ws rule: join_on.induct) auto

lemma inputs_size:
  "sum_list (map (\<lambda>t. 2 * count_list t nl) ts)
     \<le> utf8_length (dumps (JArr (map (\<lambda>t. JObj [(''input_text'', JStr t)]) ts)))"
proof -
  let ?obj = "\<lambda>t. JObj [(''input_text'', JStr t)]"
  have "2 * count_list t nl \<le> utf8_length (dumps (?obj t))" for t
    using string_text_size [of t] by simp
  then have "sum_list (map (\<lambda>t. 2 * count_list t nl) ts) \<le> sum_list (map utf8_length (map (\<lambda>t. dumps (?obj t)) ts))"
    by (simp add: comp_def sum_list_mono del: dumps.simps)
  also have "\<dots> \<le> utf8_length (join_on CHR '','' (map (\<lambda>t. dumps (?obj t)) ts))" by (rule join_on_size)
  finally show ?thesis by (simp add: comp_def)
qed

lemma claim_reply_size:
  "sum_list (map (\<lambda>t. 2 * count_list t nl) (wj_inputs j)) \<le> wire_size (ok_reply [(''job'', job_to_wire (Some j))])"
  using inputs_size [of "wj_inputs j"]
  by (simp add: wire_size_def ok_reply_def job_to_wire_def)

text \<open>A claim whose reply is too large loses the job. When the text of the claimed job exceeds the
  message limit (here because each line break of an input takes two bytes on the wire), the server
  commits the claim and drops the reply: the worker sees an error, no worker has the job, and its row
  is compiling from then on. Seventeen inputs of line breaks, each within the accepted size, exceed
  the default limit.\<close>
theorem oversized_claim_lost:
  assumes "claim_next_job clk s = (Some c, s')"
    and "maximum < sum_list (map (\<lambda>t. 2 * count_list t nl) (map c_input_text (cj_cases c)))"
    and "14 \<le> maximum"
  shows "b_claim (client_broker maximum (database_broker clk)) s
      = (Inl (RuntimeError ''broker closed before a response''), s')
    \<and> (\<exists>j \<in> set (t_rows (jobs s')). j_id j = j_id (cj_job c) \<and> j_status j = Compiling)
    \<and> default_max_message_bytes
        < sum_list (map (\<lambda>t. 2 * count_list t nl) (replicate 17 (replicate (nat MAX_INPUT_BYTES) nl)))"
proof (intro conjI)
  have "maximum < wire_size (ok_reply [(''job'', job_to_wire (Some (job_view c)))])"
    using assms(2) claim_reply_size [of "job_view c"] by (simp add: job_view_def comp_def)
  moreover have "wire_size (request_json Claim) = 14" by code_simp
  ultimately show "b_claim (client_broker maximum (database_broker clk)) s
      = (Inl (RuntimeError ''broker closed before a response''), s')"
    using assms(1,3)
    by (simp add: client_broker_def client_claim_def call_def handle_request_def request_round_trip
        request_fits_def dispatch_def database_broker_def protocol_error_def)
  from claimed_row [OF assms(1)]
  show "\<exists>j \<in> set (t_rows (jobs s')). j_id j = j_id (cj_job c) \<and> j_status j = Compiling" by metis
  have "count_list (replicate n nl) nl = n" for n by (induction n) auto
  then show "default_max_message_bytes
        < sum_list (map (\<lambda>t. 2 * count_list t nl) (replicate 17 (replicate (nat MAX_INPUT_BYTES) nl)))"
    by (simp add: sum_list_replicate default_max_message_bytes_def MAX_INPUT_BYTES_def)
qed

definition breaks_db :: db where
  "breaks_db = (three_jobs [sample_job 1 1 64 1 Queued None])
     \<lparr>job_cases := insert_cases 1 1 [replicate 9 nl] empty_table\<rparr>"

theorem oversized_claim_lost_witness:
  "b_claim (client_broker 14 (database_broker (at 40))) breaks_db
     = (Inl (RuntimeError ''broker closed before a response''), snd (claim_next_job (at 40) breaks_db))"
proof -
  let ?c = "the (fst (claim_next_job (at 40) breaks_db))"
  have facts: "fst (claim_next_job (at 40) breaks_db) \<noteq> None"
    "14 < sum_list (map (\<lambda>t. 2 * count_list t nl) (map c_input_text (cj_cases ?c)))"
    by code_simp+
  then have "claim_next_job (at 40) breaks_db = (Some ?c, snd (claim_next_job (at 40) breaks_db))"
    by (auto simp: prod_eq_iff)
  from oversized_claim_lost [OF this facts(2)] show ?thesis by simp
qed

end
