(* ===== verification/Worker.thy ===== *)
theory Worker
  imports Broker_Properties
begin

text \<open>
  The job worker (\<open>worker.py\<close>) against the interface it is given (\<open>broker.JobBroker\<close>). The laws of the
  interface are the assumptions of the locale \<open>job_broker\<close>; the worker's guarantee is proved there
  once, and the locale is interpreted by the broker on the database and by the client that talks to it
  over the socket. The runner is a function of the job and the state, because other processes work
  on the database while it runs.
\<close>

section \<open>The worker\<close>

text \<open>What the runner returns or raises; an exception is the text of its type and message.\<close>

type_synonym run_outcome = "string + execution_result"

definition report_error ::
    "'s broker \<Rightarrow> int \<Rightarrow> string \<Rightarrow> 's \<Rightarrow> int option result \<times> 's" where
  "report_error b i m s =
     (let (r, s') = b_mark_error b i m s in (bind_result r (\<lambda>_. Inr (Some i)), s'))"

text \<open>\<open>process_one\<close>; \<open>describe\<close> is the f-string that prints an exception.\<close>

definition process_one ::
    "(py_error \<Rightarrow> string) \<Rightarrow> 's broker \<Rightarrow> (wire_job \<Rightarrow> 's \<Rightarrow> run_outcome \<times> 's) \<Rightarrow> 's \<Rightarrow> int option result \<times> 's" where
  "process_one describe b run s =
     (case b_claim b s of
        (Inl e, s') \<Rightarrow> (Inl e, s')
      | (Inr None, s') \<Rightarrow> (Inr None, s')
      | (Inr (Some job), s') \<Rightarrow>
          (case run job s' of
             (Inl m, s'') \<Rightarrow> report_error b (wj_id job) m s''
           | (Inr ex, s'') \<Rightarrow>
               (case b_finish b (wj_id job) ex s'' of
                  (Inr _, s3) \<Rightarrow> (Inr (Some (wj_id job)), s3)
                | (Inl e, s3) \<Rightarrow> report_error b (wj_id job) (describe e) s3)))"

section \<open>The interface\<close>

text \<open>
  \<open>moves\<close> is what may happen to the state, by this worker or by others, and \<open>status\<close> the status of a
  job in a state. A claim, a completion with a terminal result and an error report are moves; a
  claimed job exists and keeps existing; after a successful completion or report its status is the
  reported one.
\<close>

locale job_broker =
  fixes b :: "'s broker"
    and moves :: "'s \<Rightarrow> 's \<Rightarrow> bool"
    and status :: "'s \<Rightarrow> int \<Rightarrow> job_state option"
  assumes moves_trans: "moves s s' \<Longrightarrow> moves s' s'' \<Longrightarrow> moves s s''"
    and status_kept: "moves s s' \<Longrightarrow> status s i \<noteq> None \<Longrightarrow> status s' i \<noteq> None"
    and claim_moves: "b_claim b s = (r1, s') \<Longrightarrow> moves s s'"
    and claim_exists: "b_claim b s = (Inr (Some job), s') \<Longrightarrow> status s' (wj_id job) \<noteq> None"
    and finish_moves: "terminal (ex_status ex) \<Longrightarrow> b_finish b i ex s = (r2, s') \<Longrightarrow> moves s s'"
    and finish_status: "b_finish b i ex s = (Inr (), s') \<Longrightarrow> status s i \<noteq> None \<Longrightarrow> status s' i = Some (ex_status ex)"
    and mark_moves: "b_mark_error b i m s = (r2, s') \<Longrightarrow> moves s s'"
    and mark_status: "b_mark_error b i m s = (Inr (), s') \<Longrightarrow> status s i \<noteq> None \<Longrightarrow> status s' i = Some SystemError"
begin

lemma report_error_ends:
  assumes "report_error b i m s = (r, s')" and "status s i \<noteq> None"
  shows "moves s s'" and "r = Inr (Some j) \<Longrightarrow> j = i \<and> status s' i = Some SystemError" and "r \<noteq> Inr None"
proof -
  from assms(1) obtain r1 where mark: "b_mark_error b i m s = (r1, s')" "r = bind_result r1 (\<lambda>_. Inr (Some i))"
    by (auto simp: report_error_def Let_def split: prod.splits)
  show "moves s s'" using mark_moves [OF mark(1)] .
  show "j = i \<and> status s' i = Some SystemError" if "r = Inr (Some j)"
    using that mark mark_status [of i m s s'] assms(2) by auto
  show "r \<noteq> Inr None" using mark(2) by auto
qed

text \<open>A runner that lets others work on the state and returns terminal results.\<close>

definition well_behaved :: "(wire_job \<Rightarrow> 's \<Rightarrow> run_outcome \<times> 's) \<Rightarrow> bool" where
  "well_behaved run \<longleftrightarrow>
     (\<forall>job s. moves s (snd (run job s))
        \<and> (\<forall>ex. fst (run job s) = Inr ex \<longrightarrow> terminal (ex_status ex)))"

lemma process_one_moves_and_ends:
  assumes run: "well_behaved run" and step: "process_one describe b run s = (r, s')"
  shows "moves s s' \<and> (\<forall>i. r = Inr (Some i) \<longrightarrow> (\<exists>st. status s' i = Some st \<and> terminal st))"
proof -
  obtain c s1 where claim: "b_claim b s = (c, s1)" by fastforce
  show ?thesis
  proof (cases "\<exists>job. c = Inr (Some job)")
    case False
    with step claim claim_moves [OF claim] show ?thesis
      by (cases c) (auto simp: process_one_def split: option.splits)
  next
    case True
    then obtain job where c: "c = Inr (Some job)" ..
    let ?i = "wj_id job"
    obtain o1 s2 where out: "run job s1 = (o1, s2)" by fastforce
    have m2: "moves s s2"
      using claim_moves [OF claim] run out unfolding well_behaved_def by (metis moves_trans snd_conv)
    have ex2: "status s2 ?i \<noteq> None"
      using claim_exists claim c run out status_kept unfolding well_behaved_def by (metis snd_conv)
    show ?thesis
    proof (cases o1)
      case (Inl m)
      with step claim c out have rep: "report_error b ?i m s2 = (r, s')" by (simp add: process_one_def)
      from report_error_ends [OF rep ex2] m2 show ?thesis
        by (auto simp: TERMINAL_STATES_def intro: moves_trans)
    next
      case (Inr ex)
      have t: "terminal (ex_status ex)" using run out Inr unfolding well_behaved_def by (metis fst_conv)
      obtain f s3 where fin: "b_finish b ?i ex s2 = (f, s3)" by fastforce
      have m3: "moves s s3" using m2 finish_moves [OF t fin] by (rule moves_trans)
      have ex3: "status s3 ?i \<noteq> None" using status_kept [OF finish_moves [OF t fin] ex2] .
      show ?thesis
      proof (cases f)
        case (Inl e)
        with step claim c out Inr fin have rep: "report_error b ?i (describe e) s3 = (r, s')"
          by (simp add: process_one_def)
        from report_error_ends [OF rep ex3] m3 show ?thesis
          by (auto simp: TERMINAL_STATES_def intro: moves_trans)
      next
        case (Inr u)
        with step claim c out \<open>o1 = Inr ex\<close> fin have "r = Inr (Some ?i)" "s' = s3"
          by (simp_all add: process_one_def)
        with fin Inr finish_status [of ?i ex s2 s3] ex2 m3 t show ?thesis by simp
      qed
    qed
  qed
qed

end

section \<open>The database broker\<close>

definition job_status :: "db \<Rightarrow> int \<Rightarrow> job_state option" where
  "job_status s i = map_option j_status (find (\<lambda>j. j_id j = i) (t_rows (jobs s)))"

lemma job_status_exists: "job_status s i \<noteq> None \<longleftrightarrow> (\<exists>j \<in> set (t_rows (jobs s)). j_id j = i)"
  by (auto simp: job_status_def find_None_iff)

lemma find_update:
  assumes "find (\<lambda>j. j_id j = i) rows \<noteq> None" and "\<And>j. j_id (f j) = j_id j"
  shows "find (\<lambda>j. j_id j = i) (map (\<lambda>j. if j_id j = i then f j else j) rows)
    = map_option f (find (\<lambda>j. j_id j = i) rows)"
  using assms by (induction rows) auto

lemma job_status_kept:
  assumes "queue_step\<^sup>*\<^sup>* s s'" and "job_status s i \<noteq> None"
  shows "job_status s' i \<noteq> None"
  using steps_advance [OF assms(1)] assms(2) unfolding job_status_exists jobs_advance_def advances_def
  by metis

lemma finish_job_status:
  "job_status s i \<noteq> None \<Longrightarrow> job_status (finish_job now i ex s) i = Some (ex_status ex)"
  by (auto simp: job_status_def finish_job_def finish_row_def find_update)

lemma mark_job_status:
  "job_status s i \<noteq> None \<Longrightarrow> job_status (mark_job_system_error now i m s) i = Some SystemError"
  by (auto simp: job_status_def mark_job_system_error_def find_update)

interpretation direct: job_broker "database_broker clk" "queue_step\<^sup>*\<^sup>*" job_status for clk
proof unfold_locales
  fix s r s' assume "b_claim (database_broker clk) s = (r, s')"
  then show "queue_step\<^sup>*\<^sup>* s s'"
    by (auto simp: database_broker_def split: prod.splits intro: claim_steps)
next
  fix s job s' assume "b_claim (database_broker clk) s = (Inr (Some job), s')"
  then obtain c where "claim_next_job clk s = (Some c, s')" "job = job_view c"
    by (auto simp: database_broker_def split: prod.splits)
  with claimed_row [OF this(1)] show "job_status s' (wj_id job) \<noteq> None"
    by (metis job_status_exists job_view_def wire_job.select_convs(1))
next
  fix ex i s r s' assume "terminal (ex_status ex)" and "b_finish (database_broker clk) i ex s = (r, s')"
  then show "queue_step\<^sup>*\<^sup>* s s'" by (auto simp: database_broker_def intro: queue_step.finish)
next
  fix i m s r s' assume "b_mark_error (database_broker clk) i m s = (r, s')"
  then show "queue_step\<^sup>*\<^sup>* s s'" by (auto simp: database_broker_def intro: queue_step.fail)
qed (auto simp: database_broker_def finish_job_status mark_job_status job_status_kept)

section \<open>The client broker\<close>

lemma call_steps:
  "call maximum (database_broker clk) v s = (r, s') \<Longrightarrow> queue_step\<^sup>*\<^sup>* s s'"
  using handle_request_steps [of s clk v]
  by (auto simp: call_def Let_def split: if_splits prod.splits)

lemma call_Inr:
  assumes "call maximum b (request_json r) s = (Inr v, s')"
  shows "dispatch b r s = (Inr v, s')"
proof -
  have error: "check_response (error_reply e) \<noteq> Inr v" for e
    by (simp add: check_response_def error_reply_def exact_object_def item_def protocol_error_def)
  have same: "check_response x = Inr v \<Longrightarrow> v = x" for x
    by (auto simp: check_response_def protocol_error_def split: json.splits option.splits bool.splits sum.splits)
  have call: "check_response (fst (handle_request b (request_json r) s)) = Inr v"
      "snd (handle_request b (request_json r) s) = s'"
    using assms by (auto simp: call_def Let_def protocol_error_def split: if_splits prod.splits)
  have "request_fits r"
  proof (rule ccontr)
    assume "\<not> request_fits r"
    then obtain m where "parse_request (request_json r) = Inl (ValueError m)" using request_reject by blast
    with call(1) error show False by (simp add: handle_request_def)
  qed
  then have handled: "handle_request b (request_json r) s =
      (case dispatch b r s of
         (Inr reply, s') \<Rightarrow> (reply, s')
       | (Inl (ValueError _), s') \<Rightarrow> (error_reply ''invalid_request'', s')
       | (Inl _, s') \<Rightarrow> (error_reply ''internal_error'', s'))"
    by (simp add: handle_request_def request_round_trip)
  show ?thesis
  proof (cases "dispatch b r s")
    case (Pair x s1)
    with call error same show ?thesis
      by (cases x) (auto simp: handled split: py_error.splits)
  qed
qed

lemma job_from_wire_same:
  "job_from_wire (job_to_wire (Some j)) = Inr (Some k) \<Longrightarrow> k = j"
  by (cases j) (auto simp: job_from_wire_def job_to_wire_def wire_simps inputs_round_trip split: if_splits)

lemma client_claim_Some:
  assumes "b_claim (client_broker maximum (database_broker clk)) s = (Inr (Some job), s')"
  shows "b_claim (database_broker clk) s = (Inr (Some job), s')"
proof -
  from assms obtain v d where call: "call maximum (database_broker clk) (request_json Claim) s = (Inr v, s')"
    and v: "exact_object v [''ok'', ''job''] = Inr d" "job_from_wire (item d ''job'') = Inr (Some job)"
    by (auto simp: client_broker_def client_claim_def Let_def split: prod.splits)
  from call_Inr [OF call] obtain c where c: "claim_next_job clk s = (c, s')"
    and "v = ok_reply [(''job'', job_to_wire (map_option job_view c))]"
    by (auto simp: dispatch_def database_broker_def Let_def split: prod.splits)
  with v have "job_from_wire (job_to_wire (map_option job_view c)) = Inr (Some job)"
    by (auto simp: wire_simps split: if_splits)
  moreover have "job_from_wire (job_to_wire None) = Inr None" by (simp add: job_from_wire_def job_to_wire_def)
  ultimately have "map_option job_view c = Some job" by (cases c) (auto dest: job_from_wire_same)
  with c show ?thesis by (simp add: database_broker_def)
qed

interpretation remote: job_broker "client_broker maximum (database_broker clk)" "queue_step\<^sup>*\<^sup>*" job_status
  for maximum clk
proof unfold_locales
  fix s r s' assume "b_claim (client_broker maximum (database_broker clk)) s = (r, s')"
  then show "queue_step\<^sup>*\<^sup>* s s'"
    by (auto simp: client_broker_def client_claim_def Let_def split: prod.splits intro: call_steps)
next
  fix s job s' assume "b_claim (client_broker maximum (database_broker clk)) s = (Inr (Some job), s')"
  then show "job_status s' (wj_id job) \<noteq> None"
    by (blast dest: client_claim_Some direct.claim_exists)
next
  fix ex i s r s' assume "b_finish (client_broker maximum (database_broker clk)) i ex s = (r, s')"
  then show "queue_step\<^sup>*\<^sup>* s s'"
    by (auto simp: client_broker_def client_finish_def Let_def split: prod.splits intro: call_steps)
next
  fix i ex s s' assume fin: "b_finish (client_broker maximum (database_broker clk)) i ex s = (Inr (), s')"
    and ex: "job_status s i \<noteq> None"
  from fin obtain v where "call maximum (database_broker clk) (request_json (Complete i ex)) s = (Inr v, s')"
    by (auto simp: client_broker_def client_finish_def Let_def split: prod.splits)
  from call_Inr [OF this] have "s' = finish_job (clk 3) i ex s"
    by (simp add: dispatch_def database_broker_def)
  with ex show "job_status s' i = Some (ex_status ex)" by (simp add: finish_job_status)
next
  fix i m s r s' assume "b_mark_error (client_broker maximum (database_broker clk)) i m s = (r, s')"
  then show "queue_step\<^sup>*\<^sup>* s s'"
    by (auto simp: client_broker_def client_mark_error_def Let_def split: prod.splits intro: call_steps)
next
  fix i m s s' assume mark: "b_mark_error (client_broker maximum (database_broker clk)) i m s = (Inr (), s')"
    and ex: "job_status s i \<noteq> None"
  from mark obtain v where "call maximum (database_broker clk) (request_json (ReportError i m)) s = (Inr v, s')"
    by (auto simp: client_broker_def client_mark_error_def Let_def split: prod.splits)
  from call_Inr [OF this] have "s' = mark_job_system_error (clk 4) i m s"
    by (simp add: dispatch_def database_broker_def)
  with ex show "job_status s' i = Some SystemError" by (simp add: mark_job_status)
qed (auto simp: job_status_kept)

section \<open>The worker's guarantee\<close>

text \<open>A worker that reports a job as processed has ended it. Over the socket as well as in process,
  and whatever others do to the database while the runner works, a round of the worker only takes
  steps of the job queue, and when it returns a job id the row of that job has a terminal status.\<close>
theorem worker_ends_job:
  assumes "\<forall>job s. queue_step\<^sup>*\<^sup>* s (snd (run job s))
      \<and> (\<forall>ex. fst (run job s) = Inr ex \<longrightarrow> terminal (ex_status ex))"
    and "b = database_broker clk \<or> b = client_broker maximum (database_broker clk)"
    and "process_one describe b run s = (r, s')"
  shows "queue_step\<^sup>*\<^sup>* s s' \<and> (\<forall>i. r = Inr (Some i) \<longrightarrow> (\<exists>st. job_status s' i = Some st \<and> terminal st))"
  using assms(2)
proof
  assume "b = database_broker clk"
  with direct.process_one_moves_and_ends [of run describe clk s r s'] assms(1,3) show ?thesis
    by (simp add: direct.well_behaved_def)
next
  assume "b = client_broker maximum (database_broker clk)"
  with remote.process_one_moves_and_ends [of run describe maximum clk s r s'] assms(1,3) show ?thesis
    by (simp add: remote.well_behaved_def)
qed

theorem worker_ends_job_witness:
  "\<exists>st. job_status (snd (process_one (\<lambda>_. ''e'') (database_broker (at 40)) (\<lambda>_ s. (Inr killed_compile, s)) queued_db)) 1
     = Some st \<and> terminal st"
proof -
  let ?out = "process_one (\<lambda>_. ''e'') (database_broker (at 40)) (\<lambda>_ s. (Inr killed_compile, s)) queued_db"
  have "fst ?out = Inr (Some 1)" by code_simp
  then have "?out = (Inr (Some 1), snd ?out)" by (simp add: prod_eq_iff)
  from worker_ends_job [where maximum = 0, OF _ disjI1 [OF refl] this] show ?thesis
    by (simp add: killed_compile_def TERMINAL_STATES_def)
qed

end
