(* ===== verification/Cgroup.thy ===== *)
theory Cgroup
  imports Effects Uuid
begin

text \<open>
  The cgroup lifecycle of \<open>cgroup_v2.py\<close>: the file system interface \<open>CgroupFilesystem\<close>, its in-memory
  implementation, the handle of one process group and the manager that creates the groups with
  their limits. Paths are strings; the interface's laws are the assumptions of the locale
  \<open>cgroup_files\<close>, in which the guarantees of the manager and of a group are proved once.
\<close>

section \<open>The interface\<close>

record 'h cgroup_fs =
  fs_mkdir :: "string \<Rightarrow> ('h, unit) action"
  fs_write :: "string \<Rightarrow> string \<Rightarrow> ('h, unit) action"
  fs_exists :: "string \<Rightarrow> 'h \<Rightarrow> bool"
  fs_read :: "string \<Rightarrow> 'h \<Rightarrow> string result"
  fs_members :: "string \<Rightarrow> 'h \<Rightarrow> int list"
  fs_kill :: "int \<Rightarrow> int \<Rightarrow> ('h, unit) action"
  fs_rmdir :: "string \<Rightarrow> ('h, unit) action"

definition SIGKILL :: int where "SIGKILL = 9"

section \<open>MemoryCgroupFilesystem\<close>

record memory_fs =
  directories :: "string set"
  controls :: "string \<rightharpoonup> string"
  write_log :: "string \<Rightarrow> string list"
  member_map :: "string \<Rightarrow> int list"
  killed :: "(int \<times> int) list"

text \<open>\<open>[Path(p), *Path(p).parents]\<close> for a normalised path: an absolute path ends in the root, a
  relative one in \<open>.\<close>.\<close>

definition parent_path :: "string \<Rightarrow> string" where
  "parent_path p =
     (if CHR ''/'' \<notin> set p then ''.''
      else let q = rev (tl (dropWhile (\<lambda>c. c \<noteq> CHR ''/'') (rev p))) in if q = [] then ''/'' else q)"

lemma parent_path_shorter:
  assumes "p \<noteq> ''/''" and "p \<noteq> ''.''" and "p \<noteq> []"
  shows "length (parent_path p) < length p \<or> parent_path p = ''/'' \<or> parent_path p = ''.''"
proof (cases "CHR ''/'' \<in> set p")
  case True
  then have "dropWhile (\<lambda>c. c \<noteq> CHR ''/'') (rev p) \<noteq> []" by (simp add: dropWhile_eq_Nil_conv)
  then have "length (tl (dropWhile (\<lambda>c. c \<noteq> CHR ''/'') (rev p))) < length p"
    using length_dropWhile_le [of "\<lambda>c. c \<noteq> CHR ''/''" "rev p"]
    by (cases "dropWhile (\<lambda>c. c \<noteq> CHR ''/'') (rev p)") auto
  then show ?thesis by (simp add: parent_path_def Let_def)
qed (simp add: parent_path_def)

function path_and_parents :: "string \<Rightarrow> string list" where
  "path_and_parents p =
     (if p = ''/'' \<or> p = ''.'' \<or> p = [] then [p]
      else let q = parent_path p
           in if q = ''/'' \<or> q = ''.'' then [p, q] else p # path_and_parents q)"
  by pat_completeness auto
termination
  by (relation "measure length") (use parent_path_shorter in \<open>auto simp: Let_def\<close>)

declare path_and_parents.simps [simp del]

definition memory_mkdir :: "string \<Rightarrow> (memory_fs, unit) action" where
  "memory_mkdir p h = (Inr (), h\<lparr>directories := directories h \<union> set (path_and_parents p)\<rparr>)"

definition memory_write :: "string \<Rightarrow> string \<Rightarrow> (memory_fs, unit) action" where
  "memory_write p v h =
     (Inr (), h\<lparr>write_log := (write_log h)(p := write_log h p @ [v]),
               controls := (controls h)(p \<mapsto> v)\<rparr>)"

definition memory_exists :: "string \<Rightarrow> memory_fs \<Rightarrow> bool" where
  "memory_exists p h \<longleftrightarrow> p \<in> directories h \<or> controls h p \<noteq> None"

definition memory_read :: "string \<Rightarrow> memory_fs \<Rightarrow> string result" where
  "memory_read p h = (case controls h p of None \<Rightarrow> Inl (LookupError p) | Some v \<Rightarrow> Inr v)"

definition memory_members :: "string \<Rightarrow> memory_fs \<Rightarrow> int list" where
  "memory_members p h = member_map h p"

definition memory_kill :: "int \<Rightarrow> int \<Rightarrow> (memory_fs, unit) action" where
  "memory_kill pid sig h = (Inr (), h\<lparr>killed := killed h @ [(pid, sig)]\<rparr>)"

definition memory_rmdir :: "string \<Rightarrow> (memory_fs, unit) action" where
  "memory_rmdir p h = (Inr (), h\<lparr>directories := directories h - {p}\<rparr>)"

definition memory_cgroups :: "memory_fs cgroup_fs" where
  "memory_cgroups =
     \<lparr>fs_mkdir = memory_mkdir, fs_write = memory_write, fs_exists = memory_exists,
      fs_read = memory_read, fs_members = memory_members, fs_kill = memory_kill,
      fs_rmdir = memory_rmdir\<rparr>"

lemmas memory_fs_defs = memory_cgroups_def memory_mkdir_def memory_write_def memory_exists_def
  memory_read_def memory_members_def memory_kill_def memory_rmdir_def

lemma path_and_parents_self: "p \<in> set (path_and_parents p)"
  by (subst path_and_parents.simps) (simp add: Let_def)

section \<open>A process group\<close>

text \<open>A handle is the path of the group. \<open>oom_killed\<close> reads the counters of \<open>memory.events\<close>: a later
  line of the same name replaces an earlier one; an unreadable file counts as no kill.\<close>

definition attach_pid :: "'h cgroup_fs \<Rightarrow> string \<Rightarrow> int \<Rightarrow> ('h, unit) action" where
  "attach_pid fs g pid =
     (if pid < 0 then raise (ValueError ''pid must be zero (self) or positive'')
      else fs_write fs (g @ ''/cgroup.procs'') (int_text pid))"

definition preexec_attach :: "'h cgroup_fs \<Rightarrow> string \<Rightarrow> ('h, unit) action" where
  "preexec_attach fs g = attach_pid fs g 0"

fun event_counters :: "string list \<Rightarrow> (string \<rightharpoonup> nat) \<Rightarrow> (string \<rightharpoonup> nat)" where
  "event_counters [] m = m"
| "event_counters (l # ls) m =
     event_counters ls
       (case words_of l of
          [k, v] \<Rightarrow> if list_all is_digit v then m(k \<mapsto> digits_value v) else m
        | _ \<Rightarrow> m)"

definition oom_killed :: "'h cgroup_fs \<Rightarrow> string \<Rightarrow> 'h \<Rightarrow> bool" where
  "oom_killed fs g h =
     (case fs_read fs (g @ ''/memory.events'') h of
        Inl _ \<Rightarrow> False
      | Inr events \<Rightarrow>
          (case event_counters (lines_of events) Map.empty ''oom_kill'' of
             None \<Rightarrow> False
           | Some n \<Rightarrow> n > 0))"

definition kill_all :: "'h cgroup_fs \<Rightarrow> string \<Rightarrow> ('h, unit) action" where
  "kill_all fs g h =
     (if fs_exists fs (g @ ''/cgroup.kill'') h then fs_write fs (g @ ''/cgroup.kill'') ''1'' h
      else for_each (\<lambda>pid. fs_kill fs pid SIGKILL) (fs_members fs g h) h)"

definition close_group :: "'h cgroup_fs \<Rightarrow> string \<Rightarrow> ('h, unit) action" where
  "close_group fs g = followed (kill_all fs g) (fs_rmdir fs g)"

section \<open>CgroupManager\<close>

text \<open>The manager is its root path. \<open>pid\<close> is \<open>os.getpid()\<close>.\<close>

definition enable_controllers :: "'h cgroup_fs \<Rightarrow> string \<Rightarrow> ('h, unit) action" where
  "enable_controllers fs p = fs_write fs (p @ ''/cgroup.subtree_control'') ''+memory +pids''"

definition activate :: "'h cgroup_fs \<Rightarrow> string \<Rightarrow> int \<Rightarrow> ('h, unit) action" where
  "activate fs root pid =
     followed (fs_mkdir fs (root @ ''/manager''))
    (followed (fs_write fs (root @ ''/manager/cgroup.procs'') (int_text pid))
              (enable_controllers fs root))"

definition positive :: "int \<Rightarrow> string \<Rightarrow> int result" where
  "positive v label =
     (if v \<le> 0 then Inl (ValueError (label @ '' must be a positive integer'')) else Inr v)"

definition owner_uuid :: "string \<Rightarrow> string result" where
  "owner_uuid v = require_uuid ''owner must be a canonical UUID'' v"

definition make_group :: "'h cgroup_fs \<Rightarrow> string \<Rightarrow> int \<Rightarrow> int \<Rightarrow> ('h, string) action" where
  "make_group fs path memory_mib pids =
     andthen (lift (positive memory_mib ''memory_mib'')) (\<lambda>memory_mib.
     andthen (lift (positive pids ''pids'')) (\<lambda>pids.
     followed (fs_mkdir fs path)
    (followed (fs_write fs (path @ ''/memory.max'') (int_text (memory_mib * 1024 * 1024)))
    (followed (fs_write fs (path @ ''/memory.swap.max'') ''0'')
    (followed (fs_write fs (path @ ''/pids.max'') (int_text pids))
       (ret path))))))"

definition compile_group_path :: "string \<Rightarrow> int \<Rightarrow> string" where
  "compile_group_path root job_id = root @ ''/compile-job-'' @ int_text job_id"

definition compile_group :: "'h cgroup_fs \<Rightarrow> string \<Rightarrow> int \<Rightarrow> int \<Rightarrow> ('h, string) action" where
  "compile_group fs root job_id memory_mib =
     andthen (lift (positive job_id ''job_id'')) (\<lambda>job_id.
       make_group fs (compile_group_path root job_id) memory_mib 64)"

definition owner_path :: "string \<Rightarrow> string \<Rightarrow> string" where
  "owner_path root owner = root @ ''/users/'' @ owner"

definition run_group_path :: "string \<Rightarrow> string \<Rightarrow> int \<Rightarrow> int \<Rightarrow> string" where
  "run_group_path root owner job_id position =
     owner_path root owner @ ''/job-'' @ int_text job_id @ ''-case-'' @ int_text position"

definition run_group ::
    "'h cgroup_fs \<Rightarrow> string \<Rightarrow> string \<Rightarrow> int \<Rightarrow> int \<Rightarrow> int \<Rightarrow> int \<Rightarrow> ('h, string) action" where
  "run_group fs root owner job_id position memory_mib aggregate_mib =
     andthen (lift (owner_uuid owner)) (\<lambda>owner.
     andthen (lift (positive job_id ''job_id'')) (\<lambda>job_id.
     andthen (lift (positive position ''case_position'')) (\<lambda>position.
     andthen (lift (positive memory_mib ''memory_mib'')) (\<lambda>memory_mib.
     andthen (lift (positive aggregate_mib ''aggregate_mib'')) (\<lambda>aggregate_mib.
     if memory_mib > aggregate_mib
     then raise (ValueError ''case memory exceeds aggregate memory reservation'')
     else
       followed (fs_mkdir fs (root @ ''/users''))
      (followed (enable_controllers fs (root @ ''/users''))
      (andthen (make_group fs (owner_path root owner) aggregate_mib 32) (\<lambda>parent.
       followed (enable_controllers fs parent)
         (make_group fs (run_group_path root owner job_id position) memory_mib 8)))))))))"

end
