(* ===== verification/Runner.thy ===== *)
theory Runner
  imports Execution Cgroup
begin

text \<open>
  The C++ runner of \<open>runner.py\<close>: the polling loop that watches a process, the classification of its end,
  the run of a submission over its cases, and the two runners (local, and sandboxed in cgroups). What
  the operating system shows the runner is an input of the model: one view per started process holds
  the readings of the clock (nanoseconds), of the process and of the files. The state \<open>'h\<close> is the
  cgroup file system. A result \<open>None\<close> means that the runner does not return. The command lines and
  resource limits are in \<open>Sandbox_Command\<close>; temporary directories are not modelled.
\<close>

section \<open>Specifications and limits\<close>

record runner_limits =
  rl_compile_wall_ms :: int
  rl_compile_memory_mib :: int
  rl_stdout_limit_bytes :: int
  rl_stderr_limit_bytes :: int
  rl_total_wall_ms :: int

record compile_spec =
  cs_filename :: string
  cs_source :: string
  cs_compiler :: string
  cs_job_id :: "int option"
  cs_owner_public_id :: "string option"

record case_spec =
  sp_input_text :: string
  sp_time_limit_ms :: int
  sp_memory_limit_mib :: int

definition COMPILERS :: "string list" where
  "COMPILERS = [''gcc-14-gnu++17'']"

definition SIGXFSZ :: int where "SIGXFSZ = 25"

text \<open>\<open>int((now - started) * 1000)\<close> for readings of the monotonic clock.\<close>

definition elapsed_ms :: "int \<Rightarrow> int \<Rightarrow> int" where
  "elapsed_ms started now = (now - started) div 1000000"

section \<open>Watching a process\<close>

text \<open>What one turn of the loop sees: \<open>pv_cancel\<close> is what the cancel check returns or raises.\<close>

record poll_view =
  pv_exited :: bool
  pv_now :: int
  pv_rss :: "int option"
  pv_cancel :: "bool result"
  pv_stdout_size :: int
  pv_stderr_size :: int

definition observe :: "int \<Rightarrow> int option \<Rightarrow> int" where
  "observe peak rss = (case rss of None \<Rightarrow> peak | Some r \<Rightarrow> max peak r)"

text \<open>One turn of the loop while the process runs: the status to stop it with, if any.\<close>

definition watch :: "runner_limits \<Rightarrow> case_spec \<Rightarrow> int \<Rightarrow> poll_view \<Rightarrow> job_state option result" where
  "watch lim c started p =
     bind_result (pv_cancel p) (\<lambda>cancel.
       Inr (if cancel then Some Cancelled
            else if pv_stdout_size p > rl_stdout_limit_bytes lim then Some OutputLimit
            else if pv_stderr_size p > rl_stderr_limit_bytes lim then Some OutputLimit
            else if (case pv_rss p of None \<Rightarrow> False | Some r \<Rightarrow> r > sp_memory_limit_mib c * 1024)
            then Some MemoryLimit
            else if elapsed_ms started (pv_now p) \<ge> sp_time_limit_ms c then Some TimeLimit
            else None))"

text \<open>The loop returns the status (\<open>Running\<close> when the process ended by itself) and the peak memory.\<close>

partial_function (option) poll_loop ::
    "runner_limits \<Rightarrow> case_spec \<Rightarrow> int \<Rightarrow> (nat \<Rightarrow> poll_view) \<Rightarrow> nat \<Rightarrow> int \<Rightarrow> (job_state \<times> int) result option" where
  "poll_loop lim c started polls k peak =
     (if pv_exited (polls k) then Some (Inr (Running, peak))
      else
        (case watch lim c started (polls k) of
           Inl e \<Rightarrow> Some (Inl e)
         | Inr (Some st) \<Rightarrow> Some (Inr (st, observe peak (pv_rss (polls k))))
         | Inr None \<Rightarrow> poll_loop lim c started polls (Suc k) (observe peak (pv_rss (polls k)))))"

declare poll_loop.simps [code]

section \<open>The end of a process\<close>

text \<open>\<open>str.lower\<close> on code points below 256.\<close>

definition py_lower :: "string \<Rightarrow> string" where
  "py_lower s =
     map (\<lambda>c. let n = of_char c :: nat
              in if 65 \<le> n \<and> n \<le> 90 \<or> 192 \<le> n \<and> n \<le> 222 \<and> n \<noteq> 215 then char_of (n + 32) else c) s"

text \<open>\<open>_read_limited\<close>; \<open>decode\<close> is the decoding of UTF-8 bytes with replacement.\<close>

definition read_limited :: "(string \<Rightarrow> string) \<Rightarrow> string \<Rightarrow> int \<Rightarrow> string \<times> bool" where
  "read_limited decode data limit =
     (decode (if limit < 0 then data else take (nat limit) data), int (length data) > limit)"

definition local_status :: "job_state \<Rightarrow> bool \<Rightarrow> int \<Rightarrow> string \<Rightarrow> job_state" where
  "local_status st trunc return_code stderr =
     (if st \<noteq> Running then st
      else if trunc \<or> return_code = - SIGXFSZ then OutputLimit
      else if return_code = 0 then Completed
      else if occurs ''bad_alloc'' stderr \<or> occurs ''cannot allocate memory'' (py_lower stderr) then MemoryLimit
      else RuntimeErr)"

definition sandbox_status :: "job_state \<Rightarrow> bool \<Rightarrow> bool \<Rightarrow> int \<Rightarrow> string \<Rightarrow> job_state" where
  "sandbox_status st run_oom trunc return_code stderr =
     (if st \<noteq> Running then st
      else if run_oom then MemoryLimit
      else if trunc \<or> return_code = - SIGXFSZ then OutputLimit
      else if return_code = 0 then Completed
      else if occurs ''bad_alloc'' stderr \<or> occurs ''cannot allocate memory'' (py_lower stderr) then MemoryLimit
      else RuntimeErr)"

text \<open>What the runner sees of one process. \<open>rv_input\<close> is the writing of the input file, \<open>rv_spawn\<close> the
  start of the process, \<open>rv_kernel\<close> what the kernel does to the cgroup files until it has ended.\<close>

record 'h run_view =
  rv_input :: "unit result"
  rv_started :: int
  rv_spawn :: "('h, unit) action"
  rv_polls :: "nat \<Rightarrow> poll_view"
  rv_kernel :: "'h \<Rightarrow> 'h"
  rv_return_code :: int
  rv_ended :: int
  rv_rss_after :: "int option"
  rv_stdout :: string
  rv_stderr :: string

text \<open>The result both runners build; the status is a function of the truncation and of the text.\<close>

definition case_outcome ::
    "(string \<Rightarrow> string) \<Rightarrow> runner_limits \<Rightarrow> 'h run_view \<Rightarrow> int \<Rightarrow> int \<Rightarrow> (bool \<Rightarrow> string \<Rightarrow> job_state) \<Rightarrow> case_result" where
  "case_outcome decode lim v position peak status_of =
     (let (out, out_cut) = read_limited decode (rv_stdout v) (rl_stdout_limit_bytes lim);
          (err, err_cut) = read_limited decode (rv_stderr v) (rl_stderr_limit_bytes lim);
          status = status_of (out_cut \<or> err_cut) err;
          code = rv_return_code v
      in \<lparr>ca_position = position, ca_status = status, ca_stdout = out, ca_stderr = err,
          ca_exit_code = (if code \<ge> 0 then Some code else None),
          ca_term_signal = (if code < 0 then Some (- code) else None),
          ca_wall_time_ms = Some (elapsed_ms (rv_started v) (rv_ended v)),
          ca_peak_memory_kib = Some peak,
          ca_output_truncated = (out_cut \<or> err_cut \<or> status = OutputLimit)\<rparr>)"

type_synonym ('h, 'a) run = "'h \<Rightarrow> ('a result \<times> 'h) option"

definition local_run_case ::
    "(string \<Rightarrow> string) \<Rightarrow> runner_limits \<Rightarrow> 'h run_view \<Rightarrow> int \<Rightarrow> case_spec \<Rightarrow> ('h, case_result) run" where
  "local_run_case decode lim v position c h =
     (case followed (lift (rv_input v)) (rv_spawn v) h of
        (Inl e, h1) \<Rightarrow> Some (Inl e, h1)
      | (Inr _, h1) \<Rightarrow>
          (case poll_loop lim c (rv_started v) (rv_polls v) 0 0 of
             None \<Rightarrow> None
           | Some (Inl e) \<Rightarrow> Some (Inl e, h1)
           | Some (Inr (st, peak)) \<Rightarrow>
               Some (Inr (case_outcome decode lim v position (observe peak (rv_rss_after v))
                            (\<lambda>trunc err. local_status st trunc (rv_return_code v) err)),
                     rv_kernel v h1)))"

section \<open>Running a submission\<close>

definition cancelled_case :: "string \<Rightarrow> int \<Rightarrow> case_result" where
  "cancelled_case message position =
     \<lparr>ca_position = position, ca_status = Cancelled, ca_stdout = [], ca_stderr = message,
      ca_exit_code = None, ca_term_signal = None, ca_wall_time_ms = Some 0,
      ca_peak_memory_kib = None, ca_output_truncated = False\<rparr>"

definition cancelled_from :: "string \<Rightarrow> int \<Rightarrow> 'c list \<Rightarrow> case_result list" where
  "cancelled_from message i cs =
     map (\<lambda>k. cancelled_case message (i + int k)) [0..<length cs]"

definition cancel_message :: string where
  "cancel_message = ''cancelled by user or administrator''"

definition wall_message :: string where
  "wall_message = ''submission wall limit reached''"

text \<open>What \<open>execute\<close> itself sees: its working directory, the clock and the cancel check before each
  case.\<close>

record exec_view =
  xv_workspace :: "unit result"
  xv_compiled :: int
  xv_cancel :: "int \<Rightarrow> bool result"
  xv_now :: "int \<Rightarrow> int"

definition remaining_ms :: "int \<Rightarrow> int \<Rightarrow> int" where
  "remaining_ms deadline now = max 0 (deadline - now) div 1000000"

text \<open>The loop over the cases from position \<open>i\<close>: whether it ended by cancellation, and the results.\<close>

fun run_cases ::
    "exec_view \<Rightarrow> int \<Rightarrow> (int \<Rightarrow> case_spec \<Rightarrow> ('h, case_result) run) \<Rightarrow> int \<Rightarrow> case_spec list
      \<Rightarrow> ('h, bool \<times> case_result list) run" where
  "run_cases x deadline run i [] h = Some (Inr (False, []), h)"
| "run_cases x deadline run i (c # cs) h =
     (case xv_cancel x i of
        Inl e \<Rightarrow> Some (Inl e, h)
      | Inr True \<Rightarrow> Some (Inr (True, cancelled_from cancel_message i (c # cs)), h)
      | Inr False \<Rightarrow>
          let remaining = remaining_ms deadline (xv_now x i)
          in if remaining \<le> 0 then Some (Inr (False, cancelled_from wall_message i (c # cs)), h)
             else
               (case run i (c\<lparr>sp_time_limit_ms := min (sp_time_limit_ms c) remaining\<rparr>) h of
                  None \<Rightarrow> None
                | Some (Inl e, h') \<Rightarrow> Some (Inl e, h')
                | Some (Inr r, h') \<Rightarrow>
                    if ca_status r = Cancelled
                    then Some (Inr (True, r # cancelled_from cancel_message (i + 1) cs), h')
                    else
                      (case run_cases x deadline run (i + 1) cs h' of
                         None \<Rightarrow> None
                       | Some (Inl e, h'') \<Rightarrow> Some (Inl e, h'')
                       | Some (Inr (cancelled, rs), h'') \<Rightarrow> Some (Inr (cancelled, r # rs), h''))))"

text \<open>\<open>execute\<close>, over the compilation and the runs of the runner that inherits it.\<close>

definition execute ::
    "runner_limits \<Rightarrow> exec_view \<Rightarrow> ('h, compile_result) action
      \<Rightarrow> (int \<Rightarrow> case_spec \<Rightarrow> ('h, case_result) run) \<Rightarrow> compile_spec \<Rightarrow> case_spec list
      \<Rightarrow> ('h, execution_result) run" where
  "execute lim x compile run spec cases h =
     (if cs_compiler spec \<notin> set COMPILERS then
        Some (Inr \<lparr>ex_status = SystemError,
                   ex_compile = \<lparr>cr_status = SystemError, cr_stdout = [],
                                 cr_stderr = ''compiler ID is not approved'', cr_exit_code = None,
                                 cr_wall_time_ms = Some 0, cr_output_truncated = False\<rparr>,
                   ex_cases = []\<rparr>, h)
      else
        (case followed (lift (xv_workspace x)) compile h of
           (Inl e, h1) \<Rightarrow> Some (Inl e, h1)
         | (Inr comp_result, h1) \<Rightarrow>
             if cr_status comp_result \<noteq> Completed
             then Some (Inr \<lparr>ex_status = cr_status comp_result, ex_compile = comp_result, ex_cases = []\<rparr>, h1)
             else
               (case run_cases x (xv_compiled x + rl_total_wall_ms lim * 1000000) run 1 cases h1 of
                  None \<Rightarrow> None
                | Some (Inl e, h2) \<Rightarrow> Some (Inl e, h2)
                | Some (Inr (cancelled, rs), h2) \<Rightarrow>
                    Some (Inr \<lparr>ex_status = (if cancelled then Cancelled else Completed),
                               ex_compile = comp_result, ex_cases = rs\<rparr>, h2))))"

section \<open>Compilation\<close>

text \<open>What the runner sees of the compiler: \<open>cv_wait\<close> is the exit code, or \<open>None\<close> when the wait timed
  out; \<open>cv_killed\<close> the exit code after the kill.\<close>

record 'h compile_view =
  cv_started :: int
  cv_spawn :: "('h, unit) action"
  cv_wait :: "int option"
  cv_killed :: int
  cv_kernel :: "'h \<Rightarrow> 'h"
  cv_ended :: int
  cv_stdout :: string
  cv_stderr :: string

definition return_code :: "'h compile_view \<Rightarrow> int" where
  "return_code v = (case cv_wait v of None \<Rightarrow> cv_killed v | Some code \<Rightarrow> code)"

definition compile_outcome :: "(string \<Rightarrow> string) \<Rightarrow> runner_limits \<Rightarrow> 'h compile_view \<Rightarrow> bool \<Rightarrow> compile_result" where
  "compile_outcome decode lim v oom =
     (let (out, out_cut) = read_limited decode (cv_stdout v) (rl_stdout_limit_bytes lim);
          (err, err_cut) = read_limited decode (cv_stderr v) (rl_stderr_limit_bytes lim);
          (status, err) =
            (if cv_wait v = None then (SystemError, strip (err @ nl # ''compiler wall limit exceeded''))
             else if oom then (SystemError, strip (err @ nl # ''compiler memory limit exceeded''))
             else if return_code v \<noteq> 0 then (CompileError, err)
             else (Completed, err))
      in \<lparr>cr_status = status, cr_stdout = out, cr_stderr = err, cr_exit_code = Some (return_code v),
          cr_wall_time_ms = Some (elapsed_ms (cv_started v) (cv_ended v)),
          cr_output_truncated = (out_cut \<or> err_cut)\<rparr>)"

definition local_compile ::
    "(string \<Rightarrow> string) \<Rightarrow> runner_limits \<Rightarrow> 'h compile_view \<Rightarrow> ('h, compile_result) action" where
  "local_compile decode lim v h =
     (case cv_spawn v h of
        (Inl e, h1) \<Rightarrow> (Inl e, h1)
      | (Inr _, h1) \<Rightarrow> (Inr (compile_outcome decode lim v False), cv_kernel v h1))"

definition local_execute ::
    "(string \<Rightarrow> string) \<Rightarrow> runner_limits \<Rightarrow> exec_view \<Rightarrow> 'h compile_view \<Rightarrow> (int \<Rightarrow> 'h run_view)
      \<Rightarrow> compile_spec \<Rightarrow> case_spec list \<Rightarrow> ('h, execution_result) run" where
  "local_execute decode lim x cv rv =
     execute lim x (local_compile decode lim cv) (\<lambda>i. local_run_case decode lim (rv i) i)"

section \<open>The sandboxed runner\<close>

record 'h manager =
  cm_fs :: "'h cgroup_fs"
  cm_root :: string

text \<open>A group, when there is a manager: \<open>terminate\<close>, the start in the group and the closing. An
  exception of the hook in the child reaches the parent as a \<open>SubprocessError\<close>.\<close>

definition terminate :: "'h manager option \<Rightarrow> string \<Rightarrow> ('h, unit) action" where
  "terminate m g = (case m of None \<Rightarrow> ret () | Some m \<Rightarrow> kill_all (cm_fs m) g)"

definition spawn_in :: "'h manager option \<Rightarrow> string \<Rightarrow> ('h, unit) action \<Rightarrow> ('h, unit) action" where
  "spawn_in m g spawn h =
     (case m of
        None \<Rightarrow> spawn h
      | Some m \<Rightarrow>
          (case preexec_attach (cm_fs m) g h of
             (Inl _, h1) \<Rightarrow> (Inl (RuntimeError ''Exception occurred in preexec_fn.''), h1)
           | (Inr _, h1) \<Rightarrow> spawn h1))"

definition group_oom :: "'h manager option \<Rightarrow> string \<Rightarrow> 'h \<Rightarrow> bool" where
  "group_oom m g h = (case m of None \<Rightarrow> False | Some m \<Rightarrow> oom_killed (cm_fs m) g h)"

definition close_cgroup :: "'h manager option \<Rightarrow> string \<Rightarrow> ('h, unit) action" where
  "close_cgroup m g = (case m of None \<Rightarrow> ret () | Some m \<Rightarrow> close_group (cm_fs m) g)"

definition new_compile_cgroup :: "'h manager option \<Rightarrow> runner_limits \<Rightarrow> int \<Rightarrow> ('h, string) action" where
  "new_compile_cgroup m lim job_id =
     (case m of None \<Rightarrow> ret []
      | Some m \<Rightarrow> compile_group (cm_fs m) (cm_root m) job_id (rl_compile_memory_mib lim))"

definition new_run_cgroup :: "'h manager option \<Rightarrow> string \<Rightarrow> int \<Rightarrow> int \<Rightarrow> int \<Rightarrow> ('h, string) action" where
  "new_run_cgroup m owner job_id position memory_mib =
     (case m of None \<Rightarrow> ret []
      | Some m \<Rightarrow> run_group (cm_fs m) (cm_root m) owner job_id position memory_mib MAX_USER_RUNNING_MEMORY_MIB)"

text \<open>\<open>try ... finally cgroup.close()\<close> around the compiler.\<close>

definition sandbox_compile ::
    "(string \<Rightarrow> string) \<Rightarrow> runner_limits \<Rightarrow> 'h manager option \<Rightarrow> int \<Rightarrow> 'h compile_view \<Rightarrow> ('h, compile_result) action" where
  "sandbox_compile decode lim m job_id v =
     andthen (new_compile_cgroup m lim job_id) (\<lambda>g h.
       case followed (spawn_in m g (cv_spawn v))
              (if cv_wait v = None then terminate m g else ret ()) h of
         (Inl e, h1) \<Rightarrow> (case close_cgroup m g h1 of (Inl e', h2) \<Rightarrow> (Inl e', h2) | (Inr _, h2) \<Rightarrow> (Inl e, h2))
       | (Inr _, h1) \<Rightarrow>
           let h2 = cv_kernel v h1; oom = group_oom m g h2
           in followed (close_cgroup m g) (ret (compile_outcome decode lim v oom)) h2)"

text \<open>In \<open>_run_case\<close> nothing closes the group when an exception leaves the loop.\<close>

definition sandbox_run_case ::
    "(string \<Rightarrow> string) \<Rightarrow> runner_limits \<Rightarrow> 'h manager option \<Rightarrow> string \<Rightarrow> int \<Rightarrow> 'h run_view
      \<Rightarrow> int \<Rightarrow> case_spec \<Rightarrow> ('h, case_result) run" where
  "sandbox_run_case decode lim m owner job_id v position c h =
     (case followed (lift (rv_input v))
             (andthen (new_run_cgroup m owner job_id position (sp_memory_limit_mib c)) (\<lambda>g.
                followed (spawn_in m g (rv_spawn v)) (ret g))) h of
        (Inl e, h1) \<Rightarrow> Some (Inl e, h1)
      | (Inr g, h1) \<Rightarrow>
          (case poll_loop lim c (rv_started v) (rv_polls v) 0 0 of
             None \<Rightarrow> None
           | Some (Inl e) \<Rightarrow> Some (Inl e, h1)
           | Some (Inr (st, peak)) \<Rightarrow>
               Some (followed (if st = Running then ret () else terminate m g) (\<lambda>h2.
                       let h3 = rv_kernel v h2; oom = group_oom m g h3
                       in followed (close_cgroup m g)
                            (ret (case_outcome decode lim v position peak
                                    (\<lambda>trunc err. sandbox_status st oom trunc (rv_return_code v) err))) h3) h1)))"

definition sandbox_execute ::
    "(string \<Rightarrow> string) \<Rightarrow> runner_limits \<Rightarrow> 'h manager option \<Rightarrow> exec_view \<Rightarrow> 'h compile_view \<Rightarrow> (int \<Rightarrow> 'h run_view)
      \<Rightarrow> compile_spec \<Rightarrow> case_spec list \<Rightarrow> ('h, execution_result) run" where
  "sandbox_execute decode lim m x cv rv spec cases h =
     (case (m, cs_job_id spec, cs_owner_public_id spec) of
        (Some _, None, _) \<Rightarrow> Some (Inl (ValueError ''production cgroup execution requires job and owner identity''), h)
      | (Some _, _, None) \<Rightarrow> Some (Inl (ValueError ''production cgroup execution requires job and owner identity''), h)
      | (_, job_id, owner) \<Rightarrow>
          let i = (case job_id of None \<Rightarrow> 0 | Some i \<Rightarrow> i); o' = (case owner of None \<Rightarrow> [] | Some o' \<Rightarrow> o')
          in execute lim x (sandbox_compile decode lim m i cv)
               (\<lambda>position. sandbox_run_case decode lim m o' i (rv position) position) spec cases h)"

end
