(* ===== verification/Runner_Laws.thy ===== *)
theory Runner_Laws
  imports Runner
begin

text \<open>
  Lemmas on the runner: what the polling loop returns and when it returns, what a case result can
  be, and the shape of the results of a submission.
\<close>

section \<open>The polling loop\<close>

definition stop_states :: "job_state list" where
  "stop_states = [Cancelled, OutputLimit, MemoryLimit, TimeLimit]"

lemma watch_stop: "watch lim c started p = Inr (Some st) \<Longrightarrow> st \<in> set stop_states"
  by (cases "pv_cancel p") (auto simp: watch_def stop_states_def split: if_splits)

lemma observe_ge: "peak \<le> observe peak rss"
  by (simp add: observe_def split: option.splits)

lemma poll_loop_result:
  assumes "poll_loop lim c started polls k peak = Some (Inr (st, peak'))"
  shows "st \<in> set (Running # stop_states) \<and> peak \<le> peak'"
proof -
  have "case r of Inl e \<Rightarrow> True | Inr (st, peak') \<Rightarrow> st \<in> set (Running # stop_states) \<and> peak \<le> peak'"
    if "poll_loop lim c started polls k peak = Some r" for r
  proof (rule poll_loop.raw_induct [where P = "\<lambda>lim c started polls k peak r.
        case r of Inl e \<Rightarrow> True | Inr (st, peak') \<Rightarrow> st \<in> set (Running # stop_states) \<and> peak \<le> peak'", OF _ that])
    fix loop lim c started polls k peak r
    assume IH: "\<And>lim c started polls k peak r. loop lim c started polls k peak = Some r \<Longrightarrow>
        (case r of Inl e \<Rightarrow> True | Inr (st, peak') \<Rightarrow> st \<in> set (Running # stop_states) \<and> peak \<le> peak')"
      and eq: "(if pv_exited (polls k) then Some (Inr (Running, peak))
        else case watch lim c started (polls k) of
          Inl e \<Rightarrow> Some (Inl e)
        | Inr None \<Rightarrow> loop lim c started polls (Suc k) (observe peak (pv_rss (polls k)))
        | Inr (Some st) \<Rightarrow> Some (Inr (st, observe peak (pv_rss (polls k))))) = Some r"
    have le: "peak \<le> observe peak (pv_rss (polls k))" by (rule observe_ge)
    show "case r of Inl e \<Rightarrow> True | Inr (st, peak') \<Rightarrow> st \<in> set (Running # stop_states) \<and> peak \<le> peak'"
    proof (cases "pv_exited (polls k)")
      case True
      with eq show ?thesis by auto
    next
      case running: False
      show ?thesis
      proof (cases "watch lim c started (polls k)")
        case (Inl e)
        with eq running show ?thesis by auto
      next
        case (Inr w)
        show ?thesis
        proof (cases w)
          case None
          with eq running Inr have "loop lim c started polls (Suc k) (observe peak (pv_rss (polls k))) = Some r"
            by simp
          from IH [OF this] le show ?thesis by (cases r) auto
        next
          case (Some st)
          with eq running Inr watch_stop [of lim c started "polls k" st] le show ?thesis by auto
        qed
      qed
    qed
  qed
  from this [OF assms] show ?thesis by simp
qed

text \<open>Every turn takes at least the five milliseconds of the sleep, so the loop reaches the time limit.\<close>

definition polls_advance :: "int \<Rightarrow> (nat \<Rightarrow> poll_view) \<Rightarrow> bool" where
  "polls_advance started polls \<longleftrightarrow> (\<forall>k. started + int k * 5000000 \<le> pv_now (polls k))"

lemma watch_at_limit:
  assumes "polls_advance started polls" and "sp_time_limit_ms c \<le> 5 * int k"
  shows "watch lim c started (polls k) \<noteq> Inr None"
proof -
  have "started + int k * 5000000 \<le> pv_now (polls k)"
    using assms(1) unfolding polls_advance_def by blast
  then have "5 * int k * 1000000 \<le> pv_now (polls k) - started" by simp
  then have "5 * int k \<le> elapsed_ms started (pv_now (polls k))"
    unfolding elapsed_ms_def by linarith
  with assms(2) show ?thesis by (cases "pv_cancel (polls k)") (simp_all add: watch_def)
qed

lemma poll_loop_returns:
  assumes "polls_advance started polls"
  shows "\<exists>r. poll_loop lim c started polls k peak = Some r"
proof (induction "nat (sp_time_limit_ms c) - k" arbitrary: k peak rule: less_induct)
  case less
  show ?case
  proof (cases "watch lim c started (polls k) = Inr None")
    case True
    with watch_at_limit [OF assms, of c k lim] have "\<not> sp_time_limit_ms c \<le> 5 * int k" by blast
    then have "nat (sp_time_limit_ms c) - Suc k < nat (sp_time_limit_ms c) - k" by linarith
    from less [OF this] show ?thesis by (subst poll_loop.simps) (simp add: True)
  next
    case False
    then show ?thesis
      by (subst poll_loop.simps) (auto split: sum.splits option.splits)
  qed
qed

section \<open>The result of a case\<close>

text \<open>The states a case ends in, and what a complete result looks like.\<close>

definition case_states :: "job_state list" where
  "case_states = [Completed, RuntimeErr, TimeLimit, MemoryLimit, OutputLimit, Cancelled]"

definition sound_case :: "int \<Rightarrow> case_result \<Rightarrow> bool" where
  "sound_case position r \<longleftrightarrow>
     ca_position r = position \<and> ca_status r \<in> set case_states
     \<and> (ca_status r = Completed \<longrightarrow> ca_exit_code r = Some 0 \<and> ca_term_signal r = None \<and> \<not> ca_output_truncated r)
     \<and> (ca_exit_code r = None \<or> ca_term_signal r = None)
     \<and> (case ca_exit_code r of None \<Rightarrow> True | Some n \<Rightarrow> 0 \<le> n)
     \<and> (case ca_term_signal r of None \<Rightarrow> True | Some n \<Rightarrow> 0 < n)
     \<and> (case ca_wall_time_ms r of None \<Rightarrow> False | Some n \<Rightarrow> 0 \<le> n)
     \<and> (case ca_peak_memory_kib r of None \<Rightarrow> True | Some n \<Rightarrow> 0 \<le> n)"

lemma case_outcome_sound:
  assumes "rv_started v \<le> rv_ended v" and "0 \<le> peak"
    and "\<And>trunc err. status_of trunc err \<in> set case_states"
    and "\<And>trunc err. status_of trunc err = Completed \<Longrightarrow> rv_return_code v = 0 \<and> \<not> trunc"
  shows "sound_case position (case_outcome decode lim v position peak status_of)"
proof -
  obtain out oc where out: "read_limited decode (rv_stdout v) (rl_stdout_limit_bytes lim) = (out, oc)" by fastforce
  obtain err ec where err: "read_limited decode (rv_stderr v) (rl_stderr_limit_bytes lim) = (err, ec)" by fastforce
  have "0 \<le> elapsed_ms (rv_started v) (rv_ended v)" using assms(1) by (simp add: elapsed_ms_def)
  with assms(2) assms(3) [of "oc \<or> ec" err] assms(4) [of "oc \<or> ec" err] show ?thesis
    by (auto simp: sound_case_def case_outcome_def out err Let_def)
qed

lemma local_status_states:
  assumes "st \<in> set (Running # stop_states)"
  shows "local_status st trunc code err \<in> set case_states"
    and "local_status st trunc code err = Completed \<Longrightarrow> code = 0 \<and> \<not> trunc"
  using assms by (auto simp: local_status_def case_states_def stop_states_def split: if_splits)

lemma sandbox_status_states:
  assumes "st \<in> set (Running # stop_states)"
  shows "sandbox_status st oom trunc code err \<in> set case_states"
    and "sandbox_status st oom trunc code err = Completed \<Longrightarrow> code = 0 \<and> \<not> trunc"
  using assms by (auto simp: sandbox_status_def case_states_def stop_states_def split: if_splits)

lemma local_run_case_sound:
  assumes "local_run_case decode lim v position c h = Some (Inr r, h')" and "rv_started v \<le> rv_ended v"
  shows "sound_case position r"
proof -
  from assms(1) obtain st peak where loop: "poll_loop lim c (rv_started v) (rv_polls v) 0 0 = Some (Inr (st, peak))"
    and r: "r = case_outcome decode lim v position (observe peak (rv_rss_after v))
              (\<lambda>trunc err. local_status st trunc (rv_return_code v) err)"
    by (auto simp: local_run_case_def split: prod.splits sum.splits option.splits)
  from poll_loop_result [OF loop] have st: "st \<in> set (Running # stop_states)" and "0 \<le> peak" by simp_all
  then have "0 \<le> observe peak (rv_rss_after v)" using observe_ge order_trans by blast
  then show ?thesis
    unfolding r using assms(2) local_status_states [OF st] by (intro case_outcome_sound) blast+
qed

lemma sandbox_run_case_cases:
  assumes "sandbox_run_case decode lim m owner job_id v position c h = Some (Inr r, h')"
  obtains g h1 h2 st peak where
    "followed (lift (rv_input v))
       (andthen (new_run_cgroup m owner job_id position (sp_memory_limit_mib c)) (\<lambda>g.
          followed (spawn_in m g (rv_spawn v)) (ret g))) h = (Inr g, h1)"
    "poll_loop lim c (rv_started v) (rv_polls v) 0 0 = Some (Inr (st, peak))"
    "(if st = Running then ret () else terminate m g) h1 = (Inr (), h2)"
    "close_cgroup m g (rv_kernel v h2) = (Inr (), h')"
    "r = case_outcome decode lim v position peak
           (\<lambda>trunc err. sandbox_status st (group_oom m g (rv_kernel v h2)) trunc (rv_return_code v) err)"
  using assms unfolding sandbox_run_case_def
  by (auto simp: Let_def split: prod.splits sum.splits option.splits)

lemma sandbox_run_case_sound:
  assumes "sandbox_run_case decode lim m owner job_id v position c h = Some (Inr r, h')"
    and "rv_started v \<le> rv_ended v"
  shows "sound_case position r"
  using assms(1)
proof (cases rule: sandbox_run_case_cases)
  case (1 g h1 h2 st peak)
  from poll_loop_result [OF 1(2)] have st: "st \<in> set (Running # stop_states)" and "0 \<le> peak" by simp_all
  then show ?thesis
    unfolding 1(5) using assms(2) sandbox_status_states [OF st] by (intro case_outcome_sound) blast+
qed

section \<open>The results of a submission\<close>

lemma cancelled_case_sound: "sound_case i (cancelled_case m i)"
  by (simp add: sound_case_def cancelled_case_def case_states_def)

lemma cancelled_from_Cons: "cancelled_from m i (c # cs) = cancelled_case m i # cancelled_from m (i + 1) cs"
  unfolding cancelled_from_def
  by (rule nth_equalityI) (auto simp: nth_Cons' simp flip: upt_Suc split: if_splits intro!: arg_cong [where f = "cancelled_case m"])

lemma cancelled_from_status: "r \<in> set (cancelled_from m i cs) \<Longrightarrow> ca_status r = Cancelled"
  by (auto simp: cancelled_from_def cancelled_case_def)

lemma cancelled_from_sound: "list_all2 sound_case (map (\<lambda>k. i + int k) [0..<length cs]) (cancelled_from m i cs)"
  by (auto simp: cancelled_from_def list_all2_conv_all_nth cancelled_case_sound)

lemma cancelled_from_length [simp]: "length (cancelled_from m i cs) = length cs"
  by (simp add: cancelled_from_def)

text \<open>The results in order: the cases that did to an end of their own, then the cancelled ones. When the
  submission was cancelled the first of them is the case that saw the cancellation; otherwise the
  submission did out of time.\<close>

definition results_shape :: "bool \<Rightarrow> int \<Rightarrow> 'c list \<Rightarrow> case_result list \<Rightarrow> bool" where
  "results_shape cancelled i cs rs \<longleftrightarrow>
     list_all2 sound_case (map (\<lambda>k. i + int k) [0..<length cs]) rs
     \<and> (\<exists>did stopped. rs = did @ stopped \<and> (\<forall>r \<in> set did. ca_status r \<noteq> Cancelled)
          \<and> (if cancelled
             then stopped \<noteq> [] \<and> ca_status (hd stopped) = Cancelled
               \<and> tl stopped = cancelled_from cancel_message (i + int (length did) + 1) (drop (Suc (length did)) cs)
             else stopped = cancelled_from wall_message (i + int (length did)) (drop (length did) cs)))"

lemma positions_Cons: "map (\<lambda>k. i + int k) [0..<Suc n] = i # map (\<lambda>k. (i + 1) + int k) [0..<n]" for i :: int
  by (rule nth_equalityI) (auto simp: nth_Cons' simp flip: upt_Suc)

lemma results_shape_Nil: "results_shape False i [] []"
  by (simp add: results_shape_def cancelled_from_def)

lemma results_shapeI:
  assumes "list_all2 sound_case (map (\<lambda>k. i + int k) [0..<length cs]) rs"
    and "rs = did @ stopped" and "\<forall>r \<in> set did. ca_status r \<noteq> Cancelled"
    and "if cancelled
         then stopped \<noteq> [] \<and> ca_status (hd stopped) = Cancelled
           \<and> tl stopped = cancelled_from cancel_message (i + int (length did) + 1) (drop (Suc (length did)) cs)
         else stopped = cancelled_from wall_message (i + int (length did)) (drop (length did) cs)"
  shows "results_shape cancelled i cs rs"
  unfolding results_shape_def using assms by blast

lemma results_shape_wall: "results_shape False i cs (cancelled_from wall_message i cs)"
  by (rule results_shapeI [where did = "[]"]) (simp_all add: cancelled_from_sound)

lemma results_shape_cancelled:
  assumes "sound_case i r" and "ca_status r = Cancelled"
  shows "results_shape True i (c # cs) (r # cancelled_from cancel_message (i + 1) cs)"
proof (rule results_shapeI [where did = "[]" and stopped = "r # cancelled_from cancel_message (i + 1) cs"])
  show "list_all2 sound_case (map (\<lambda>k. i + int k) [0..<length (c # cs)]) (r # cancelled_from cancel_message (i + 1) cs)"
    using assms(1) cancelled_from_sound [of "i + 1" cs cancel_message] by (simp add: positions_Cons del: upt_Suc)
qed (simp_all add: assms(2))

lemma results_shape_Cons:
  assumes "sound_case i r" and "ca_status r \<noteq> Cancelled" and "results_shape b (i + 1) cs rs"
  shows "results_shape b i (c # cs) (r # rs)"
proof -
  from assms(3) obtain did stopped where rs: "rs = did @ stopped" "\<forall>r \<in> set did. ca_status r \<noteq> Cancelled"
    and tail: "if b
       then stopped \<noteq> [] \<and> ca_status (hd stopped) = Cancelled
         \<and> tl stopped = cancelled_from cancel_message (i + 1 + int (length did) + 1) (drop (Suc (length did)) cs)
       else stopped = cancelled_from wall_message (i + 1 + int (length did)) (drop (length did) cs)"
    and sound: "list_all2 sound_case (map (\<lambda>k. (i + 1) + int k) [0..<length cs]) rs"
    unfolding results_shape_def by blast
  show ?thesis
  proof (rule results_shapeI [where did = "r # did"])
    show "list_all2 sound_case (map (\<lambda>k. i + int k) [0..<length (c # cs)]) (r # rs)"
      using sound assms(1) by (simp add: positions_Cons del: upt_Suc)
    show "r # rs = (r # did) @ stopped" using rs(1) by simp
    show "\<forall>q \<in> set (r # did). ca_status q \<noteq> Cancelled" using rs(2) assms(2) by simp
    show "if b
       then stopped \<noteq> [] \<and> ca_status (hd stopped) = Cancelled
         \<and> tl stopped = cancelled_from cancel_message (i + int (length (r # did)) + 1) (drop (Suc (length (r # did))) (c # cs))
       else stopped = cancelled_from wall_message (i + int (length (r # did))) (drop (length (r # did)) (c # cs))"
      using tail by (simp add: algebra_simps split: if_splits)
  qed
qed

lemma run_cases_shape:
  assumes run: "\<And>j c h r h'. run j c h = Some (Inr r, h') \<Longrightarrow> sound_case j r"
    and "run_cases x d run i cs h = Some (Inr (b, rs), h')"
  shows "results_shape b i cs rs"
  using assms(2)
proof (induction cs arbitrary: i h b rs)
  case Nil
  then show ?case by (simp add: results_shape_Nil)
next
  case (Cons c cs)
  let ?c = "c\<lparr>sp_time_limit_ms := min (sp_time_limit_ms c) (remaining_ms d (xv_now x i))\<rparr>"
  from Cons.prems consider
      "b" "rs = cancelled_from cancel_message i (c # cs)"
    | "\<not> b" "rs = cancelled_from wall_message i (c # cs)"
    | r h1 where "run i ?c h = Some (Inr r, h1)" "ca_status r = Cancelled" "b"
        "rs = r # cancelled_from cancel_message (i + 1) cs"
    | r h1 rs' where "run i ?c h = Some (Inr r, h1)" "ca_status r \<noteq> Cancelled"
        "run_cases x d run (i + 1) cs h1 = Some (Inr (b, rs'), h')" "rs = r # rs'"
    by (auto simp: Let_def split: sum.splits bool.splits option.splits prod.splits if_splits)
  then show ?case
  proof cases
    case 1
    then show ?thesis
      using results_shape_cancelled [OF cancelled_case_sound] by (simp add: cancelled_from_Cons cancelled_case_def)
  next
    case 2
    then show ?thesis using results_shape_wall by simp
  next
    case 3
    then show ?thesis using results_shape_cancelled [OF run [OF 3(1)]] by simp
  next
    case 4
    then show ?thesis using results_shape_Cons [OF run [OF 4(1)] 4(2) Cons.IH [OF 4(3)]] by simp
  qed
qed

lemma run_cases_returns:
  assumes "\<And>j c h. \<exists>out. run j c h = Some out"
  shows "\<exists>out. run_cases x d run i cs h = Some out"
proof (induction cs arbitrary: i h)
  case (Cons c cs)
  let ?c = "c\<lparr>sp_time_limit_ms := min (sp_time_limit_ms c) (remaining_ms d (xv_now x i))\<rparr>"
  from assms [of i ?c h] obtain r h1 where "run i ?c h = Some (r, h1)" by auto
  with Cons.IH [of "i + 1" h1] show ?case
    by (cases r) (auto simp: Let_def split: sum.splits bool.splits)
qed simp

lemma run_cases_budget:
  assumes "\<And>j c h. 0 < remaining_ms d (xv_now x j) \<Longrightarrow> sp_time_limit_ms c \<le> remaining_ms d (xv_now x j)
      \<Longrightarrow> run j c h = run' j c h"
  shows "run_cases x d run i cs h = run_cases x d run' i cs h"
proof (induction cs arbitrary: i h)
  case (Cons c cs)
  show ?case
  proof (cases "0 < remaining_ms d (xv_now x i)")
    case True
    let ?c = "c\<lparr>sp_time_limit_ms := min (sp_time_limit_ms c) (remaining_ms d (xv_now x i))\<rparr>"
    from True have "run i ?c h = run' i ?c h" by (intro assms) simp_all
    with Cons.IH show ?thesis by (auto simp: Let_def split: sum.splits option.splits bool.splits)
  next
    case False
    then show ?thesis by (auto simp: Let_def split: sum.splits bool.splits)
  qed
qed simp

end
