(* ===== verification/Cgroup_Laws.thy ===== *)
theory Cgroup_Laws
  imports Cgroup
begin

text \<open>
  What the cgroup code guarantees over any file system that keeps the interface's laws: the limits a
  group gets, the frame of each operation, the separation of the groups' paths, and the end of a group.
  The laws are checked for \<open>MemoryCgroupFilesystem\<close>.
\<close>

section \<open>The laws of the interface\<close>

text \<open>\<open>last_write\<close> is the value last written to a control file, \<open>is_dir\<close> the existing groups.\<close>

locale cgroup_files =
  fixes fs :: "'h cgroup_fs"
    and last_write :: "'h \<Rightarrow> string \<Rightarrow> string option"
    and is_dir :: "'h \<Rightarrow> string \<Rightarrow> bool"
  assumes mkdir_keeps: "fs_mkdir fs p h = (r, h') \<Longrightarrow> last_write h' = last_write h"
    and mkdir_dirs: "fs_mkdir fs p h = (r, h') \<Longrightarrow> is_dir h q \<Longrightarrow> is_dir h' q"
    and mkdir_makes: "fs_mkdir fs p h = (Inr (), h') \<Longrightarrow> is_dir h' p"
    and write_file: "fs_write fs p v h = (Inr (), h') \<Longrightarrow> last_write h' = (last_write h)(p \<mapsto> v)"
    and write_dirs: "fs_write fs p v h = (r, h') \<Longrightarrow> is_dir h' = is_dir h"
    and kill_keeps: "fs_kill fs pid sig h = (r, h') \<Longrightarrow> last_write h' = last_write h \<and> is_dir h' = is_dir h"
    and rmdir_keeps: "fs_rmdir fs p h = (r, h') \<Longrightarrow> last_write h' = last_write h"
    and rmdir_dirs: "fs_rmdir fs p h = (r, h') \<Longrightarrow> is_dir h' q \<Longrightarrow> is_dir h q"
begin

definition group_limits :: "'h \<Rightarrow> string \<Rightarrow> int \<Rightarrow> int \<Rightarrow> bool" where
  "group_limits h g memory_mib pids \<longleftrightarrow>
     is_dir h g
     \<and> last_write h (g @ ''/memory.max'') = Some (int_text (memory_mib * 1024 * 1024))
     \<and> last_write h (g @ ''/memory.swap.max'') = Some ''0''
     \<and> last_write h (g @ ''/pids.max'') = Some (int_text pids)"

text \<open>The files of a group, and the state that keeps everything outside a set of files.\<close>

definition keeps_files :: "(string \<Rightarrow> bool) \<Rightarrow> 'h \<Rightarrow> 'h \<Rightarrow> bool" where
  "keeps_files P h h' \<longleftrightarrow> (\<forall>q. P q \<longrightarrow> last_write h' q = last_write h q) \<and> (\<forall>q. is_dir h q \<longrightarrow> is_dir h' q)"

definition group_files :: "string \<Rightarrow> string set" where
  "group_files g = {g @ ''/memory.max'', g @ ''/memory.swap.max'', g @ ''/pids.max''}"

lemma keeps_files_mkdir: "fs_mkdir fs p h = (r, h') \<Longrightarrow> keeps_files P h h'"
  by (simp add: keeps_files_def mkdir_keeps mkdir_dirs)

lemma keeps_files_write: "fs_write fs p v h = (Inr (), h') \<Longrightarrow> \<not> P p \<Longrightarrow> keeps_files P h h'"
  by (auto simp: keeps_files_def write_file write_dirs)

lemma keeps_files_trans: "keeps_files P h h' \<Longrightarrow> keeps_files P h' h'' \<Longrightarrow> keeps_files P h h''"
  by (simp add: keeps_files_def)

lemma keeps_files_weaken: "keeps_files P h h' \<Longrightarrow> (\<And>q. Q q \<Longrightarrow> P q) \<Longrightarrow> keeps_files Q h h'"
  by (simp add: keeps_files_def)

lemma make_group_limits:
  assumes "make_group fs g memory_mib pids h = (Inr g', h')"
  shows "g' = g" and "0 < memory_mib" and "0 < pids" and "group_limits h' g memory_mib pids"
    and "keeps_files (\<lambda>q. q \<notin> group_files g) h h'"
proof -
  from assms have pos: "0 < memory_mib" "0 < pids" and g': "g' = g"
    by (auto simp: make_group_def positive_def split: if_splits)
  then obtain h1 h2 h3 where steps:
      "fs_mkdir fs g h = (Inr (), h1)"
      "fs_write fs (g @ ''/memory.max'') (int_text (memory_mib * 1024 * 1024)) h1 = (Inr (), h2)"
      "fs_write fs (g @ ''/memory.swap.max'') ''0'' h2 = (Inr (), h3)"
      "fs_write fs (g @ ''/pids.max'') (int_text pids) h3 = (Inr (), h')"
    using assms by (auto simp: make_group_def positive_def)
  show "0 < memory_mib" "0 < pids" "g' = g" using pos g' by blast+
  show "group_limits h' g memory_mib pids"
    using mkdir_makes [OF steps(1)] steps(2-4)
    by (simp add: group_limits_def write_file write_dirs)
  have "keeps_files (\<lambda>q. q \<notin> group_files g) h h1" using steps(1) by (rule keeps_files_mkdir)
  moreover have "keeps_files (\<lambda>q. q \<notin> group_files g) h1 h2"
    using steps(2) by (rule keeps_files_write) (simp add: group_files_def)
  moreover have "keeps_files (\<lambda>q. q \<notin> group_files g) h2 h3"
    using steps(3) by (rule keeps_files_write) (simp add: group_files_def)
  moreover have "keeps_files (\<lambda>q. q \<notin> group_files g) h3 h'"
    using steps(4) by (rule keeps_files_write) (simp add: group_files_def)
  ultimately show "keeps_files (\<lambda>q. q \<notin> group_files g) h h'" by (blast intro: keeps_files_trans)
qed

lemma group_limits_kept:
  assumes "group_limits h g m n" and "keeps_files P h h'" and "\<And>q. q \<in> group_files g \<Longrightarrow> P q"
  shows "group_limits h' g m n"
  using assms unfolding group_limits_def keeps_files_def group_files_def by auto

text \<open>The files \<open>run_group\<close> may write: those of the group, of its user and the two delegations.\<close>

definition run_files :: "string \<Rightarrow> string \<Rightarrow> int \<Rightarrow> int \<Rightarrow> string set" where
  "run_files root owner job_id position =
     group_files (run_group_path root owner job_id position) \<union> group_files (owner_path root owner)
     \<union> {root @ ''/users/cgroup.subtree_control'', owner_path root owner @ ''/cgroup.subtree_control''}"

lemma run_group_limits:
  assumes "run_group fs root owner job_id position memory_mib aggregate_mib h = (Inr g, h')"
  shows "g = run_group_path root owner job_id position" and "canonical_uuid owner"
    and "0 < job_id" and "0 < position" and "0 < memory_mib" and "memory_mib \<le> aggregate_mib"
    and "group_limits h' g memory_mib 8" and "group_limits h' (owner_path root owner) aggregate_mib 32"
    and "keeps_files (\<lambda>q. q \<notin> run_files root owner job_id position) h h'"
proof -
  let ?parent = "owner_path root owner" and ?child = "run_group_path root owner job_id position"
  from assms have arguments: "canonical_uuid owner" "0 < job_id" "0 < position" "0 < memory_mib"
      "memory_mib \<le> aggregate_mib"
    by (auto simp: run_group_def positive_def owner_uuid_def require_uuid_def split: if_splits)
  with assms obtain h1 h2 h3 h4 p where steps:
      "fs_mkdir fs (root @ ''/users'') h = (Inr (), h1)"
      "enable_controllers fs (root @ ''/users'') h1 = (Inr (), h2)"
      "make_group fs ?parent aggregate_mib 32 h2 = (Inr p, h3)"
      "enable_controllers fs p h3 = (Inr (), h4)"
      "make_group fs ?child memory_mib 8 h4 = (Inr g, h')"
    by (auto simp: run_group_def positive_def owner_uuid_def require_uuid_def)
  note parent = make_group_limits [OF steps(3)] and child = make_group_limits [OF steps(5)]
  have parent_child: "group_files ?parent \<inter> group_files ?child = {}"
    by (auto simp: group_files_def run_group_path_def)
  have delegation: "?parent @ ''/cgroup.subtree_control'' \<notin> group_files ?parent"
    by (simp add: group_files_def)
  have k4: "keeps_files (\<lambda>q. q \<noteq> ?parent @ ''/cgroup.subtree_control'') h3 h4"
    using steps(4) unfolding enable_controllers_def parent(1) by (rule keeps_files_write) simp
  show "group_limits h' ?parent aggregate_mib 32"
  proof (rule group_limits_kept [OF _ child(5)])
    show "group_limits h4 ?parent aggregate_mib 32"
      by (rule group_limits_kept [OF parent(4) k4]) (use delegation in blast)
  qed (use parent_child in blast)
  let ?F = "\<lambda>q. q \<notin> run_files root owner job_id position"
  have "keeps_files ?F h h1" using steps(1) by (rule keeps_files_mkdir)
  moreover have "keeps_files ?F h1 h2"
    using steps(2) unfolding enable_controllers_def by (rule keeps_files_write) (simp add: run_files_def)
  moreover have "keeps_files ?F h2 h3"
    using parent(5) by (rule keeps_files_weaken) (simp add: run_files_def)
  moreover have "keeps_files ?F h3 h4"
    using k4 by (rule keeps_files_weaken) (auto simp: run_files_def)
  moreover have "keeps_files ?F h4 h'"
    using child(5) by (rule keeps_files_weaken) (simp add: run_files_def)
  ultimately show "keeps_files ?F h h'" by (blast intro: keeps_files_trans)
  show "g = ?child" "group_limits h' g memory_mib 8" using child(1,4) by simp_all
qed (use assms in \<open>auto simp: run_group_def positive_def owner_uuid_def require_uuid_def split: if_splits\<close>)

text \<open>The whole effect of \<open>run_group\<close>: the case's group, its user's group above it, and nothing else.\<close>

lemma run_group_effect:
  assumes "run_group fs root owner job_id position memory_mib aggregate_mib h = (Inr g, h')"
  shows "g = run_group_path root owner job_id position \<and> is_dir h' g \<and> memory_mib \<le> aggregate_mib
    \<and> last_write h' (g @ ''/memory.max'') = Some (int_text (memory_mib * 1024 * 1024))
    \<and> last_write h' (g @ ''/memory.swap.max'') = Some ''0'' \<and> last_write h' (g @ ''/pids.max'') = Some ''8''
    \<and> last_write h' (owner_path root owner @ ''/memory.max'') = Some (int_text (aggregate_mib * 1024 * 1024))
    \<and> last_write h' (owner_path root owner @ ''/memory.swap.max'') = Some ''0''
    \<and> last_write h' (owner_path root owner @ ''/pids.max'') = Some ''32''
    \<and> (\<forall>q. \<not> starts_with q (owner_path root owner) \<and> q \<noteq> root @ ''/users/cgroup.subtree_control''
         \<longrightarrow> last_write h' q = last_write h q)"
proof -
  note limits = run_group_limits [OF assms]
  have texts: "int_text 8 = ''8''" "int_text 32 = ''32''" by code_simp+
  have "starts_with q (owner_path root owner) \<or> q = root @ ''/users/cgroup.subtree_control''"
    if "q \<in> run_files root owner job_id position" for q
    using that by (auto simp: run_files_def group_files_def run_group_path_def starts_with_iff)
  then have "\<forall>q. \<not> starts_with q (owner_path root owner) \<and> q \<noteq> root @ ''/users/cgroup.subtree_control''
      \<longrightarrow> last_write h' q = last_write h q"
    using limits(9) by (auto simp: keeps_files_def)
  with limits(1,6,7,8) texts show ?thesis by (simp add: group_limits_def)
qed

lemma for_each_kill_keeps:
  "for_each (\<lambda>pid. fs_kill fs pid sig) pids h = (r, h') \<Longrightarrow> last_write h' = last_write h \<and> is_dir h' = is_dir h"
proof (induction pids arbitrary: h)
  case (Cons pid pids)
  then show ?case
    using kill_keeps [of pid sig h] by (fastforce simp: andthen_def split: prod.splits sum.splits)
qed simp

lemma kill_all_dirs: "kill_all fs g h = (r, h') \<Longrightarrow> is_dir h' = is_dir h"
  by (auto simp: kill_all_def split: if_splits dest: write_dirs for_each_kill_keeps)

end

text \<open>A file system whose operations do not fail and whose \<open>rmdir\<close> removes the directory.\<close>

locale reliable_cgroup_files = cgroup_files +
  assumes mkdir_ok: "\<exists>h'. fs_mkdir fs p h = (Inr (), h')"
    and write_ok: "\<exists>h'. fs_write fs p v h = (Inr (), h')"
    and kill_ok: "\<exists>h'. fs_kill fs pid sig h = (Inr (), h')"
    and rmdir_ok: "\<exists>h'. fs_rmdir fs p h = (Inr (), h')"
    and rmdir_removes: "fs_rmdir fs p h = (r, h') \<Longrightarrow> is_dir h' q \<longleftrightarrow> q \<noteq> p \<and> is_dir h q"
begin

lemma make_group_ok:
  assumes "0 < memory_mib" and "0 < pids"
  shows "\<exists>h'. make_group fs g memory_mib pids h = (Inr g, h')"
proof -
  obtain h1 where 1: "fs_mkdir fs g h = (Inr (), h1)" using mkdir_ok by blast
  obtain h2 where 2: "fs_write fs (g @ ''/memory.max'') (int_text (memory_mib * 1024 * 1024)) h1 = (Inr (), h2)"
    using write_ok by blast
  obtain h3 where 3: "fs_write fs (g @ ''/memory.swap.max'') ''0'' h2 = (Inr (), h3)" using write_ok by blast
  obtain h4 where 4: "fs_write fs (g @ ''/pids.max'') (int_text pids) h3 = (Inr (), h4)" using write_ok by blast
  from 1 2 3 4 assms show ?thesis by (simp add: make_group_def positive_def)
qed

text \<open>\<open>run_group\<close> fails exactly on bad arguments, and then it has done nothing.\<close>

lemma run_group_ok:
  assumes "canonical_uuid owner" and "0 < job_id" and "0 < position" and "0 < memory_mib"
    and "memory_mib \<le> aggregate_mib"
  shows "\<exists>h'. run_group fs root owner job_id position memory_mib aggregate_mib h
    = (Inr (run_group_path root owner job_id position), h')"
proof -
  obtain h1 where 1: "fs_mkdir fs (root @ ''/users'') h = (Inr (), h1)" using mkdir_ok by blast
  obtain h2 where 2: "enable_controllers fs (root @ ''/users'') h1 = (Inr (), h2)"
    using write_ok unfolding enable_controllers_def by blast
  obtain h3 where 3: "make_group fs (owner_path root owner) aggregate_mib 32 h2 = (Inr (owner_path root owner), h3)"
    using make_group_ok [of aggregate_mib 32] assms by fastforce
  obtain h4 where 4: "enable_controllers fs (owner_path root owner) h3 = (Inr (), h4)"
    using write_ok unfolding enable_controllers_def by blast
  obtain h5 where 5: "make_group fs (run_group_path root owner job_id position) memory_mib 8 h4
      = (Inr (run_group_path root owner job_id position), h5)"
    using make_group_ok [of memory_mib 8] assms by fastforce
  from 1 2 3 4 5 assms show ?thesis
    by (simp add: run_group_def positive_def owner_uuid_def require_uuid_def)
qed

lemma run_group_refused:
  assumes "\<not> (canonical_uuid owner \<and> 0 < job_id \<and> 0 < position \<and> 0 < memory_mib \<and> memory_mib \<le> aggregate_mib)"
  shows "\<exists>m. run_group fs root owner job_id position memory_mib aggregate_mib h = (Inl (ValueError m), h)"
  using assms
  by (auto simp: run_group_def positive_def owner_uuid_def require_uuid_def raise_def lift_def andthen_def)

lemma for_each_kill_ok: "\<exists>h'. for_each (\<lambda>pid. fs_kill fs pid sig) pids h = (Inr (), h')"
proof (induction pids arbitrary: h)
  case (Cons pid pids)
  obtain h1 where "fs_kill fs pid sig h = (Inr (), h1)" using kill_ok by blast
  with Cons.IH [of h1] show ?case by simp
qed simp

lemma close_group_removes:
  "\<exists>h'. close_group fs g h = (Inr (), h') \<and> (\<forall>q. is_dir h' q \<longleftrightarrow> q \<noteq> g \<and> is_dir h q)"
proof -
  have "\<exists>h1. kill_all fs g h = (Inr (), h1)"
    using for_each_kill_ok write_ok by (simp add: kill_all_def)
  then obtain h1 where 1: "kill_all fs g h = (Inr (), h1)" ..
  obtain h2 where 2: "fs_rmdir fs g h1 = (Inr (), h2)" using rmdir_ok by blast
  from 1 2 rmdir_removes [OF 2] kill_all_dirs [OF 1] show ?thesis by (auto simp: close_group_def)
qed

end

lemma oom_counters_last:
  "event_counters (ls @ [l]) m k =
     (case words_of l of
        [k', v] \<Rightarrow> if list_all is_digit v \<and> k' = k then Some (digits_value v) else event_counters ls m k
      | _ \<Rightarrow> event_counters ls m k)"
  by (induction ls arbitrary: m) (auto split: list.splits)

section \<open>MemoryCgroupFilesystem keeps the laws\<close>

interpretation memory: reliable_cgroup_files memory_cgroups controls "\<lambda>h p. p \<in> directories h"
  by unfold_locales (auto simp: memory_fs_defs path_and_parents_self)

section \<open>Separation of groups\<close>

lemma slash_not_in_owner: "canonical_uuid owner \<Longrightarrow> CHR ''/'' \<notin> set owner"
  using canonical_uuid_chars [of owner "CHR ''/''"] by (auto simp: lower_hex_def)

lemma digits_then_separator:
  assumes "a @ c # x = b @ c # y" and "c \<notin> set a" and "c \<notin> set b"
  shows "a = b \<and> x = y"
  using assms by (induction a arbitrary: b) (auto simp: Cons_eq_append_conv append_eq_Cons_conv)

lemma dash_not_in_number: "0 \<le> i \<Longrightarrow> CHR ''-'' \<notin> set (int_text i)"
  using int_text_digits [of i "CHR ''-''"] by (auto simp: is_digit_def)

lemma run_group_path_inject:
  assumes "canonical_uuid owner" and "canonical_uuid owner'"
    and "0 < job_id" and "0 < job_id'" and "0 < position" and "0 < position'"
    and "run_group_path root owner job_id position = run_group_path root owner' job_id' position'"
  shows "owner = owner' \<and> job_id = job_id' \<and> position = position'"
proof -
  let ?rest = "\<lambda>j p. ''job-'' @ int_text j @ ''-case-'' @ int_text p"
  have "owner @ CHR ''/'' # ?rest job_id position = owner' @ CHR ''/'' # ?rest job_id' position'"
    using assms(7) by (simp add: run_group_path_def owner_path_def)
  from digits_then_separator [OF this slash_not_in_owner [OF assms(1)] slash_not_in_owner [OF assms(2)]]
  have owners: "owner = owner'" and rest: "?rest job_id position = ?rest job_id' position'" by blast+
  have "int_text job_id @ CHR ''-'' # (''case-'' @ int_text position)
      = int_text job_id' @ CHR ''-'' # (''case-'' @ int_text position')"
    using rest by simp
  from digits_then_separator [OF this dash_not_in_number dash_not_in_number] assms(3,4)
  have "int_text job_id = int_text job_id'" "int_text position = int_text position'" by simp_all
  with owners assms(3-6) show ?thesis by (simp add: int_text_inject_pos)
qed

end
