(* ===== verification/Runner_Sample.thy ===== *)
theory Runner_Sample
  imports Runner_Laws Cgroup_Laws
begin

text \<open>
  Concrete runs for the witnesses: a compiler that succeeds, a process seen running for some polls, and
  the empty in-memory cgroup file system.
\<close>

section \<open>A case that runs to its end\<close>

context reliable_cgroup_files
begin

text \<open>A case with good arguments whose process starts and ends by itself produces a result.\<close>

lemma case_runs:
  assumes "canonical_uuid owner" and "0 < job_id" and "0 < position" and "0 < sp_memory_limit_mib c"
    and "sp_memory_limit_mib c \<le> 256" and "rv_input v = Inr ()" and "rv_spawn v = ret ()"
    and "poll_loop lim c (rv_started v) (rv_polls v) 0 0 = Some (Inr (Running, peak))"
  shows "\<exists>r h'. sandbox_run_case decode lim (Some \<lparr>cm_fs = fs, cm_root = root\<rparr>) owner job_id v position c h
    = Some (Inr r, h')"
proof -
  let ?g = "run_group_path root owner job_id position"
  obtain h1 where group: "run_group fs root owner job_id position (sp_memory_limit_mib c) 256 h = (Inr ?g, h1)"
    using run_group_ok [OF assms(1-5)] by blast
  have "\<exists>h2. preexec_attach fs ?g h1 = (Inr (), h2)"
    using write_ok by (simp add: preexec_attach_def attach_pid_def)
  then obtain h2 where attach: "preexec_attach fs ?g h1 = (Inr (), h2)" ..
  obtain h3 where "close_group fs ?g (rv_kernel v h2) = (Inr (), h3)"
    using close_group_removes by blast
  with group attach assms(6-8) show ?thesis
    by (simp add: sandbox_run_case_def new_run_cgroup_def spawn_in_def close_cgroup_def Let_def andthen_def
        MAX_USER_RUNNING_MEMORY_MIB_def)
qed

end

section \<open>Sample runs\<close>

definition empty_fs :: memory_fs where
  "empty_fs = \<lparr>directories = {}, controls = Map.empty, write_log = (\<lambda>_. []), member_map = (\<lambda>_. []), killed = []\<rparr>"

definition sample_limits :: runner_limits where
  "sample_limits =
     \<lparr>rl_compile_wall_ms = 30000, rl_compile_memory_mib = 512, rl_stdout_limit_bytes = 16,
      rl_stderr_limit_bytes = 8, rl_total_wall_ms = 180000\<rparr>"

definition sample_owner :: string where
  "sample_owner = ''00000000-0000-0000-0000-000000000000''"

lemma sample_owner_canonical: "canonical_uuid sample_owner"
  by (rule canonical_shape_uuid) code_simp

definition sample_spec :: compile_spec where
  "sample_spec =
     \<lparr>cs_filename = ''a.cpp'', cs_source = [], cs_compiler = ''gcc-14-gnu++17'', cs_job_id = Some 1,
      cs_owner_public_id = Some sample_owner\<rparr>"

definition sample_case :: "int \<Rightarrow> case_spec" where
  "sample_case memory = \<lparr>sp_input_text = ''1'', sp_time_limit_ms = 1000, sp_memory_limit_mib = memory\<rparr>"

definition sample_compile :: "memory_fs compile_view" where
  "sample_compile =
     \<lparr>cv_started = 0, cv_spawn = ret (), cv_wait = Some 0, cv_killed = - 9, cv_kernel = id, cv_ended = 5000000,
      cv_stdout = [], cv_stderr = []\<rparr>"

text \<open>A process seen running once every ten milliseconds until poll \<open>n\<close>.\<close>

definition sample_poll :: "nat \<Rightarrow> bool result \<Rightarrow> nat \<Rightarrow> poll_view" where
  "sample_poll n cancel k =
     \<lparr>pv_exited = (n \<le> k), pv_now = int k * 10000000, pv_rss = Some 2000, pv_cancel = cancel,
      pv_stdout_size = 0, pv_stderr_size = 0\<rparr>"

definition sample_view :: "nat \<Rightarrow> bool result \<Rightarrow> memory_fs run_view" where
  "sample_view n cancel =
     \<lparr>rv_input = Inr (), rv_started = 0, rv_spawn = ret (), rv_polls = sample_poll n cancel, rv_kernel = id,
      rv_return_code = 0, rv_ended = int n * 10000000, rv_rss_after = None, rv_stdout = ''42'', rv_stderr = []\<rparr>"

definition sample_exec :: "int \<Rightarrow> exec_view" where
  "sample_exec late =
     \<lparr>xv_workspace = Inr (), xv_compiled = 0, xv_cancel = (\<lambda>_. Inr False),
      xv_now = (\<lambda>i. if i = 1 then 0 else late)\<rparr>"

definition sample_manager :: "memory_fs manager" where
  "sample_manager = \<lparr>cm_fs = memory_cgroups, cm_root = ''/r''\<rparr>"

lemmas sample_run_defs = empty_fs_def sample_limits_def sample_spec_def sample_case_def
  sample_compile_def sample_poll_def sample_view_def sample_exec_def sample_manager_def

end
