(* ===== verification/Runner_Properties.thy ===== *)
theory Runner_Properties
  imports Runner_Sample Broker_Properties
begin

text \<open>
  The properties of the runner and of the cgroups it runs cases in. The witnesses
  use the runs of \<open>Runner_Sample\<close>.
\<close>

section \<open>Results of a submission\<close>

lemma execute_cases:
  assumes "execute lim x compile run spec cs h = Some (Inr ex, h')"
    and "\<And>j c h r h'. run j c h = Some (Inr r, h') \<Longrightarrow> sound_case j r"
    and "\<And>h c h'. compile h = (Inr c, h') \<Longrightarrow> cr_status c \<in> set compile_states"
  shows "cr_status (ex_compile ex) \<in> set compile_states
    \<and> (if cr_status (ex_compile ex) = Completed
       then ex_status ex \<in> {Completed, Cancelled} \<and> results_shape (ex_status ex = Cancelled) 1 cs (ex_cases ex)
       else ex_status ex = cr_status (ex_compile ex) \<and> ex_cases ex = [])"
proof (cases "cs_compiler spec \<in> set COMPILERS")
  case False
  with assms(1) show ?thesis by (auto simp: execute_def compile_states_def)
next
  case True
  with assms(1) obtain comp_result h1 where compile: "followed (lift (xv_workspace x)) compile h = (Inr comp_result, h1)"
    and rest: "(if cr_status comp_result \<noteq> Completed
       then Some (Inr \<lparr>ex_status = cr_status comp_result, ex_compile = comp_result, ex_cases = []\<rparr>, h1)
       else case run_cases x (xv_compiled x + rl_total_wall_ms lim * 1000000) run 1 cs h1 of
              None \<Rightarrow> None
            | Some (Inl e, h2) \<Rightarrow> Some (Inl e, h2)
            | Some (Inr (cancelled, rs), h2) \<Rightarrow>
                Some (Inr \<lparr>ex_status = (if cancelled then Cancelled else Completed),
                           ex_compile = comp_result, ex_cases = rs\<rparr>, h2)) = Some (Inr ex, h')"
    by (auto simp: execute_def split: prod.splits sum.splits)
  from compile assms(3) have status: "cr_status comp_result \<in> set compile_states" by auto
  show ?thesis
  proof (cases "cr_status comp_result = Completed")
    case False
    with rest status show ?thesis by auto
  next
    case True
    with rest obtain b rs where
        run: "run_cases x (xv_compiled x + rl_total_wall_ms lim * 1000000) run 1 cs h1 = Some (Inr (b, rs), h')"
      and ex: "ex = \<lparr>ex_status = (if b then Cancelled else Completed), ex_compile = comp_result, ex_cases = rs\<rparr>"
      by (auto split: option.splits sum.splits prod.splits)
    have "results_shape b 1 cs rs" by (rule run_cases_shape [OF assms(2) run])
    with True status show ?thesis by (cases b) (simp_all add: ex)
  qed
qed

lemma compile_outcome_status: "cr_status (compile_outcome decode lim v oom) \<in> set compile_states"
  by (auto simp: compile_outcome_def compile_states_def Let_def split: prod.splits)

lemma compile_outcome_fields:
  "cr_exit_code (compile_outcome decode lim v oom) = Some (return_code v)"
  "cr_wall_time_ms (compile_outcome decode lim v oom) = Some (elapsed_ms (cv_started v) (cv_ended v))"
  by (auto simp: compile_outcome_def Let_def split: prod.splits)

lemma local_compile_status:
  "local_compile decode lim v h = (Inr c, h') \<Longrightarrow> \<exists>oom. c = compile_outcome decode lim v oom"
  by (auto simp: local_compile_def split: prod.splits sum.splits)

lemma sandbox_compile_status:
  assumes "sandbox_compile decode lim m i v h = (Inr c, h')"
  shows "\<exists>oom. c = compile_outcome decode lim v oom"
proof -
  let ?start = "\<lambda>g. followed (spawn_in m g (cv_spawn v)) (if cv_wait v = None then terminate m g else ret ())"
  from assms obtain g h1 where rest: "(case ?start g h1 of
       (Inl e, h1) \<Rightarrow> (case close_cgroup m g h1 of (Inl e', h2) \<Rightarrow> (Inl e', h2) | (Inr _, h2) \<Rightarrow> (Inl e, h2))
     | (Inr _, h1) \<Rightarrow>
         let h2 = cv_kernel v h1; oom = group_oom m g h2
         in followed (close_cgroup m g) (ret (compile_outcome decode lim v oom)) h2) = (Inr c, h')"
    unfolding sandbox_compile_def andthen_Inr by blast
  obtain r h2 where start: "?start g h1 = (r, h2)" by fastforce
  show ?thesis
  proof (cases r)
    case (Inl e)
    with rest show ?thesis unfolding start by (auto split: prod.splits sum.splits)
  next
    case (Inr u)
    with rest show ?thesis unfolding start by (auto simp: Let_def)
  qed
qed

lemma sandbox_execute_inner:
  assumes "sandbox_execute decode lim m x cv rv spec cs h = Some (Inr ex, h')"
  obtains i owner where "execute lim x (sandbox_compile decode lim m i cv)
    (\<lambda>position. sandbox_run_case decode lim m owner i (rv position) position) spec cs h = Some (Inr ex, h')"
  using assms by (auto simp: sandbox_execute_def Let_def split: option.splits)

text \<open>The executions of the two runners.\<close>

definition executes ::
    "(string \<Rightarrow> string) \<Rightarrow> runner_limits \<Rightarrow> 'h manager option \<Rightarrow> exec_view \<Rightarrow> 'h compile_view \<Rightarrow> (int \<Rightarrow> 'h run_view)
      \<Rightarrow> compile_spec \<Rightarrow> case_spec list \<Rightarrow> 'h \<Rightarrow> execution_result \<Rightarrow> bool" where
  "executes decode lim m x cv rv spec cs h ex \<longleftrightarrow>
     (\<exists>h'. sandbox_execute decode lim m x cv rv spec cs h = Some (Inr ex, h')
        \<or> local_execute decode lim x cv rv spec cs h = Some (Inr ex, h'))"

lemma executes_shape:
  assumes "executes decode lim m x cv rv spec cs h ex" and "\<And>i. rv_started (rv i) \<le> rv_ended (rv i)"
  shows "cr_status (ex_compile ex) \<in> set compile_states
    \<and> (if cr_status (ex_compile ex) = Completed
       then ex_status ex \<in> {Completed, Cancelled} \<and> results_shape (ex_status ex = Cancelled) 1 cs (ex_cases ex)
       else ex_status ex = cr_status (ex_compile ex) \<and> ex_cases ex = [])"
proof -
  from assms(1) obtain h' where "sandbox_execute decode lim m x cv rv spec cs h = Some (Inr ex, h')
      \<or> local_execute decode lim x cv rv spec cs h = Some (Inr ex, h')"
    unfolding executes_def by blast
  then show ?thesis
  proof
    assume "sandbox_execute decode lim m x cv rv spec cs h = Some (Inr ex, h')"
    then obtain i owner where run: "execute lim x (sandbox_compile decode lim m i cv)
        (\<lambda>position. sandbox_run_case decode lim m owner i (rv position) position) spec cs h = Some (Inr ex, h')"
      by (rule sandbox_execute_inner)
    show ?thesis
    proof (rule execute_cases [OF run])
      show "sound_case j r" if "sandbox_run_case decode lim m owner i (rv j) j c h0 = Some (Inr r, h1)" for j c h0 r h1
        using that assms(2) by (rule sandbox_run_case_sound)
      show "cr_status c \<in> set compile_states" if "sandbox_compile decode lim m i cv h0 = (Inr c, h1)" for h0 c h1
        using sandbox_compile_status [OF that] compile_outcome_status by metis
    qed
  next
    assume run: "local_execute decode lim x cv rv spec cs h = Some (Inr ex, h')"
    show ?thesis
    proof (rule execute_cases [OF run [unfolded local_execute_def]])
      show "sound_case j r" if "local_run_case decode lim (rv j) j c h0 = Some (Inr r, h1)" for j c h0 r h1
        using that assms(2) by (rule local_run_case_sound)
      show "cr_status c \<in> set compile_states" if "local_compile decode lim cv h0 = (Inr c, h1)" for h0 c h1
        using local_compile_status [OF that] compile_outcome_status by metis
    qed
  qed
qed

lemma execute_compile:
  assumes "execute lim x compile run spec cs h = Some (Inr ex, h')"
  shows "(\<exists>h1 h2. compile h1 = (Inr (ex_compile ex), h2))
    \<or> ex_compile ex = \<lparr>cr_status = SystemError, cr_stdout = [], cr_stderr = ''compiler ID is not approved'',
         cr_exit_code = None, cr_wall_time_ms = Some 0, cr_output_truncated = False\<rparr>"
proof (cases "cs_compiler spec \<in> set COMPILERS")
  case True
  with assms obtain c h1 where "followed (lift (xv_workspace x)) compile h = (Inr c, h1)" and "ex_compile ex = c"
    by (auto simp: execute_def split: prod.splits sum.splits if_splits option.splits)
  then show ?thesis by auto
next
  case False
  with assms show ?thesis by (auto simp: execute_def)
qed

lemma executes_compile:
  assumes "executes decode lim m x cv rv spec cs h ex"
  shows "(\<exists>oom. ex_compile ex = compile_outcome decode lim cv oom)
    \<or> ex_compile ex = \<lparr>cr_status = SystemError, cr_stdout = [], cr_stderr = ''compiler ID is not approved'',
         cr_exit_code = None, cr_wall_time_ms = Some 0, cr_output_truncated = False\<rparr>"
  using assms unfolding executes_def local_execute_def
  by (meson sandbox_execute_inner execute_compile local_compile_status sandbox_compile_status)

text \<open>C7: the results of a submission are complete and in order. When the compilation did not complete
  there are none and the submission has the compiler's status. Otherwise there is exactly one sound result
  for every case, at positions 1, 2, ... (a case that completed has exit code zero and untruncated
  output, exit code and signal exclude each other, numbers are not negative); the cases that ran to their own
  end come first and all later ones are cancelled: after a cancellation with the message of a cancelled
  job and status cancelled, otherwise because the submission's time was used up.\<close>
theorem submission_results_complete:
  assumes "executes decode lim m x cv rv spec cs h ex" and "\<forall>i. rv_started (rv i) \<le> rv_ended (rv i)"
  shows "if cr_status (ex_compile ex) = Completed
    then ex_status ex \<in> {Completed, Cancelled}
      \<and> list_all2 sound_case (map (\<lambda>k. 1 + int k) [0..<length cs]) (ex_cases ex)
      \<and> (\<exists>did stopped. ex_cases ex = did @ stopped \<and> (\<forall>r \<in> set did. ca_status r \<noteq> Cancelled)
          \<and> (if ex_status ex = Cancelled
             then stopped \<noteq> [] \<and> ca_status (hd stopped) = Cancelled
               \<and> tl stopped = cancelled_from cancel_message (2 + int (length did)) (drop (Suc (length did)) cs)
             else stopped = cancelled_from wall_message (1 + int (length did)) (drop (length did) cs)))
    else ex_status ex = cr_status (ex_compile ex) \<and> ex_status ex \<in> {CompileError, SystemError} \<and> ex_cases ex = []"
proof -
  have "1 + int n + 1 = 2 + int n" for n by simp
  with executes_shape [OF assms(1), OF assms(2) [rule_format]] show ?thesis
    by (auto simp: results_shape_def compile_states_def split: if_splits)
qed

text \<open>Three short cases, of which the second finds the time of the submission used up.\<close>

definition sample_local :: "(execution_result result \<times> memory_fs) option" where
  "sample_local = local_execute (\<lambda>s. s) sample_limits (sample_exec 200000000000) sample_compile
      (\<lambda>_. sample_view 2 (Inr False)) sample_spec [sample_case 64, sample_case 64, sample_case 64] empty_fs"

definition sample_result_of :: "(execution_result result \<times> memory_fs) option \<Rightarrow> execution_result" where
  "sample_result_of out = projr (fst (the out))"

lemma sample_local_executes:
  "executes (\<lambda>s. s) sample_limits None (sample_exec 200000000000) sample_compile (\<lambda>_. sample_view 2 (Inr False))
     sample_spec [sample_case 64, sample_case 64, sample_case 64] empty_fs (sample_result_of sample_local)"
proof -
  have "map_option (isl \<circ> fst) sample_local = Some False" by code_simp
  then obtain out h' where out: "sample_local = Some (out, h')" "\<not> isl out" by auto
  then obtain ex where "sample_local = Some (Inr ex, h')" by (cases out) auto
  then show ?thesis unfolding executes_def sample_result_of_def sample_local_def by auto
qed

lemma sample_view_clock: "rv_started (sample_view n c) \<le> rv_ended (sample_view n c)"
  by (simp add: sample_view_def)

theorem submission_results_complete_witness:
  "list_all2 sound_case (map (\<lambda>k. 1 + int k) [0..<3]) (ex_cases (sample_result_of sample_local))
   \<and> map ca_status (ex_cases (sample_result_of sample_local)) = [Completed, Cancelled, Cancelled]
   \<and> map ca_stderr (ex_cases (sample_result_of sample_local)) = [[], wall_message, wall_message]"
proof -
  have "cr_status (ex_compile (sample_result_of sample_local)) = Completed" by code_simp
  with submission_results_complete [OF sample_local_executes] sample_view_clock
  have "list_all2 sound_case (map (\<lambda>k. 1 + int k) [0..<3]) (ex_cases (sample_result_of sample_local))"
    by (simp add: numeral_3_eq_3 del: upt_Suc)
  moreover have "map ca_status (ex_cases (sample_result_of sample_local)) = [Completed, Cancelled, Cancelled]"
    by code_simp
  moreover have "map ca_stderr (ex_cases (sample_result_of sample_local)) = [[], wall_message, wall_message]"
    by code_simp
  ultimately show ?thesis by blast
qed

section \<open>Termination and time\<close>

lemma execute_returns:
  assumes "\<And>j c h. \<exists>out. run j c h = Some out"
  shows "\<exists>out. execute lim x compile run spec cs h = Some out"
proof (cases "cs_compiler spec \<in> set COMPILERS")
  case True
  obtain r h1 where compile: "followed (lift (xv_workspace x)) compile h = (r, h1)" by fastforce
  show ?thesis
  proof (cases r)
    case (Inl e)
    with True compile show ?thesis by (simp add: execute_def)
  next
    case (Inr c)
    from run_cases_returns [of run x "xv_compiled x + rl_total_wall_ms lim * 1000000" 1 cs h1, OF assms]
    obtain q h2 where "run_cases x (xv_compiled x + rl_total_wall_ms lim * 1000000) run 1 cs h1 = Some (q, h2)"
      by auto
    with True compile Inr show ?thesis by (cases q) (auto simp: execute_def)
  qed
qed (simp add: execute_def)

lemma local_run_case_returns:
  assumes "polls_advance (rv_started v) (rv_polls v)"
  shows "\<exists>out. local_run_case decode lim v j c h = Some out"
proof -
  from poll_loop_returns [OF assms, of lim c 0 0] obtain r
    where "poll_loop lim c (rv_started v) (rv_polls v) 0 0 = Some r" ..
  then show ?thesis by (auto simp: local_run_case_def split: prod.splits sum.splits)
qed

lemma sandbox_run_case_returns:
  assumes "polls_advance (rv_started v) (rv_polls v)"
  shows "\<exists>out. sandbox_run_case decode lim m owner i v j c h = Some out"
proof -
  from poll_loop_returns [OF assms, of lim c 0 0] obtain r
    where "poll_loop lim c (rv_started v) (rv_polls v) 0 0 = Some r" ..
  then show ?thesis by (auto simp: sandbox_run_case_def Let_def split: prod.splits sum.splits)
qed

lemma local_execute_returns:
  assumes "\<And>i. polls_advance (rv_started (rv i)) (rv_polls (rv i))"
  shows "\<exists>out. local_execute decode lim x cv rv spec cs h = Some out"
  unfolding local_execute_def by (rule execute_returns) (rule local_run_case_returns [OF assms])

lemma sandbox_execute_returns:
  assumes "\<And>i. polls_advance (rv_started (rv i)) (rv_polls (rv i))"
  shows "\<exists>out. sandbox_execute decode lim m x cv rv spec cs h = Some out"
  unfolding sandbox_execute_def Let_def
  by (auto simp del: split_paired_Ex split: option.splits intro!: execute_returns sandbox_run_case_returns [OF assms])


lemma sample_polls_advance: "polls_advance 0 (sample_poll n c)"
  by (simp add: polls_advance_def sample_poll_def)




section \<open>Results on the wire\<close>

lemma sound_case_fits: "sound_case j r \<Longrightarrow> 0 < j \<Longrightarrow> case_fits r"
  by (auto simp: sound_case_def case_fits_def case_states_def natural_def TERMINAL_STATES_def split: option.splits)

lemma shape_fits:
  assumes "results_shape b 1 cs rs"
  shows "list_all case_fits rs"
  unfolding list_all_length
proof (intro allI impI)
  fix k assume k: "k < length rs"
  from assms have all: "list_all2 sound_case (map (\<lambda>k. 1 + int k) [0..<length cs]) rs" by (simp add: results_shape_def)
  with k have "sound_case (map (\<lambda>k. 1 + int k) [0..<length cs] ! k) (rs ! k)"
    using list_all2_nthD2 by blast
  moreover have "k < length cs" using k list_all2_lengthD [OF all] by simp
  ultimately show "case_fits (rs ! k)" using sound_case_fits by simp
qed

text \<open>What a runner reports can always be delivered, except for one number: a result of either
  runner crosses the wire unchanged exactly when the compiler's exit code is not negative, that is when the
  compiler was not killed by a signal (as it is on its wall limit).\<close>
theorem runner_result_on_wire:
  assumes "executes decode lim m x cv rv spec cs h ex"
    and "\<forall>i. rv_started (rv i) \<le> rv_ended (rv i)" and "cv_started cv \<le> cv_ended cv"
  shows "execution_from_wire (execution_to_wire ex) = Inr ex
    \<longleftrightarrow> natural (cr_exit_code (ex_compile ex))"
proof -
  note shape = executes_shape [OF assms(1), OF assms(2) [rule_format]]
  have cases: "list_all case_fits (ex_cases ex)" using shape shape_fits by (auto split: if_splits)
  have status: "terminal (ex_status ex)" "cr_status (ex_compile ex) \<in> set compile_states"
    using shape by (auto simp: compile_states_def TERMINAL_STATES_def split: if_splits)
  have "natural (cr_wall_time_ms (ex_compile ex))"
    using executes_compile [OF assms(1)] assms(3)
    by (auto simp: compile_outcome_fields natural_def elapsed_ms_def)
  with cases status have "execution_fits ex \<longleftrightarrow> natural (cr_exit_code (ex_compile ex))"
    by (simp add: execution_fits_def compile_fits_def)
  then show ?thesis using execution_round_trip execution_reject by fastforce
qed

theorem runner_result_on_wire_witness:
  "execution_from_wire (execution_to_wire (sample_result_of sample_local)) = Inr (sample_result_of sample_local)"
proof -
  have "cv_started sample_compile \<le> cv_ended sample_compile" by (simp add: sample_compile_def)
  moreover have "natural (cr_exit_code (ex_compile (sample_result_of sample_local)))" by code_simp
  ultimately show ?thesis
    using runner_result_on_wire [OF sample_local_executes] sample_view_clock by blast
qed

section \<open>The two runners\<close>

lemma statuses_agree: "sandbox_status st False = local_status st"
  by (intro ext) (simp add: sandbox_status_def local_status_def)



end
