(* ===== verification/Sandbox_Properties.thy ===== *)
theory Sandbox_Properties
  imports Runner_Sample
begin

text \<open>
  The properties of the cgroups the sandboxed runner puts its processes in: the limits of a case's group,
  the separation of groups, the end of a group on every way out of a case, and the reading of the kernel's
  out-of-memory counter. They rest on the laws of \<open>Cgroup_Laws\<close> for the in-memory file system.
\<close>

section \<open>Groups\<close>

text \<open>A case runs under its own memory limit and under its user's. When \<open>run_group\<close> returns, the
  group is the one of that owner, job and position; its control files hold the case's memory limit in
  bytes, no swap and 8 processes; the group of the owner above it holds the aggregate limit, no
  swap and 32 processes; the case fits into the aggregate; and no control file outside these two groups
  and the delegation files on the way was written.\<close>
theorem case_group_limits:
  assumes "run_group memory_cgroups root owner job_id position memory_mib aggregate_mib h = (Inr g, h')"
  shows "g = run_group_path root owner job_id position \<and> g \<in> directories h' \<and> memory_mib \<le> aggregate_mib
    \<and> controls h' (g @ ''/memory.max'') = Some (int_text (memory_mib * 1024 * 1024))
    \<and> controls h' (g @ ''/memory.swap.max'') = Some ''0'' \<and> controls h' (g @ ''/pids.max'') = Some ''8''
    \<and> controls h' (owner_path root owner @ ''/memory.max'') = Some (int_text (aggregate_mib * 1024 * 1024))
    \<and> controls h' (owner_path root owner @ ''/memory.swap.max'') = Some ''0''
    \<and> controls h' (owner_path root owner @ ''/pids.max'') = Some ''32''
    \<and> (\<forall>q. \<not> starts_with q (owner_path root owner) \<and> q \<noteq> root @ ''/users/cgroup.subtree_control''
         \<longrightarrow> controls h' q = controls h q)"
  using assms by (rule memory.run_group_effect)

text \<open>\<open>run_group\<close> fails exactly on a bad argument (an owner that is no canonical UUID, a number that is
  not positive, a case above the aggregate limit), and then it has touched nothing.\<close>
theorem run_group_refusals:
  "(if canonical_uuid owner \<and> 0 < job_id \<and> 0 < position \<and> 0 < memory_mib \<and> memory_mib \<le> aggregate_mib
    then \<exists>h'. run_group memory_cgroups root owner job_id position memory_mib aggregate_mib h
           = (Inr (run_group_path root owner job_id position), h')
    else \<exists>m. run_group memory_cgroups root owner job_id position memory_mib aggregate_mib h
           = (Inl (ValueError m), h))"
  by (simp add: memory.run_group_ok memory.run_group_refused)

lemma sample_group:
  "\<exists>h'. run_group memory_cgroups ''/r'' sample_owner 7 1 64 256 empty_fs
     = (Inr (run_group_path ''/r'' sample_owner 7 1), h')"
  by (rule memory.run_group_ok) (simp_all add: sample_owner_canonical)

theorem case_group_limits_witness:
  "\<exists>h'. run_group memory_cgroups ''/r'' sample_owner 7 1 64 256 empty_fs
      = (Inr (''/r/users/00000000-0000-0000-0000-000000000000/job-7-case-1''), h')
    \<and> controls h' (''/r/users/00000000-0000-0000-0000-000000000000/job-7-case-1/memory.max'') = Some ''67108864''
    \<and> controls h' (''/r/users/00000000-0000-0000-0000-000000000000/memory.max'') = Some ''268435456''"
proof -
  obtain h' where run: "run_group memory_cgroups ''/r'' sample_owner 7 1 64 256 empty_fs
      = (Inr (run_group_path ''/r'' sample_owner 7 1), h')" using sample_group by blast
  have texts: "run_group_path ''/r'' sample_owner 7 1 = ''/r/users/00000000-0000-0000-0000-000000000000/job-7-case-1''"
    "owner_path ''/r'' sample_owner = ''/r/users/00000000-0000-0000-0000-000000000000''"
    "int_text (64 * 1024 * 1024) = ''67108864''" "int_text (256 * 1024 * 1024) = ''268435456''" by code_simp+
  from case_group_limits [OF run] run show ?thesis unfolding texts by (intro exI [of _ h']) simp
qed

text \<open>The groups of different cases are different. For canonical owners and positive numbers the path of
  a run group determines owner, job and position, and it is never the path of a compile group, so no
  case shares limits or processes with another one.\<close>
theorem run_groups_separate:
  assumes "canonical_uuid owner" and "canonical_uuid owner'"
    and "0 < job_id" and "0 < job_id'" and "0 < position" and "0 < position'"
  shows "(run_group_path root owner job_id position = run_group_path root owner' job_id' position'
      \<longleftrightarrow> owner = owner' \<and> job_id = job_id' \<and> position = position')
    \<and> run_group_path root owner job_id position \<noteq> compile_group_path root job_id'
    \<and> (compile_group_path root job_id = compile_group_path root job_id' \<longleftrightarrow> job_id = job_id')"
  using run_group_path_inject [OF assms] assms(3,4)
  by (auto simp: run_group_path_def owner_path_def compile_group_path_def int_text_inject_pos)

theorem run_groups_separate_witness:
  "run_group_path ''/r'' sample_owner 1 12 \<noteq> run_group_path ''/r'' sample_owner 11 2"
  using run_groups_separate [OF sample_owner_canonical sample_owner_canonical, of 1 11 12 2 "''/r''"] by simp

section \<open>The end of a group\<close>

text \<open>A case that produces a result leaves no group behind. On every way out of the polling loop
  (the process ended, or it was stopped for cancellation, output, memory or time) the group of the
  case is killed and removed before the result is returned.\<close>
theorem case_group_closed:
  assumes "sandbox_run_case decode lim (Some \<lparr>cm_fs = memory_cgroups, cm_root = root\<rparr>) owner job_id v position c h
    = Some (Inr r, h')"
  shows "run_group_path root owner job_id position \<notin> directories h'"
  using assms
proof (cases rule: sandbox_run_case_cases)
  case (1 g h1 h2 st peak)
  then obtain h0 where "run_group memory_cgroups root owner job_id position (sp_memory_limit_mib c)
      MAX_USER_RUNNING_MEMORY_MIB h = (Inr g, h0)"
    by (auto simp: new_run_cgroup_def)
  then have "g = run_group_path root owner job_id position" by (rule memory.run_group_limits)
  with 1(4) memory.close_group_removes [of g "rv_kernel v h2"] show ?thesis
    by (auto simp: close_cgroup_def)
qed

lemma sample_polls: "poll_loop sample_limits (sample_case 64) 0 (sample_poll 2 (Inr False)) 0 0 = Some (Inr (Running, 2000))"
  by code_simp

lemma sample_case_run:
  "\<exists>r h'. sandbox_run_case (\<lambda>s. s) sample_limits (Some sample_manager) sample_owner 7 (sample_view 2 (Inr False)) 1
     (sample_case 64) empty_fs = Some (Inr r, h')"
  unfolding sample_manager_def
  by (rule memory.case_runs [where peak = 2000])
    (simp_all add: sample_owner_canonical sample_case_def sample_view_def sample_polls [unfolded sample_case_def])

theorem case_group_closed_witness:
  "\<exists>r h'. sandbox_run_case (\<lambda>s. s) sample_limits (Some sample_manager) sample_owner 7 (sample_view 2 (Inr False)) 1
       (sample_case 64) empty_fs = Some (Inr r, h')
    \<and> run_group_path ''/r'' sample_owner 7 1 \<notin> directories h'"
proof -
  obtain r h' where run: "sandbox_run_case (\<lambda>s. s) sample_limits (Some sample_manager) sample_owner 7
      (sample_view 2 (Inr False)) 1 (sample_case 64) empty_fs = Some (Inr r, h')" using sample_case_run by blast
  from case_group_closed [OF run [unfolded sample_manager_def]] run show ?thesis by blast
qed

text \<open>An exception of the cancel check leaks the process. When the check raises while the process runs
  (the worker's check asks the broker over the socket), \<open>_run_case\<close> raises the same exception without
  having killed anything: the group still exists and no process was signalled, neither through
  \<open>cgroup.kill\<close> nor one by one, so the case runs on without a time limit.\<close>
theorem failing_cancel_check_leaks:
  assumes "canonical_uuid owner" and "0 < job_id" and "0 < position" and "0 < sp_memory_limit_mib c"
    and "sp_memory_limit_mib c \<le> 256" and "rv_input v = Inr ()" and "rv_spawn v = ret ()"
    and "\<not> pv_exited (rv_polls v 0)" and "pv_cancel (rv_polls v 0) = Inl e"
  shows "\<exists>h'. sandbox_run_case decode lim (Some \<lparr>cm_fs = memory_cgroups, cm_root = root\<rparr>) owner job_id v position c h
      = Some (Inl e, h')
    \<and> run_group_path root owner job_id position \<in> directories h' \<and> killed h' = killed h
    \<and> controls h' (run_group_path root owner job_id position @ ''/cgroup.kill'')
        = controls h (run_group_path root owner job_id position @ ''/cgroup.kill'')"
proof -
  let ?g = "run_group_path root owner job_id position" and ?m = "sp_memory_limit_mib c"
  obtain h1 where group: "run_group memory_cgroups root owner job_id position ?m 256 h = (Inr ?g, h1)"
    using memory.run_group_ok [OF assms(1-5)] by blast
  define h2 where "h2 = snd (memory_write (?g @ ''/cgroup.procs'') (int_text 0) h1)"
  have attach: "preexec_attach memory_cgroups ?g h1 = (Inr (), h2)"
    by (simp add: preexec_attach_def attach_pid_def memory_fs_defs h2_def)
  have loop: "poll_loop lim c (rv_started v) (rv_polls v) 0 0 = Some (Inl e)"
    by (subst poll_loop.simps) (simp add: assms(8,9) watch_def)
  have "killed h1 = killed h"
    using group assms(1-5)
    by (auto simp: run_group_def make_group_def enable_controllers_def positive_def owner_uuid_def require_uuid_def
        memory_fs_defs)
  moreover have "controls h1 (?g @ ''/cgroup.kill'') = controls h (?g @ ''/cgroup.kill'')"
  proof -
    have "?g @ ''/cgroup.kill'' \<notin> memory.run_files root owner job_id position"
      by (auto simp: memory.run_files_def memory.group_files_def run_group_path_def owner_path_def
          dest: arg_cong [where f = length])
    then show ?thesis using memory.run_group_limits(9) [OF group] by (simp add: memory.keeps_files_def)
  qed
  moreover have "?g \<in> directories h1"
    using memory.run_group_limits(1,7) [OF group] by (simp add: memory.group_limits_def)
  ultimately have "?g \<in> directories h2" "killed h2 = killed h"
    "controls h2 (?g @ ''/cgroup.kill'') = controls h (?g @ ''/cgroup.kill'')"
    by (simp_all add: h2_def memory_write_def)
  moreover have "sandbox_run_case decode lim (Some \<lparr>cm_fs = memory_cgroups, cm_root = root\<rparr>) owner job_id v position c h
      = Some (Inl e, h2)"
    using group attach loop
    by (simp add: sandbox_run_case_def new_run_cgroup_def spawn_in_def assms(6,7) andthen_def
        MAX_USER_RUNNING_MEMORY_MIB_def)
  ultimately show ?thesis by blast
qed

theorem failing_cancel_check_leaks_witness:
  "\<exists>h'. sandbox_run_case (\<lambda>s. s) sample_limits (Some \<lparr>cm_fs = memory_cgroups, cm_root = ''/r''\<rparr>) sample_owner 7
      (sample_view 2 (Inl (RuntimeError ''broker closed before a response''))) 1 (sample_case 64) empty_fs
    = Some (Inl (RuntimeError ''broker closed before a response''), h')
    \<and> run_group_path ''/r'' sample_owner 7 1 \<in> directories h' \<and> killed h' = []"
proof -
  let ?e = "RuntimeError ''broker closed before a response''"
  let ?v = "sample_view 2 (Inl ?e)"
  have v: "rv_input ?v = Inr ()" "rv_spawn ?v = ret ()" "\<not> pv_exited (rv_polls ?v 0)" "pv_cancel (rv_polls ?v 0) = Inl ?e"
    by (simp_all add: sample_view_def sample_poll_def)
  have c: "0 < sp_memory_limit_mib (sample_case 64)" "sp_memory_limit_mib (sample_case 64) \<le> 256"
    by (simp_all add: sample_case_def)
  show ?thesis
    using failing_cancel_check_leaks [where job_id = 7 and position = 1 and root = "''/r''" and h = empty_fs and decode = "\<lambda>s. s"
        and lim = sample_limits, OF sample_owner_canonical _ _ c v]
    by (auto simp: empty_fs_def)
qed

section \<open>Large cases\<close>

lemma large_group_refused:
  assumes "memory_mib > 256"
  shows "\<exists>e. new_run_cgroup (Some m) owner job_id position memory_mib h = (Inl (ValueError e), h)"
  using assms
  by (auto simp: new_run_cgroup_def run_group_def positive_def owner_uuid_def require_uuid_def andthen_def
      lift_def raise_def MAX_USER_RUNNING_MEMORY_MIB_def)

lemma large_case_raises:
  assumes "sp_memory_limit_mib c > 256" and "rv_input v = Inr ()"
  shows "\<exists>e. sandbox_run_case decode lim (Some m) owner job_id v position c h = Some (Inl (ValueError e), h)"
proof -
  from large_group_refused [OF assms(1), of m owner job_id position h] obtain e
    where "new_run_cgroup (Some m) owner job_id position (sp_memory_limit_mib c) h = (Inl (ValueError e), h)" by blast
  then show ?thesis by (simp add: sandbox_run_case_def assms(2) andthen_run)
qed

lemma large_case_refused:
  assumes "sp_memory_limit_mib c > 256"
  shows "sandbox_run_case decode lim (Some m) owner job_id v position c h \<noteq> Some (Inr r, h')"
proof
  assume "sandbox_run_case decode lim (Some m) owner job_id v position c h = Some (Inr r, h')"
  then show False
  proof (cases rule: sandbox_run_case_cases)
    case (1 g h1 h2 st peak)
    with large_group_refused [OF assms, of m owner job_id position h] show False by auto
  qed
qed

lemma run_cases_no_result:
  assumes "\<And>j c h r h'. sp_memory_limit_mib c > 256 \<Longrightarrow> run j c h \<noteq> Some (Inr r, h')"
    and "\<forall>c \<in> set cs. sp_memory_limit_mib c > 256"
    and "run_cases x d run i cs h = Some (Inr (b, rs), h')"
  shows "\<forall>r \<in> set rs. ca_status r = Cancelled"
proof (cases cs)
  case Nil
  with assms(3) show ?thesis by simp
next
  case (Cons c cs')
  let ?c = "c\<lparr>sp_time_limit_ms := min (sp_time_limit_ms c) (remaining_ms d (xv_now x i))\<rparr>"
  have "\<forall>r h'. run i ?c h \<noteq> Some (Inr r, h')" using assms(1) [of ?c] assms(2) Cons by simp
  with assms(3) Cons consider "rs = cancelled_from cancel_message i cs" | "rs = cancelled_from wall_message i cs"
    by (auto simp: Let_def split: sum.splits bool.splits option.splits if_splits)
  then show ?thesis by cases (auto dest: cancelled_from_status)
qed

lemma sandbox_large_cancelled:
  assumes "\<forall>c \<in> set cs. sp_memory_limit_mib c > 256"
    and "sandbox_execute decode lim (Some m) x cv rv spec cs h = Some (Inr ex, h')"
  shows "\<forall>r \<in> set (ex_cases ex). ca_status r = Cancelled"
proof -
  from assms(2) obtain i owner where run: "execute lim x (sandbox_compile decode lim (Some m) i cv)
      (\<lambda>position. sandbox_run_case decode lim (Some m) owner i (rv position) position) spec cs h = Some (Inr ex, h')"
    by (auto simp: sandbox_execute_def Let_def split: option.splits)
  show ?thesis
  proof (cases "ex_cases ex = []")
    case False
    with run obtain b h1 where "run_cases x (xv_compiled x + rl_total_wall_ms lim * 1000000)
        (\<lambda>position. sandbox_run_case decode lim (Some m) owner i (rv position) position) 1 cs h1 = Some (Inr (b, ex_cases ex), h')"
      by (auto simp: execute_def split: prod.splits sum.splits option.splits if_splits)
    from run_cases_no_result [OF large_case_refused assms(1) this] show ?thesis by blast
  qed simp
qed

text \<open>In production a case above 256 MiB never runs. The scheduler admits a job whose grant allows more,
  but the sandboxed runner asks for a group with the aggregate limit fixed at 256 MiB, and the manager refuses a
  case above it. So an execution of such a job contains no result of a case that ran; and when the compilation
  completed and neither a cancellation nor the deadline came first, it raises a value error (which the
  worker reports as a system error).\<close>
theorem large_cases_never_run:
  assumes "\<forall>c \<in> set cs. sp_memory_limit_mib c > 256"
  shows "(\<forall>ex h'. sandbox_execute decode lim (Some m) x cv rv spec cs h = Some (Inr ex, h')
        \<longrightarrow> (\<forall>r \<in> set (ex_cases ex). ca_status r = Cancelled))
    \<and> (\<forall>i owner comp_result h1. cs \<noteq> [] \<and> cs_job_id spec = Some i \<and> cs_owner_public_id spec = Some owner
        \<and> cs_compiler spec \<in> set COMPILERS \<and> xv_workspace x = Inr ()
        \<and> sandbox_compile decode lim (Some m) i cv h = (Inr comp_result, h1) \<and> cr_status comp_result = Completed
        \<and> xv_cancel x 1 = Inr False \<and> 0 < remaining_ms (xv_compiled x + rl_total_wall_ms lim * 1000000) (xv_now x 1)
        \<and> rv_input (rv 1) = Inr ()
        \<longrightarrow> (\<exists>e. sandbox_execute decode lim (Some m) x cv rv spec cs h = Some (Inl (ValueError e), h1)))"
proof (intro conjI allI impI ballI)
  show "ca_status r = Cancelled"
    if "sandbox_execute decode lim (Some m) x cv rv spec cs h = Some (Inr ex, h')" and "r \<in> set (ex_cases ex)" for ex h' r
    using sandbox_large_cancelled [OF assms that(1)] that(2) by blast
next
  fix i owner comp_result h1
  assume *: "cs \<noteq> [] \<and> cs_job_id spec = Some i \<and> cs_owner_public_id spec = Some owner
        \<and> cs_compiler spec \<in> set COMPILERS \<and> xv_workspace x = Inr ()
        \<and> sandbox_compile decode lim (Some m) i cv h = (Inr comp_result, h1) \<and> cr_status comp_result = Completed
        \<and> xv_cancel x 1 = Inr False \<and> 0 < remaining_ms (xv_compiled x + rl_total_wall_ms lim * 1000000) (xv_now x 1)
        \<and> rv_input (rv 1) = Inr ()"
  then obtain c cs' where cs: "cs = c # cs'" by (cases cs) auto
  let ?c = "c\<lparr>sp_time_limit_ms := min (sp_time_limit_ms c) (remaining_ms (xv_compiled x + rl_total_wall_ms lim * 1000000) (xv_now x 1))\<rparr>"
  from assms cs * large_case_raises [of ?c "rv 1"] obtain e
    where "sandbox_run_case decode lim (Some m) owner i (rv 1) 1 ?c h1 = Some (Inl (ValueError e), h1)" by fastforce
  with * cs show "\<exists>e. sandbox_execute decode lim (Some m) x cv rv spec cs h = Some (Inl (ValueError e), h1)"
    by (simp add: sandbox_execute_def execute_def Let_def)
qed

lemma sample_compile_run:
  "\<exists>c h1. sandbox_compile (\<lambda>s. s) sample_limits (Some sample_manager) 1 sample_compile empty_fs = (Inr c, h1)
     \<and> cr_status c = Completed"
proof -
  obtain h1 where group: "compile_group memory_cgroups ''/r'' 1 512 empty_fs = (Inr (compile_group_path ''/r'' 1), h1)"
    using memory.make_group_ok [of 512 64 "compile_group_path ''/r'' 1" empty_fs]
    by (auto simp: compile_group_def positive_def)
  let ?g = "compile_group_path ''/r'' 1"
  have "\<exists>h2. preexec_attach memory_cgroups ?g h1 = (Inr (), h2)"
    using memory.write_ok by (simp add: preexec_attach_def attach_pid_def)
  then obtain h2 where attach: "preexec_attach memory_cgroups ?g h1 = (Inr (), h2)" ..
  have oom: "\<not> oom_killed memory_cgroups ?g h2"
  proof -
    have "controls h2 (?g @ ''/memory.events'') = None"
      using group attach
      by (auto simp: compile_group_def make_group_def positive_def preexec_attach_def attach_pid_def memory_fs_defs empty_fs_def)
    then show ?thesis by (simp add: oom_killed_def memory_fs_defs)
  qed
  obtain h3 where "close_group memory_cgroups ?g h2 = (Inr (), h3)" using memory.close_group_removes by blast
  then show ?thesis
    using group attach oom
    by (simp add: sandbox_compile_def new_compile_cgroup_def sample_run_defs spawn_in_def close_cgroup_def group_oom_def
        Let_def andthen_def compile_outcome_def return_code_def read_limited_def)
qed

theorem large_cases_never_run_witness:
  "\<exists>e h1. sandbox_execute (\<lambda>s. s) sample_limits (Some sample_manager) (sample_exec 0) sample_compile
     (\<lambda>_. sample_view 2 (Inr False)) sample_spec [sample_case 512] empty_fs = Some (Inl (ValueError e), h1)"
proof -
  obtain c h1 where compile: "sandbox_compile (\<lambda>s. s) sample_limits (Some sample_manager) 1 sample_compile empty_fs = (Inr c, h1)"
      "cr_status c = Completed" using sample_compile_run by blast
  have "\<forall>c \<in> set [sample_case 512]. sp_memory_limit_mib c > 256" by (simp add: sample_case_def)
  from large_cases_never_run [OF this, THEN conjunct2, rule_format, of sample_spec 1 sample_owner "sample_exec 0"
      "\<lambda>s. s" sample_limits sample_manager sample_compile empty_fs c h1 "\<lambda>_. sample_view 2 (Inr False)"] compile
  show ?thesis
    by (auto simp: sample_spec_def sample_exec_def sample_limits_def sample_view_def COMPILERS_def remaining_ms_def)
qed

section \<open>The out-of-memory counter\<close>

definition event_line :: "string \<times> nat \<Rightarrow> string" where
  "event_line e = fst e @ sp # nat_text (snd e)"

lemma plain_words:
  assumes "w \<noteq> []" and "v \<noteq> []" and "\<forall>c \<in> set (w @ v). \<not> is_py_space c"
  shows "words_of (w @ sp # v) = [w, v]"
proof -
  have same: "map (\<lambda>c. if is_py_space c then sp else c) w = w" "map (\<lambda>c. if is_py_space c then sp else c) v = v"
    using assms(3) by (simp_all add: map_idI)
  have "is_py_space sp" by (simp add: is_py_space_def)
  then have "sp \<notin> set w" "sp \<notin> set v" using assms(3) by auto
  then show ?thesis
    using assms(1,2) same by (simp add: words_of_def split_on_append split_on_no_sep is_py_space_def)
qed

lemma digit_not_space: "is_digit c \<Longrightarrow> \<not> is_py_space c \<and> \<not> is_line_break c"
  by (auto simp: is_digit_def is_py_space_def is_line_break_def Let_def)

lemma event_line_words:
  assumes "fst e \<noteq> []" and "\<forall>c \<in> set (fst e). \<not> is_py_space c"
  shows "words_of (event_line e) = [fst e, nat_text (snd e)]"
  unfolding event_line_def
  using assms nat_text_digits digit_not_space by (intro plain_words) auto

lemma break_is_space: "is_line_break c \<Longrightarrow> is_py_space c"
  by (auto simp: is_line_break_def is_py_space_def Let_def)

lemma event_line_no_break:
  assumes "\<forall>c \<in> set (fst e). \<not> is_py_space c"
  shows "\<forall>c \<in> set (event_line e). \<not> is_line_break c"
proof -
  have "\<not> is_line_break sp" by (simp add: is_line_break_def)
  with assms show ?thesis
    using nat_text_digits digit_not_space break_is_space by (auto simp: event_line_def)
qed

lemma event_counters_lines:
  assumes "\<forall>e \<in> set es. fst e \<noteq> [] \<and> (\<forall>c \<in> set (fst e). \<not> is_py_space c)"
  shows "event_counters (lines_of (concat (map (\<lambda>e. event_line e @ [nl]) es))) m k
    = (case map_of (rev es) k of None \<Rightarrow> m k | Some n \<Rightarrow> Some n)"
  using assms
proof (induction es arbitrary: m)
  case (Cons e es)
  then have "list_all is_digit (nat_text (snd e))" by (simp add: list_all_iff nat_text_digits)
  moreover have "lines_of (concat (map (\<lambda>e. event_line e @ [nl]) (e # es)))
      = event_line e # lines_of (concat (map (\<lambda>e. event_line e @ [nl]) es))"
    using lines_of_line [OF event_line_no_break [of e]] Cons.prems by simp
  moreover have "words_of (event_line e) = [fst e, nat_text (snd e)]"
    using Cons.prems by (intro event_line_words) simp_all
  ultimately show ?case
    using Cons by (cases e) (auto simp: map_add_def split: option.splits)
qed simp

text \<open>The kernel's out-of-memory kills are read correctly. When \<open>memory.events\<close> holds one line per
  counter, name and number, the group counts as killed exactly when the last number of
  \<open>oom_kill\<close> is positive; a group without the file does not.\<close>
theorem oom_counter_read:
  assumes "\<forall>e \<in> set es. fst e \<noteq> [] \<and> (\<forall>c \<in> set (fst e). \<not> is_py_space c)"
  shows "(controls h (g @ ''/memory.events'') = Some (concat (map (\<lambda>e. event_line e @ [nl]) es))
      \<longrightarrow> (oom_killed memory_cgroups g h \<longleftrightarrow> (\<exists>n>0. map_of (rev es) ''oom_kill'' = Some n)))
    \<and> (controls h (g @ ''/memory.events'') = None \<longrightarrow> \<not> oom_killed memory_cgroups g h)"
  using event_counters_lines [OF assms, of Map.empty "''oom_kill''"]
  by (auto simp: oom_killed_def memory_fs_defs split: option.splits)

theorem oom_counter_read_witness:
  "oom_killed memory_cgroups ''/g'' (empty_fs\<lparr>controls := [''/g/memory.events'' \<mapsto>
     concat (map (\<lambda>e. event_line e @ [nl]) [(''low'', 0), (''oom'', 3), (''oom_kill'', 12)])]\<rparr>)"
  using oom_counter_read [of "[(''low'', 0), (''oom'', 3), (''oom_kill'', 12)]"]
  by (auto simp: is_py_space_def)

end
