(* ===== verification/Case_Layout.thy ===== *)
theory Case_Layout
  imports Queue_Outcomes
begin

text \<open>
  The case rows of a job across the steps of the queue: they keep their order and positions from the
  submission on, numbered from 1 without gaps, whatever happens to the job.
\<close>

definition case_index :: "case_row \<Rightarrow> int \<times> int" where
  "case_index c = (c_job_id c, c_position c)"

definition layout :: "db \<Rightarrow> (int \<times> int) list" where
  "layout s = map case_index (t_rows (job_cases s))"

definition case_rows :: "db \<Rightarrow> int \<Rightarrow> case_row list" where
  "case_rows s i = select_where (\<lambda>c. c_job_id c = i) (job_cases s)"

definition job_positions :: "db \<Rightarrow> int \<Rightarrow> int list" where
  "job_positions s i = map snd (filter (\<lambda>p. fst p = i) (layout s))"

lemma job_positions_rows: "job_positions s i = map c_position (case_rows s i)"
  by (simp add: job_positions_def layout_def case_rows_def select_where_def filter_map comp_def case_index_def)

lemma layout_update:
  assumes "\<And>c. case_index (f c) = case_index c"
  shows "map case_index (t_rows (update_where P f t)) = map case_index (t_rows t)"
  using assms by simp

lemma finish_case_index: "case_index (finish_case_row r c) = case_index c"
  by (simp add: case_index_def finish_case_row_def)

lemma layout_store_cases: "map case_index (t_rows (store_cases i rs t)) = map case_index (t_rows t)"
proof (induction i rs t rule: store_cases.induct)
  case (2 i r rs t)
  then show ?case by (simp add: layout_update [OF finish_case_index] del: table_rows(3))
qed simp

lemma layout_cancel_queued: "map case_index (t_rows (cancel_queued_cases i m t)) = map case_index (t_rows t)"
  unfolding cancel_queued_cases_def by (rule layout_update) (simp add: case_index_def)

lemma layout_insert_cases:
  "map case_index (t_rows (insert_cases i 1 xs t))
     = map case_index (t_rows t) @ map (\<lambda>k. (i, 1 + int k)) [0..<length xs]"
  by (simp add: set_insert_cases case_index_def new_case_def comp_def)

lemma queue_step_layout:
  assumes "queue_step s s'"
  obtains "layout s' = layout s" and "t_seq (jobs s') = t_seq (jobs s)"
  | n where "t_seq (jobs s') = t_seq (jobs s) + 1"
      and "layout s' = layout s @ map (\<lambda>k. (t_seq (jobs s'), 1 + int k)) [0..<n]"
  using assms
proof (cases rule: queue_step.cases)
  case (submit p clk uid d)
  then obtain grant where s': "s' = snd (insert_job (clk 2) uid p grant s)"
    by (auto simp: create_job_Inr submission_insert_Inr)
  show ?thesis
    by (rule that(2)) (simp_all add: s' queue_simps layout_def layout_insert_cases)
next
  case (claim clk r)
  from claim show ?thesis
  proof (cases rule: claim_cases)
    case (expired row gid)
    then show ?thesis
      by (intro that(1)) (simp_all add: cancel_expired_def layout_def layout_update case_index_def del: table_rows(3))
  next
    case (started row c)
    then show ?thesis by (intro that(1)) (simp_all add: layout_def)
  qed (use that(1) in simp)
next
  case (finish ex now i)
  then show ?thesis
    by (intro that(1)) (simp_all add: layout_def finish_job_def layout_cancel_queued layout_store_cases)
next
  case (fail now i msg)
  then show ?thesis
    by (intro that(1)) (simp_all add: layout_def mark_job_system_error_def layout_cancel_queued)
next
  case (cancel now i uid d)
  then show ?thesis
    by (intro that(1)) (auto simp: layout_def cancel_job_def request_cancel_def Let_def layout_update case_index_def
        simp del: table_rows(3) split: option.splits if_splits)
next
  case (cancel_admin now i d)
  then show ?thesis
    by (intro that(1)) (auto simp: layout_def cancel_job_admin_def request_cancel_def Let_def layout_update case_index_def
        simp del: table_rows(3) split: option.splits if_splits)
next
  case (grant gp clk uid actor g)
  then show ?thesis
    by (intro that(1)) (auto simp: layout_def create_grant_def insert_row_def Let_def split: if_splits)
next
  case other
  then show ?thesis by (intro that(1)) (simp_all add: layout_def)
qed

lemma steps_positions:
  assumes "queue_step\<^sup>*\<^sup>* s s'" and "i \<le> t_seq (jobs s)"
  shows "job_positions s' i = job_positions s i \<and> i \<le> t_seq (jobs s')"
  using assms(1)
proof (induction rule: rtranclp_induct)
  case (step s1 s2)
  from step(2) show ?case
    by (cases rule: queue_step_layout) (use step(3) in \<open>simp_all add: job_positions_def\<close>)
qed (use assms(2) in simp)

definition positions_inv :: "db \<Rightarrow> bool" where
  "positions_inv s \<longleftrightarrow> (\<forall>i. job_positions s i = map (\<lambda>k. 1 + int k) [0..<length (job_positions s i)])"

lemma positions_step:
  assumes "queue_step s s'" and "cases_inv s" and "positions_inv s"
  shows "positions_inv s'"
  using assms(1)
proof (cases rule: queue_step_layout)
  case 1
  with assms(3) show ?thesis by (simp add: positions_inv_def job_positions_def)
next
  case (2 n)
  have fresh: "job_positions s (t_seq (jobs s')) = []"
    using assms(2) 2(1) by (auto simp: job_positions_def layout_def case_index_def cases_inv_def filter_empty_conv)
  have "job_positions s' i = (if i = t_seq (jobs s') then map (\<lambda>k. 1 + int k) [0..<n] else job_positions s i)" for i
    using fresh by (simp add: job_positions_def 2(2) comp_def)
  with assms(3) show ?thesis by (simp add: positions_inv_def)
qed

lemma reachable_positions: "reachable s \<Longrightarrow> positions_inv s"
proof (induction rule: reachable.induct)
  case (start s)
  then show ?case by (simp add: positions_inv_def job_positions_def layout_def)
next
  case (step s s')
  then show ?case using positions_step reachable_cases by blast
qed

text \<open>The cases of a job keep their identity. In every reachable state the case rows of each job are
  numbered 1, 2, ... in their order, and no step, whether it runs, finishes, fails or cancels jobs,
  adds, drops or renumbers a case of a job that exists.\<close>
theorem case_positions_stable:
  assumes "reachable s" and "j \<in> set (t_rows (jobs s))" and "queue_step\<^sup>*\<^sup>* s s'"
  shows "map c_position (case_rows s' (j_id j)) = map (\<lambda>k. 1 + int k) [0..<length (case_rows s (j_id j))]"
proof -
  have "j_id j \<le> t_seq (jobs s)"
    using reachable_keys [OF assms(1)] assms(2) by (simp add: keys_ok_def)
  from steps_positions [OF assms(3) this] reachable_positions [OF assms(1)]
  have "job_positions s' (j_id j) = map (\<lambda>k. 1 + int k) [0..<length (job_positions s (j_id j))]"
    unfolding positions_inv_def by metis
  then show ?thesis by (simp add: job_positions_rows)
qed

theorem case_positions_stable_witness:
  "map c_position (case_rows (snd (claim_next_job (at 40) queued_db)) 1) = [1, 2]"
proof -
  let ?j = "sample_job 1 1 160 12 Queued None"
  have j: "?j \<in> set (t_rows (jobs queued_db))" by (simp add: queued_value three_jobs_def)
  have "length (case_rows queued_db 1) = 2" "j_id ?j = 1" by code_simp+
  with case_positions_stable [OF queued_reachable j claimed_steps] show ?thesis
    by (simp add: claimed_db_def numeral_2_eq_2)
qed

end
