(* ===== verification/Worker_Runner.thy ===== *)
theory Worker_Runner
  imports Worker Runner_Properties Sandbox_Properties Case_Layout
begin

text \<open>
  The worker with its runner: \<open>process_one\<close> hands a claimed job to \<open>execute\<close> and stores what comes back.
  The properties follow one job through claim, run and completion, while other processes take any
  steps on the queue.
\<close>

section \<open>The call of the runner\<close>

definition job_compile_spec :: "wire_job \<Rightarrow> compile_spec" where
  "job_compile_spec j =
     \<lparr>cs_filename = wj_filename j, cs_source = wj_source j, cs_compiler = wj_compiler j,
      cs_job_id = Some (wj_id j), cs_owner_public_id = Some (wj_owner_public_id j)\<rparr>"

definition job_case_specs :: "wire_job \<Rightarrow> case_spec list" where
  "job_case_specs j =
     map (\<lambda>t. \<lparr>sp_input_text = t, sp_time_limit_ms = wj_time_limit_ms j, sp_memory_limit_mib = wj_memory_limit_mib j\<rparr>)
       (wj_inputs j)"

text \<open>One round of the worker whose runner returns the result \<open>exec job\<close> of an execution, or raises, while
  \<open>others\<close> happens to the database.\<close>

definition round :: "(py_error \<Rightarrow> string) \<Rightarrow> clock \<Rightarrow> (wire_job \<Rightarrow> execution_result result) \<Rightarrow> (db \<Rightarrow> db) \<Rightarrow> db \<Rightarrow> int option result \<times> db" where
  "round describe clk exec others =
     process_one describe (database_broker clk)
       (\<lambda>job s. (case exec job of Inl e \<Rightarrow> Inl (describe e) | Inr ex \<Rightarrow> Inr ex, others s))"

lemma job_specs_length [simp]: "length (job_case_specs j) = length (wj_inputs j)"
  by (simp add: job_case_specs_def)

text \<open>A case row read back as the result it stores.\<close>

definition stored_result :: "case_row \<Rightarrow> case_result" where
  "stored_result c =
     \<lparr>ca_position = c_position c, ca_status = c_status c, ca_stdout = c_stdout c, ca_stderr = c_stderr c,
      ca_exit_code = c_exit_code c, ca_term_signal = c_term_signal c, ca_wall_time_ms = c_wall_time_ms c,
      ca_peak_memory_kib = c_peak_memory_kib c, ca_output_truncated = c_output_truncated c\<rparr>"

lemma stored_result_finish:
  "c_position c = ca_position r \<Longrightarrow> stored_result (finish_case_row r c) = r"
  by (simp add: stored_result_def finish_case_row_def)

section \<open>Storing what was run\<close>

lemma find_position:
  assumes "map ca_position rs = map (\<lambda>k. 1 + int k) [0..<length rs]" and "k < length rs"
  shows "find (\<lambda>r. ca_position r = 1 + int k) rs = Some (rs ! k)"
proof -
  have pos: "ca_position (rs ! j) = 1 + int j" if "j < length rs" for j
    using arg_cong [OF assms(1), of "\<lambda>xs. xs ! j"] that by simp
  show ?thesis
    unfolding find_Some_iff using assms(2) pos by (intro exI [of _ k]) auto
qed

lemma positions_distinct:
  assumes "map ca_position rs = map (\<lambda>k. 1 + int k) [0..<length rs]"
  shows "distinct (map ca_position rs)"
  unfolding assms by (simp add: distinct_map inj_on_def)

lemma finish_case_rows:
  assumes "distinct (map ca_position (ex_cases ex))"
    and "\<forall>c \<in> set (case_rows s i). \<exists>r. find (\<lambda>r. ca_position r = c_position c) (ex_cases ex) = Some r \<and> ca_status r \<noteq> Queued"
  shows "case_rows (finish_job now i ex s) i
    = map (\<lambda>c. finish_case_row (the (find (\<lambda>r. ca_position r = c_position c) (ex_cases ex))) c) (case_rows s i)"
proof -
  let ?f = "\<lambda>c. find (\<lambda>r. ca_position r = c_position c) (ex_cases ex)"
  let ?upd = "\<lambda>c. if c_job_id c = i then (case ?f c of None \<Rightarrow> c | Some r \<Rightarrow> finish_case_row r c) else c"
  have "\<exists>m. job_cases (finish_job now i ex s) = cancel_queued_cases i m (store_cases i (ex_cases ex) (job_cases s))"
    by (auto simp: finish_job_def)
  then obtain m where "job_cases (finish_job now i ex s)
      = cancel_queued_cases i m (store_cases i (ex_cases ex) (job_cases s))" ..
  then have rows: "t_rows (job_cases (finish_job now i ex s))
      = map (\<lambda>c. if c_job_id c = i \<and> c_status c = Queued then c\<lparr>c_status := Cancelled, c_stderr := m\<rparr> else c)
          (map ?upd (t_rows (job_cases s)))"
    by (simp only: cancel_queued_cases_def table_rows(3) store_cases_rows [OF assms(1)])
  have "filter (\<lambda>c. c_job_id c = i)
      (map (\<lambda>c. if c_job_id c = i \<and> c_status c = Queued then c\<lparr>c_status := Cancelled, c_stderr := m\<rparr> else c)
          (map ?upd cs)) = map (\<lambda>c. finish_case_row (the (?f c)) c) (filter (\<lambda>c. c_job_id c = i) cs)"
    if "\<forall>c \<in> set (filter (\<lambda>c. c_job_id c = i) cs). \<exists>r. ?f c = Some r \<and> ca_status r \<noteq> Queued" for cs
    using that
  proof (induction cs)
    case (Cons c cs)
    have fields: "c_job_id (finish_case_row r c) = c_job_id c" "c_status (finish_case_row r c) = ca_status r" for r
      by (simp_all add: finish_case_row_def)
    show ?case
    proof (cases "c_job_id c = i")
      case True
      with Cons.prems obtain r where "?f c = Some r" "ca_status r \<noteq> Queued" by auto
      with True Cons show ?thesis by (simp add: fields)
    next
      case False
      with Cons show ?thesis by simp
    qed
  qed simp
  then show ?thesis
    using assms(2) unfolding case_rows_def select_where_def rows by blast
qed
lemma finish_rows:
  assumes "map ca_position (ex_cases ex) = map (\<lambda>k. 1 + int k) [0..<length (ex_cases ex)]"
    and "\<forall>r \<in> set (ex_cases ex). ca_status r \<noteq> Queued"
    and "map c_position (case_rows s i) = map (\<lambda>k. 1 + int k) [0..<length (ex_cases ex)]"
  shows "map stored_result (case_rows (finish_job now i ex s) i) = ex_cases ex"
proof -
  let ?rows = "case_rows s i" and ?rs = "ex_cases ex"
  have len: "length ?rows = length ?rs" using arg_cong [OF assms(3), of length] by simp
  have row: "c_position (?rows ! k) = 1 + int k" "ca_position (?rs ! k) = 1 + int k"
      "find (\<lambda>r. ca_position r = c_position (?rows ! k)) ?rs = Some (?rs ! k)"
    if "k < length ?rs" for k
  proof -
    show c: "c_position (?rows ! k) = 1 + int k"
      using arg_cong [OF assms(3), of "\<lambda>xs. xs ! k"] that len by simp
    show "ca_position (?rs ! k) = 1 + int k"
      using arg_cong [OF assms(1), of "\<lambda>xs. xs ! k"] that by simp
    show "find (\<lambda>r. ca_position r = c_position (?rows ! k)) ?rs = Some (?rs ! k)"
      unfolding c by (rule find_position [OF assms(1) that])
  qed
  have "\<forall>c \<in> set ?rows. \<exists>r. find (\<lambda>r. ca_position r = c_position c) ?rs = Some r \<and> ca_status r \<noteq> Queued"
  proof
    fix c assume "c \<in> set ?rows"
    then obtain k where k: "k < length ?rs" "c = ?rows ! k" by (metis in_set_conv_nth len)
    with row(3) assms(2) show "\<exists>r. find (\<lambda>r. ca_position r = c_position c) ?rs = Some r \<and> ca_status r \<noteq> Queued"
      by (metis nth_mem)
  qed
  note rows = finish_case_rows [OF positions_distinct [OF assms(1)] this]
  show ?thesis
  proof (rule nth_equalityI)
    fix k assume "k < length (map stored_result (case_rows (finish_job now i ex s) i))"
    then have "k < length ?rs" by (simp add: rows len)
    with row [OF this] len show "map stored_result (case_rows (finish_job now i ex s) i) ! k = ?rs ! k"
      by (simp add: rows stored_result_finish)
  qed (simp add: rows len)
qed

lemma sound_positions:
  assumes "list_all2 sound_case (map (\<lambda>k. 1 + int k) [0..<n]) rs"
  shows "length rs = n" and "map ca_position rs = map (\<lambda>k. 1 + int k) [0..<length rs]"
    and "\<forall>r \<in> set rs. ca_status r \<noteq> Queued"
proof -
  show len: "length rs = n" using list_all2_lengthD [OF assms] by simp
  have all: "sound_case (1 + int k) (rs ! k)" if "k < n" for k
    using list_all2_nthD [OF assms, of k] that by simp
  show "map ca_position rs = map (\<lambda>k. 1 + int k) [0..<length rs]"
    by (rule nth_equalityI) (use all len in \<open>auto simp: sound_case_def\<close>)
  show "\<forall>r \<in> set rs. ca_status r \<noteq> Queued"
    using all len by (fastforce simp: in_set_conv_nth sound_case_def case_states_def)
qed

lemma round_result:
  assumes "round describe clk exec others s = (Inr (Some i), s')"
  obtains c s1 where "claim_next_job clk s = (Some c, s1)" and "i = wj_id (job_view c)"
    and "case exec (job_view c) of
           Inl e \<Rightarrow> s' = mark_job_system_error (clk 4) i (describe e) (others s1)
         | Inr ex \<Rightarrow> s' = finish_job (clk 3) i ex (others s1)"
  using assms
  by (auto simp: round_def process_one_def database_broker_def report_error_def Let_def
      split: prod.splits option.splits sum.splits)

lemma claimed_cases:
  assumes "claim_next_job clk s = (Some c, s1)"
  shows "length (wj_inputs (job_view c)) = length (case_rows s1 (wj_id (job_view c)))"
  using assms
proof (cases rule: claim_cases)
  case (started row c')
  then show ?thesis by (simp add: job_view_def case_rows_def)
qed simp_all

lemma round_stored:
  assumes "reachable s" and "round describe clk exec others s = (Inr (Some i), s')"
    and "\<forall>s. queue_step\<^sup>*\<^sup>* s (others s)"
    and "exec (job_view (the (fst (claim_next_job clk s)))) = Inr ex"
    and "executes decode lim m x cv rv (job_compile_spec job) (job_case_specs job) h ex"
    and "job = job_view (the (fst (claim_next_job clk s)))"
    and "\<forall>i. rv_started (rv i) \<le> rv_ended (rv i)" and "cr_status (ex_compile ex) = Completed"
  shows "\<exists>s2. queue_step\<^sup>*\<^sup>* s s2 \<and> s' = finish_job (clk 3) i ex s2 \<and> map stored_result (case_rows s' i) = ex_cases ex
    \<and> map ca_position (ex_cases ex) = map (\<lambda>k. 1 + int k) [0..<length (wj_inputs job)]
    \<and> length (ex_cases ex) = length (wj_inputs job) \<and> job_status s' i = Some (ex_status ex)"
proof -
  from assms(2) obtain c s1 where claim: "claim_next_job clk s = (Some c, s1)" "i = wj_id (job_view c)"
    and s': "s' = finish_job (clk 3) i ex (others s1)"
    by (rule round_result) (use assms(4) in auto)
  have job: "job = job_view c" using assms(6) claim(1) by simp
  have reach: "reachable s1" using assms(1) claim(1) by (blast intro: reachable.step queue_step.claim)
  obtain row where row: "row \<in> set (t_rows (jobs s1))" "j_id row = i"
    using claimed_row [OF claim(1)] claim(2) by (metis job_view_def wire_job.select_convs(1))
  have steps: "queue_step\<^sup>*\<^sup>* s1 (others s1)" using assms(3) by blast
  have "results_shape (ex_status ex = Cancelled) 1 (job_case_specs job) (ex_cases ex)"
    using executes_shape [OF assms(5)] assms(7,8) by simp
  then have "list_all2 sound_case (map (\<lambda>k. 1 + int k) [0..<length (wj_inputs job)]) (ex_cases ex)"
    by (simp add: results_shape_def)
  note sound = sound_positions [OF this]
  have "i \<le> t_seq (jobs s1)" using reachable_keys [OF reach] row by (auto simp: keys_ok_def)
  from steps_positions [OF steps this] reachable_positions [OF reach]
  have "job_positions (others s1) i = map (\<lambda>k. 1 + int k) [0..<length (job_positions s1 i)]"
    unfolding positions_inv_def by metis
  then have rows: "map c_position (case_rows (others s1) i) = map (\<lambda>k. 1 + int k) [0..<length (ex_cases ex)]"
    using claimed_cases [OF claim(1)] sound(1) by (simp add: job_positions_rows job claim(2))
  have "job_status s1 i \<noteq> None" using row job_status_exists by blast
  then have "job_status (others s1) i \<noteq> None" using job_status_kept [OF steps] by blast
  moreover have "queue_step\<^sup>*\<^sup>* s (others s1)" using queue_step.claim [OF claim(1)] steps by (rule converse_rtranclp_into_rtranclp)
  ultimately show ?thesis
    unfolding s' using finish_rows [OF sound(2,3) rows] sound(1,2)
    by (intro exI [of _ "others s1"]) (simp add: finish_job_status)
qed

text \<open>What was run is what is stored. When the worker has processed a job whose compilation completed, the
  case rows of the job read back, in order, are exactly the results its execution produced, one for each
  input, and the job row has the execution's status, whatever other processes did to the queue in
  between.\<close>
theorem run_results_stored:
  assumes "reachable s" and "round describe clk exec others s = (Inr (Some i), s')"
    and "\<forall>s. queue_step\<^sup>*\<^sup>* s (others s)"
    and "exec (job_view (the (fst (claim_next_job clk s)))) = Inr ex"
    and "executes decode lim m x cv rv (job_compile_spec job) (job_case_specs job) h ex"
    and "job = job_view (the (fst (claim_next_job clk s)))"
    and "\<forall>i. rv_started (rv i) \<le> rv_ended (rv i)" and "cr_status (ex_compile ex) = Completed"
  shows "map stored_result (case_rows s' i) = ex_cases ex \<and> length (ex_cases ex) = length (wj_inputs job)
    \<and> job_status s' i = Some (ex_status ex)"
  using round_stored [OF assms] by blast

text \<open>A job above 256 MiB that the scheduler admits through a grant always fails in production. The
  worker's round ends it as a system error, unless its compilation failed or it was cancelled; no case of it
  ever produces a result.\<close>
theorem large_job_fails:
  assumes "reachable s" and "round describe clk exec others s = (Inr (Some i), s')"
    and "\<forall>s. queue_step\<^sup>*\<^sup>* s (others s)"
    and "job = job_view (the (fst (claim_next_job clk s)))" and "wj_memory_limit_mib job > 256"
    and "sandbox_execute decode lim (Some m) x cv rv (job_compile_spec job) (job_case_specs job) h = Some (exec job, h')"
  shows "job_status s' i = Some SystemError
    \<or> (\<exists>ex. exec job = Inr ex \<and> job_status s' i = Some (ex_status ex) \<and> (\<forall>r \<in> set (ex_cases ex). ca_status r = Cancelled))"
proof -
  from assms(2) obtain c s1 where claim: "claim_next_job clk s = (Some c, s1)" "i = wj_id (job_view c)"
    and s': "case exec (job_view c) of
           Inl e \<Rightarrow> s' = mark_job_system_error (clk 4) i (describe e) (others s1)
         | Inr ex \<Rightarrow> s' = finish_job (clk 3) i ex (others s1)"
    by (rule round_result)
  have job: "job = job_view c" using assms(4) claim(1) by simp
  obtain row where row: "row \<in> set (t_rows (jobs s1))" "j_id row = i"
    using claimed_row [OF claim(1)] claim(2) by (metis job_view_def wire_job.select_convs(1))
  have "job_status s1 i \<noteq> None" using row job_status_exists by blast
  then have ex: "job_status (others s1) i \<noteq> None" using job_status_kept assms(3) by blast
  show ?thesis
  proof (cases "exec job")
    case (Inl e)
    with s' job ex show ?thesis by (simp add: mark_job_status)
  next
    case (Inr r)
    have "\<forall>c \<in> set (job_case_specs job). sp_memory_limit_mib c > 256"
      using assms(5) by (auto simp: job_case_specs_def)
    from sandbox_large_cancelled [OF this assms(6) [unfolded Inr]] Inr s' job ex show ?thesis
      by (simp add: finish_job_status)
  qed
qed

section \<open>Sample rounds\<close>

definition worker_start :: db where
  "worker_start = empty_db\<lparr>users := \<lparr>t_rows = [(sample_user 1 ''a'')\<lparr>u_public_id := sample_owner\<rparr>, sample_user 2 ''b''], t_seq = 2\<rparr>\<rparr>"

definition worker_payload :: "int \<Rightarrow> job_payload" where
  "worker_payload memory = (sample_payload memory)\<lparr>p_compiler := ''gcc-14-gnu++17''\<rparr>"

text \<open>A grant of 512 MiB and one job of its user.\<close>

definition worker_granted :: db where
  "worker_granted = committed (create_grant (at 20) 1 2 (sample_grant (Some 512) (Some 2)) worker_start)"

definition worker_db :: "int \<Rightarrow> db" where
  "worker_db memory = committed (create_job (at 30) 1 (worker_payload memory) worker_granted)"

lemma worker_granted_ok: "is_ok (create_grant (at 20) 1 2 (sample_grant (Some 512) (Some 2)) worker_start)"
  by code_simp

lemma worker_granted_reachable: "reachable worker_granted"
proof -
  from worker_granted_ok obtain g s' where
    grant: "create_grant (at 20) 1 2 (sample_grant (Some 512) (Some 2)) worker_start = Inr (g, s')"
    by (auto split: sum.splits)
  have "reachable worker_start" by (rule reachable.start) (simp_all add: worker_start_def empty_db_def)
  moreover have "grant_bounds (sample_grant (Some 512) (Some 2))"
    by (simp add: grant_bounds_def sample_grant_def within_def ceilings)
  ultimately have "reachable s'" using grant by (blast intro: reachable.step queue_step.grant)
  then show ?thesis by (simp add: worker_granted_def grant committed_def)
qed

lemma worker_db_reachable:
  assumes "is_ok (create_job (at 30) 1 (worker_payload memory) worker_granted)" and "16 \<le> memory" and "memory \<le> 4096"
  shows "reachable (worker_db memory)"
proof -
  from assms(1) obtain d s' where "create_job (at 30) 1 (worker_payload memory) worker_granted = Inr (d, s')"
    by (auto split: sum.splits)
  moreover have "job_bounds (worker_payload memory)"
    using assms(2,3) by (simp add: job_bounds_def worker_payload_def sample_payload_def ceilings)
  ultimately show ?thesis
    using worker_granted_reachable by (auto simp: worker_db_def committed_def intro: reachable.step queue_step.submit)
qed

definition worker_job :: "int \<Rightarrow> wire_job" where
  "worker_job memory = job_view (the (fst (claim_next_job (at 40) (worker_db memory))))"

definition worker_job_at :: "int \<Rightarrow> wire_job" where
  "worker_job_at memory =
     \<lparr>wj_id = 1, wj_owner_public_id = sample_owner, wj_filename = ''a'', wj_source = ''s'',
      wj_compiler = ''gcc-14-gnu++17'', wj_time_limit_ms = 1000, wj_memory_limit_mib = memory, wj_inputs = ['''', ''1'']\<rparr>"

lemma worker_facts:
  "is_ok (create_job (at 30) 1 (worker_payload 64) worker_granted)"
  "is_ok (create_job (at 30) 1 (worker_payload 512) worker_granted)"
  "fst (claim_next_job (at 40) (worker_db 64)) \<noteq> None" "fst (claim_next_job (at 40) (worker_db 512)) \<noteq> None"
  "worker_job 64 = worker_job_at 64" "worker_job 512 = worker_job_at 512"
  by code_simp+

lemma round_returns:
  assumes "fst (claim_next_job clk s) \<noteq> None"
  shows "\<exists>s'. round describe clk exec others s = (Inr (Some (wj_id (job_view (the (fst (claim_next_job clk s)))))), s')"
proof -
  from assms obtain c s1 where "claim_next_job clk s = (Some c, s1)" by (metis option.exhaust prod.collapse)
  then show ?thesis
    by (cases "exec (job_view c)")
      (auto simp: round_def process_one_def database_broker_def report_error_def split: sum.splits)
qed

theorem large_job_fails_witness:
  "\<exists>exec h' s'. sandbox_execute (\<lambda>s. s) sample_limits (Some sample_manager) (sample_exec 0) sample_compile
       (\<lambda>_. sample_view 2 (Inr False)) (job_compile_spec (worker_job 512)) (job_case_specs (worker_job 512)) empty_fs
       = Some (exec (worker_job 512), h')
    \<and> round (\<lambda>_. ''ValueError'') (at 40) exec id (worker_db 512) = (Inr (Some 1), s')
    \<and> (job_status s' 1 = Some SystemError
       \<or> (\<exists>ex. exec (worker_job 512) = Inr ex \<and> job_status s' 1 = Some (ex_status ex)
            \<and> (\<forall>r \<in> set (ex_cases ex). ca_status r = Cancelled)))"
proof -
  have adv: "polls_advance (rv_started (sample_view 2 (Inr False))) (rv_polls (sample_view 2 (Inr False)))"
    by (simp add: sample_view_def sample_polls_advance)
  from sandbox_execute_returns [where rv = "\<lambda>_. sample_view 2 (Inr False)", OF this] obtain r h' where
    run: "sandbox_execute (\<lambda>s. s) sample_limits (Some sample_manager) (sample_exec 0) sample_compile
       (\<lambda>_. sample_view 2 (Inr False)) (job_compile_spec (worker_job 512)) (job_case_specs (worker_job 512)) empty_fs
       = Some (r, h')" by (metis prod.collapse)
  from round_returns [OF worker_facts(4), of "\<lambda>_. ''ValueError''" "\<lambda>_. r" id] obtain s' where
    round: "round (\<lambda>_. ''ValueError'') (at 40) (\<lambda>_. r) id (worker_db 512) = (Inr (Some 1), s')"
    using worker_facts(6) by (auto simp: worker_job_def worker_job_at_def)
  have "wj_memory_limit_mib (worker_job 512) > 256" by (simp add: worker_facts(6) worker_job_at_def)
  from large_job_fails [OF worker_db_reachable [OF worker_facts(2)] round _ worker_job_def this run] run round
  show ?thesis by (intro exI [of _ "\<lambda>_. r"] exI [of _ h'] exI [of _ s']) auto
qed

text \<open>The round of a job of 64 MiB with two inputs.\<close>

definition worker_execution :: execution_result where
  "worker_execution = sample_result_of (local_execute (\<lambda>s. s) sample_limits (sample_exec 0) sample_compile
     (\<lambda>_. sample_view 2 (Inr False)) (job_compile_spec (worker_job_at 64)) (job_case_specs (worker_job_at 64)) empty_fs)"

lemma worker_execution_executes:
  "executes (\<lambda>s. s) sample_limits None (sample_exec 0) sample_compile (\<lambda>_. sample_view 2 (Inr False))
     (job_compile_spec (worker_job_at 64)) (job_case_specs (worker_job_at 64)) empty_fs worker_execution"
proof -
  let ?out = "local_execute (\<lambda>s. s) sample_limits (sample_exec 0) sample_compile
     (\<lambda>_. sample_view 2 (Inr False)) (job_compile_spec (worker_job_at 64)) (job_case_specs (worker_job_at 64)) empty_fs"
  have "map_option (isl \<circ> fst) ?out = Some False" by code_simp
  then obtain out h' where out: "?out = Some (out, h')" "\<not> isl out" by auto
  then obtain ex where "?out = Some (Inr ex, h')" by (cases out) auto
  then show ?thesis unfolding executes_def worker_execution_def sample_result_of_def by auto
qed

theorem run_results_stored_witness:
  "\<exists>s'. round (\<lambda>_. ''e'') (at 40) (\<lambda>_. Inr worker_execution) id (worker_db 64) = (Inr (Some 1), s')
     \<and> map stored_result (case_rows s' 1) = ex_cases worker_execution
     \<and> map (\<lambda>r. (ca_position r, ca_status r, ca_stdout r)) (ex_cases worker_execution)
         = [(1, Completed, ''42''), (2, Completed, ''42'')]"
proof -
  from round_returns [OF worker_facts(3), of "\<lambda>_. ''e''" "\<lambda>_. Inr worker_execution" id] obtain s' where
    round: "round (\<lambda>_. ''e'') (at 40) (\<lambda>_. Inr worker_execution) id (worker_db 64) = (Inr (Some 1), s')"
    using worker_facts(5) by (auto simp: worker_job_def worker_job_at_def)
  have completed: "cr_status (ex_compile worker_execution) = Completed" by code_simp
  have listed: "map (\<lambda>r. (ca_position r, ca_status r, ca_stdout r)) (ex_cases worker_execution)
      = [(1, Completed, ''42''), (2, Completed, ''42'')]" by code_simp
  have job: "worker_job_at 64 = job_view (the (fst (claim_next_job (at 40) (worker_db 64))))"
    using worker_facts(5) unfolding worker_job_def by (rule sym)
  have reach: "reachable (worker_db 64)"
    by (rule worker_db_reachable [OF worker_facts(1)]) simp_all
  have others: "\<forall>s. queue_step\<^sup>*\<^sup>* s (id s)" by simp
  have clock: "\<forall>i::int. rv_started (sample_view 2 (Inr False)) \<le> rv_ended (sample_view 2 (Inr False))"
    using sample_view_clock by blast
  have "map stored_result (case_rows s' 1) = ex_cases worker_execution"
    using conjunct1 [OF run_results_stored [OF reach round others refl worker_execution_executes job clock completed]] .
  with round listed show ?thesis by (intro exI [of _ s'] conjI)
qed

end
