(* ===== verification/Schemas.thy ===== *)
theory Schemas
  imports Broker_Wire Job_Queue Db_Accounts
begin

text \<open>
  The request contracts of \<open>schemas.py\<close>: the patterns and bounds of the fields and the field
  validators, as predicates on the values of a request. A pattern is the recogniser of its regular
  expression (anchored at both ends); a value that fails is answered with status 422 by the framework.
\<close>

section \<open>Characters\<close>

definition in_range :: "nat \<Rightarrow> nat \<Rightarrow> char \<Rightarrow> bool" where
  "in_range lo hi c \<longleftrightarrow> lo \<le> (of_char c :: nat) \<and> (of_char c :: nat) \<le> hi"

definition lower_letter :: "char \<Rightarrow> bool" where "lower_letter = in_range 97 122"
definition upper_letter :: "char \<Rightarrow> bool" where "upper_letter = in_range 65 90"

definition alnum :: "char \<Rightarrow> bool" where
  "alnum c \<longleftrightarrow> lower_letter c \<or> upper_letter c \<or> is_digit c"

section \<open>Accounts\<close>

text \<open>\<open>^[a-z][a-z0-9_-]{2,31}$\<close>.\<close>

definition username_ok :: "string \<Rightarrow> bool" where
  "username_ok s \<longleftrightarrow>
     (case s of
        [] \<Rightarrow> False
      | c # cs \<Rightarrow> lower_letter c \<and> 2 \<le> length cs \<and> length cs \<le> 31
          \<and> (\<forall>d \<in> set cs. lower_letter d \<or> is_digit d \<or> d = CHR ''_'' \<or> d = CHR ''-''))"

definition password_ok :: "string \<Rightarrow> bool" where
  "password_ok s \<longleftrightarrow> 12 \<le> length s \<and> length s \<le> 256"

text \<open>\<open>^(active|disabled)$\<close>, read as the status it names.\<close>

definition parse_status :: "string \<Rightarrow> user_status option" where
  "parse_status s = (if s = ''active'' then Some Active else if s = ''disabled'' then Some Disabled else None)"

definition user_create_ok :: "string \<Rightarrow> string \<Rightarrow> bool" where
  "user_create_ok username password \<longleftrightarrow> username_ok username \<and> password_ok password"

definition optionally :: "('a \<Rightarrow> bool) \<Rightarrow> 'a option \<Rightarrow> bool" where
  "optionally P v \<longleftrightarrow> (case v of None \<Rightarrow> True | Some x \<Rightarrow> P x)"

definition user_update_ok :: "string option \<Rightarrow> string option \<Rightarrow> string option \<Rightarrow> bool" where
  "user_update_ok username status password \<longleftrightarrow>
     optionally username_ok username \<and> optionally (\<lambda>s. parse_status s \<noteq> None) status
     \<and> optionally password_ok password"

section \<open>Extensions\<close>

text \<open>\<open>^[A-Za-z0-9][A-Za-z0-9_-]*\.[A-Za-z0-9][A-Za-z0-9_.-]*$\<close>: the first part has no dot.\<close>

definition identifier_part :: "(char \<Rightarrow> bool) \<Rightarrow> string \<Rightarrow> bool" where
  "identifier_part P s \<longleftrightarrow> (case s of [] \<Rightarrow> False | c # cs \<Rightarrow> alnum c \<and> list_all P cs)"

definition name_char :: "char \<Rightarrow> bool" where
  "name_char c \<longleftrightarrow> alnum c \<or> c = CHR ''_'' \<or> c = CHR ''-''"

definition extension_id_ok :: "string \<Rightarrow> bool" where
  "extension_id_ok s \<longleftrightarrow>
     CHR ''.'' \<in> set s
     \<and> identifier_part name_char (takeWhile (\<lambda>c. c \<noteq> CHR ''.'') s)
     \<and> identifier_part (\<lambda>c. name_char c \<or> c = CHR ''.'') (tl (dropWhile (\<lambda>c. c \<noteq> CHR ''.'') s))"

text \<open>\<open>^[0-9]+\.[0-9]+\.[0-9]+(?:[-+][A-Za-z0-9.-]+)?$\<close>.\<close>

definition number_then :: "(string \<Rightarrow> bool) \<Rightarrow> string \<Rightarrow> bool" where
  "number_then P s \<longleftrightarrow> takeWhile is_digit s \<noteq> [] \<and> P (dropWhile is_digit s)"

definition dot_then :: "(string \<Rightarrow> bool) \<Rightarrow> string \<Rightarrow> bool" where
  "dot_then P s \<longleftrightarrow> (case s of [] \<Rightarrow> False | c # cs \<Rightarrow> c = CHR ''.'' \<and> P cs)"

definition version_suffix :: "string \<Rightarrow> bool" where
  "version_suffix s \<longleftrightarrow>
     (case s of
        [] \<Rightarrow> True
      | c # cs \<Rightarrow> (c = CHR ''-'' \<or> c = CHR ''+'') \<and> cs \<noteq> []
          \<and> list_all (\<lambda>d. alnum d \<or> d = CHR ''.'' \<or> d = CHR ''-'') cs)"

definition version_ok :: "string \<Rightarrow> bool" where
  "version_ok = number_then (dot_then (number_then (dot_then (number_then version_suffix))))"

text \<open>\<open>^[0-9a-f]{64}$\<close>.\<close>

definition sha256_ok :: "string \<Rightarrow> bool" where
  "sha256_ok s \<longleftrightarrow> length s = 64 \<and> list_all lower_hex s"

definition extension_create_ok :: "string \<Rightarrow> string \<Rightarrow> string \<Rightarrow> bool" where
  "extension_create_ok extension_id version sha256 \<longleftrightarrow>
     extension_id_ok extension_id \<and> version_ok version \<and> sha256_ok sha256"

definition scope_ok :: "string \<Rightarrow> bool" where
  "scope_ok s \<longleftrightarrow> s = ''user'' \<or> s = ''global''"

section \<open>Jobs\<close>

definition filename_ok :: "string \<Rightarrow> bool" where
  "filename_ok s \<longleftrightarrow>
     CHR ''/'' \<notin> set s \<and> CHR 0x5C \<notin> set s \<and> ends_with s ''.cpp'' \<and> s \<noteq> ''.cpp'' \<and> s \<noteq> ''..cpp''"

definition source_ok :: "string \<Rightarrow> bool" where
  "source_ok s \<longleftrightarrow> int (utf8_length s) \<le> MAX_SOURCE_BYTES"

definition input_ok :: "string \<Rightarrow> bool" where
  "input_ok s \<longleftrightarrow> int (utf8_length s) \<le> MAX_INPUT_BYTES"

definition compiler_ok :: "string \<Rightarrow> bool" where
  "compiler_ok s \<longleftrightarrow> s = ''gcc-14-gnu++17''"

definition job_create_ok :: "job_payload \<Rightarrow> bool" where
  "job_create_ok p \<longleftrightarrow>
     filename_ok (p_filename p) \<and> source_ok (p_source p) \<and> compiler_ok (p_compiler p)
     \<and> job_bounds p \<and> list_all input_ok (p_inputs p)"

end
