(* ===== verification/Workspace.thy ===== *)
theory Workspace
  imports Effects Uuid
begin

text \<open>
  The workspace images of \<open>workspace_image.py\<close>: one sparse file per developer under the workspace
  root. The state maps paths to images. The external programs (\<open>mkfs.ext4\<close>, \<open>debugfs\<close>) are the
  parameter \<open>tools\<close>, given the command line; \<open>resize\<close> is the outcome of \<open>os.ftruncate\<close>; \<open>staging\<close> is the
  name of the temporary directory.
\<close>

record image =
  im_bytes :: int
  im_mode :: int
  im_formatted :: bool

type_synonym images = "string \<rightharpoonup> image"

record image_world =
  iw_staging :: string
  iw_resize :: "int \<Rightarrow> unit result"
  iw_tools :: "string list \<Rightarrow> unit result"

definition image_path :: "string \<Rightarrow> string \<Rightarrow> string" where
  "image_path root identity = root @ ''/'' @ identity @ ''.img''"

definition mkfs_command :: "string \<Rightarrow> string \<Rightarrow> string \<Rightarrow> string list" where
  "mkfs_command staging identity img =
     [''/usr/sbin/mkfs.ext4'', ''-q'', ''-F'', ''-L'', ''rdp-'' @ take 8 identity, ''-d'', staging, img]"

definition debugfs_command :: "string \<Rightarrow> string list" where
  "debugfs_command img =
     [''/usr/sbin/debugfs'', ''-w'', ''-R'', ''set_inode_field / mode 040777'', img]"

text \<open>The block guarded by \<open>except BaseException: image.unlink(...)\<close>.\<close>

definition format_image :: "image_world \<Rightarrow> string \<Rightarrow> string \<Rightarrow> (images, string) action" where
  "format_image w identity img fs =
     (case bind_result (iw_tools w (mkfs_command (iw_staging w) identity img))
             (\<lambda>_. iw_tools w (debugfs_command img)) of
        Inl e \<Rightarrow> (Inl e, fs(img := None))
      | Inr _ \<Rightarrow> (Inr img, fs(img := map_option (im_mode_update (\<lambda>_. 384) \<circ> im_formatted_update (\<lambda>_. True)) (fs img))))"

text \<open>\<open>O_CREAT | O_EXCL\<close> with mode 0600, then \<open>ftruncate\<close>, whose failure is not guarded.\<close>

definition allocate_image :: "image_world \<Rightarrow> string \<Rightarrow> int \<Rightarrow> (images, unit) action" where
  "allocate_image w img bytes fs =
     (case fs img of
        Some _ \<Rightarrow> (Inl (OsError ''File exists''), fs)
      | None \<Rightarrow>
          (case iw_resize w bytes of
             Inl e \<Rightarrow> (Inl e, fs(img \<mapsto> \<lparr>im_bytes = 0, im_mode = 384, im_formatted = False\<rparr>))
           | Inr _ \<Rightarrow> (Inr (), fs(img \<mapsto> \<lparr>im_bytes = bytes, im_mode = 384, im_formatted = False\<rparr>))))"

definition create_workspace_image ::
    "image_world \<Rightarrow> string \<Rightarrow> string \<Rightarrow> int \<Rightarrow> (images, string) action" where
  "create_workspace_image w root public_id size_mib =
     andthen (lift (require_uuid ''workspace identity must be a canonical UUID'' public_id)) (\<lambda>identity.
       if \<not> (64 \<le> size_mib \<and> size_mib \<le> 16384)
       then raise (ValueError ''workspace image size must be between 64 and 16384 MiB'')
       else
         let img = image_path root identity
         in followed (allocate_image w img (size_mib * 1024 * 1024)) (format_image w identity img))"

section \<open>Creation never touches an existing image\<close>

definition fresh_image :: "int \<Rightarrow> image" where
  "fresh_image size_mib = \<lparr>im_bytes = size_mib * 1024 * 1024, im_mode = 384, im_formatted = True\<rparr>"

lemma image_path_inject [simp]: "image_path root a = image_path root b \<longleftrightarrow> a = b"
  by (simp add: image_path_def)

lemma allocate_image_Inr:
  "allocate_image w img bytes fs = (Inr (), fs') \<longleftrightarrow>
     fs img = None \<and> (\<exists>u. iw_resize w bytes = Inr u)
     \<and> fs' = fs(img \<mapsto> \<lparr>im_bytes = bytes, im_mode = 384, im_formatted = False\<rparr>)"
  by (auto simp: allocate_image_def split: option.splits sum.splits)

lemma allocate_image_Inl:
  assumes "allocate_image w img bytes fs = (Inl e, fs')"
  shows "fs' = fs \<or> fs img = None \<and> iw_resize w bytes = Inl e
    \<and> fs' = fs(img \<mapsto> \<lparr>im_bytes = 0, im_mode = 384, im_formatted = False\<rparr>)"
  using assms by (auto simp: allocate_image_def split: option.splits sum.splits)

lemma create_workspace_image_Inr:
  "create_workspace_image w root pid mib fs = (Inr path, fs') \<Longrightarrow>
     path = image_path root pid \<and> canonical_uuid pid \<and> 64 \<le> mib \<and> mib \<le> 16384 \<and> fs path = None
     \<and> fs' = fs(path \<mapsto> fresh_image mib)"
  by (auto simp: create_workspace_image_def require_uuid_def Let_def allocate_image_Inr
      format_image_def fresh_image_def split: if_splits sum.splits)

lemma create_workspace_image_Inl:
  assumes "create_workspace_image w root pid mib fs = (Inl e, fs')"
  shows "fs' = fs \<or> fs (image_path root pid) = None \<and> iw_resize w (mib * 1024 * 1024) = Inl e
    \<and> fs' = fs(image_path root pid \<mapsto> \<lparr>im_bytes = 0, im_mode = 384, im_formatted = False\<rparr>)"
proof -
  let ?path = "image_path root pid"
  have "fs' = fs \<or> allocate_image w ?path (mib * 1024 * 1024) fs = (Inl e, fs')
      \<or> (\<exists>fs1. allocate_image w ?path (mib * 1024 * 1024) fs = (Inr (), fs1)
            \<and> format_image w pid ?path fs1 = (Inl e, fs'))"
    using assms
    by (auto simp: create_workspace_image_def require_uuid_def Let_def andthen_def split: if_splits prod.splits sum.splits)
  then show ?thesis
    using allocate_image_Inl
    by (fastforce simp: allocate_image_Inr format_image_def fun_upd_idem split: sum.splits)
qed

end
