(* ===== verification/App.thy ===== *)
theory App
  imports Schemas Headers Workspace
begin

text \<open>
  The HTTP control plane of \<open>app.py\<close>. A request is its cookie, its headers and its route; a handler
  changes the database and the workspace images and returns an answer, refuses with an
  \<open>HTTPException\<close>, or fails with an exception that nobody catches (status 500). What it has changed by
  then stays, since every database call is its own transaction. The framework resolves the
  dependencies of a route (session, administrator, CSRF token, developer token) before it validates
  the body. Random tokens, the clock readings of the request, the outcome of \<open>PRAGMA quick_check\<close> and
  the external programs are the argument \<open>env\<close>; the password hash and the token digest are part of
  the configuration. Serving the static files is not modelled.
\<close>

section \<open>Configuration and environment\<close>

record app_config =
  cf_workspace_root :: string
  cf_secure_cookies :: bool
  cf_workspace_size_mib :: int
  cf_managed_mode :: bool
  cf_hash_password :: "string \<Rightarrow> string"
  cf_verify_password :: "string \<Rightarrow> string \<Rightarrow> bool"
  cf_token_hash :: "string \<Rightarrow> string"

text \<open>
  The session look-up reads the clock first (0); the operation of the handler reads it from 1 on, and
  the audit entry last (4).
\<close>

record app_env =
  e_clock :: "nat \<Rightarrow> stamp"
  e_session_token :: string
  e_csrf_token :: string
  e_api_token :: string
  e_uuid :: string
  e_images :: image_world
  e_quick_check :: "string result"

definition op_clock :: "app_env \<Rightarrow> nat \<Rightarrow> stamp" where
  "op_clock env i = e_clock env (Suc i)"

definition audit_clock :: "app_env \<Rightarrow> stamp" where
  "audit_clock env = e_clock env 4"

record plane =
  pl_db :: db
  pl_images :: images

section \<open>Requests\<close>

datatype route =
    Login_Page | Admin_Page | Health
  | Developer_Login string string
  | Forward_Auth | Logout
  | Admin_Login string string
  | List_Users
  | Create_User string string
  | Update_User string "string option" "string option" "string option"
  | Revoke_Sessions string
  | Rotate_Token string
  | List_Headers
  | Set_Header string bool
  | Extension_Catalog
  | Request_Extension int
  | Admin_Extensions
  | Add_Extension string string string
  | Extension_Requests
  | Approve_Extension int string
  | Create_Grant string grant_payload
  | Admin_Jobs
  | Admin_Cancel_Job int
  | Audit_Log
  | Create_Job job_payload
  | Get_Job int
  | Cancel_Job int

record http_request =
  rq_route :: route
  rq_cookie :: "string option"
  rq_csrf :: "string option"
  rq_authorization :: "string option"
  rq_forwarded_uri :: "string option"
  rq_client :: "string option"

section \<open>Answers\<close>

text \<open>\<open>public_user\<close>: the row without its id, password hash and token hash.\<close>

record public_user =
  pu_public_id :: string
  pu_username :: string
  pu_role :: role
  pu_status :: user_status
  pu_workspace_path :: "string option"
  pu_workspace_quota_mib :: int
  pu_created_at :: stamp
  pu_last_login_at :: "stamp option"

definition public_user :: "user_row \<Rightarrow> public_user" where
  "public_user u =
     \<lparr>pu_public_id = u_public_id u, pu_username = u_username u, pu_role = u_role u,
      pu_status = u_status u, pu_workspace_path = u_workspace_path u,
      pu_workspace_quota_mib = u_workspace_quota_mib u, pu_created_at = u_created_at u,
      pu_last_login_at = u_last_login_at u\<rparr>"

text \<open>A job as its owner sees it: \<open>source\<close> and the \<open>input_text\<close> of the cases are removed.\<close>

record public_case =
  pc_id :: int
  pc_job_id :: int
  pc_position :: int
  pc_status :: job_state
  pc_stdout :: string
  pc_stderr :: string
  pc_wall_time_ms :: "int option"
  pc_peak_memory_kib :: "int option"
  pc_exit_code :: "int option"
  pc_term_signal :: "int option"
  pc_output_truncated :: bool

definition public_case :: "case_row \<Rightarrow> public_case" where
  "public_case c =
     \<lparr>pc_id = c_id c, pc_job_id = c_job_id c, pc_position = c_position c, pc_status = c_status c,
      pc_stdout = c_stdout c, pc_stderr = c_stderr c, pc_wall_time_ms = c_wall_time_ms c,
      pc_peak_memory_kib = c_peak_memory_kib c, pc_exit_code = c_exit_code c,
      pc_term_signal = c_term_signal c, pc_output_truncated = c_output_truncated c\<rparr>"

record public_job =
  pj_id :: int
  pj_user_id :: int
  pj_filename :: string
  pj_compiler :: string
  pj_time_limit_ms :: int
  pj_memory_limit_mib :: int
  pj_status :: job_state
  pj_created_at :: stamp
  pj_started_at :: "stamp option"
  pj_finished_at :: "stamp option"
  pj_cancel_requested :: bool
  pj_compile_status :: "job_state option"
  pj_compile_stdout :: string
  pj_compile_stderr :: string
  pj_compile_exit_code :: "int option"
  pj_compile_wall_time_ms :: "int option"
  pj_grant_id :: "int option"
  pj_cases :: "public_case list"
  pj_case_count :: nat

definition public_job :: "job_detail \<Rightarrow> public_job" where
  "public_job d =
     (let j = jd_job d
      in \<lparr>pj_id = j_id j, pj_user_id = j_user_id j, pj_filename = j_filename j,
          pj_compiler = j_compiler j, pj_time_limit_ms = j_time_limit_ms j,
          pj_memory_limit_mib = j_memory_limit_mib j, pj_status = j_status j,
          pj_created_at = j_created_at j, pj_started_at = j_started_at j,
          pj_finished_at = j_finished_at j, pj_cancel_requested = j_cancel_requested j,
          pj_compile_status = j_compile_status j, pj_compile_stdout = j_compile_stdout j,
          pj_compile_stderr = j_compile_stderr j, pj_compile_exit_code = j_compile_exit_code j,
          pj_compile_wall_time_ms = j_compile_wall_time_ms j, pj_grant_id = j_grant_id j,
          pj_cases = map public_case (jd_cases d), pj_case_count = jd_case_count d\<rparr>)"

text \<open>A row of the administrator's job list, joined with the name of its owner.\<close>

record admin_job =
  aj_id :: int
  aj_user_id :: int
  aj_username :: "string option"
  aj_filename :: string
  aj_compiler :: string
  aj_time_limit_ms :: int
  aj_memory_limit_mib :: int
  aj_status :: job_state
  aj_created_at :: stamp
  aj_started_at :: "stamp option"
  aj_finished_at :: "stamp option"
  aj_cancel_requested :: bool

definition admin_job :: "db \<Rightarrow> job_row \<Rightarrow> admin_job" where
  "admin_job s j =
     \<lparr>aj_id = j_id j, aj_user_id = j_user_id j,
      aj_username = map_option u_username (get_user s (j_user_id j)), aj_filename = j_filename j,
      aj_compiler = j_compiler j, aj_time_limit_ms = j_time_limit_ms j,
      aj_memory_limit_mib = j_memory_limit_mib j, aj_status = j_status j,
      aj_created_at = j_created_at j, aj_started_at = j_started_at j,
      aj_finished_at = j_finished_at j, aj_cancel_requested = j_cancel_requested j\<rparr>"

datatype problem =
    Message string
  | Coded string string
  | Include_Policy "include_error list"
  | Invalid_Body
  | Internal_Error

datatype body =
    Page string
  | Status_Text string
  | Developer_Session string string
  | Admin_Session string string
  | Access_Ok
  | User_List "public_user list"
  | User_Created public_user string
  | User_Changed public_user
  | Sessions_Revoked string nat
  | Token_Rotated string string
  | Header_List "(string \<times> bool \<times> bool) list"
  | Header_Set "string \<times> bool"
  | Extension_List "catalog_row list"
  | Extension_Added catalog_row
  | Request_List "(ext_request_row \<times> string \<times> string \<times> string) list"
  | Request_Row ext_request_row
  | Grant_Row grant_row
  | Job_List "admin_job list"
  | Job_State int job_state bool
  | Job_Accepted int job_state nat
  | Job_Shown public_job
  | Audit_List "audit_row list"
  | Problem problem

text \<open>Setting the session cookie with its value, \<open>secure\<close> and \<open>max_age\<close>, or deleting it.\<close>

datatype cookie_change = Set_Session string bool int | Delete_Session bool

record answer =
  an_status :: int
  an_body :: body
  an_cookie :: "cookie_change option"
  an_headers :: "(string \<times> string) list"

definition answer_with :: "int \<Rightarrow> body \<Rightarrow> answer" where
  "answer_with st b = \<lparr>an_status = st, an_body = b, an_cookie = None, an_headers = []\<rparr>"

section \<open>Handlers\<close>

datatype refusal =
    Refused int problem "(string \<times> string) list"
  | Crashed py_error

type_synonym 'a handler = "(plane, refusal, 'a) effect"

abbreviation refuse :: "int \<Rightarrow> string \<Rightarrow> 'a handler" where
  "refuse st message \<equiv> raise (Refused st (Message message) [])"

text \<open>A database operation is one committed transaction, or an exception.\<close>

definition on_db :: "(db \<Rightarrow> ('a \<times> db) result) \<Rightarrow> 'a handler" where
  "on_db f p = (case f (pl_db p) of
                  Inl e \<Rightarrow> (Inl (Crashed e), p)
                | Inr (x, s) \<Rightarrow> (Inr x, p\<lparr>pl_db := s\<rparr>))"

definition reading :: "(db \<Rightarrow> 'a) \<Rightarrow> 'a handler" where
  "reading f = on_db (\<lambda>s. Inr (f s, s))"

definition changing :: "(db \<Rightarrow> 'a \<times> db) \<Rightarrow> 'a handler" where
  "changing f = on_db (\<lambda>s. Inr (f s))"

definition storing :: "(db \<Rightarrow> db result) \<Rightarrow> unit handler" where
  "storing f = on_db (\<lambda>s. map_sum id (Pair ()) (f s))"

definition on_images :: "(images, 'a) action \<Rightarrow> 'a handler" where
  "on_images f p = (case f (pl_images p) of
                      (Inl e, fs) \<Rightarrow> (Inl (Crashed e), p\<lparr>pl_images := fs\<rparr>)
                    | (Inr x, fs) \<Rightarrow> (Inr x, p\<lparr>pl_images := fs\<rparr>))"

text \<open>\<open>try: m except: ...\<close>; the clause gets the exception and either ends the request or raises.\<close>

definition catching :: "'a handler \<Rightarrow> (refusal \<Rightarrow> 'a handler) \<Rightarrow> 'a handler" where
  "catching m h p = (case m p of (Inl e, p') \<Rightarrow> h e p' | (Inr x, p') \<Rightarrow> (Inr x, p'))"

text \<open>A field of a row that is \<open>None\<close>.\<close>

definition the_row :: "'a option \<Rightarrow> 'a handler" where
  "the_row v = (case v of None \<Rightarrow> raise (Crashed (TypeError '''NoneType' object is not subscriptable''))
                        | Some x \<Rightarrow> ret x)"

text \<open>An integer parameter outside 64 bits cannot be bound to a statement.\<close>

definition bindable :: "int \<Rightarrow> unit handler" where
  "bindable i =
     (if - (2 ^ 63) \<le> i \<and> i < 2 ^ 63 then ret ()
      else raise (Crashed (OverflowError ''Python int too large to convert to SQLite INTEGER'')))"

text \<open>The request validation of the framework.\<close>

definition valid_body :: "bool \<Rightarrow> unit handler" where
  "valid_body ok = (if ok then ret () else raise (Refused 422 Invalid_Body []))"

section \<open>Dependencies\<close>

definition current_session :: "app_config \<Rightarrow> app_env \<Rightarrow> http_request \<Rightarrow> (user_row \<times> string) handler" where
  "current_session cfg env req =
     (case rq_cookie req of
        None \<Rightarrow> refuse 401 ''authentication required''
      | Some token \<Rightarrow>
          if token = [] then refuse 401 ''authentication required''
          else andthen (reading (get_session_user (cf_token_hash cfg) (e_clock env 0) token)) (\<lambda>found.
            case found of
              None \<Rightarrow> refuse 401 ''invalid session''
            | Some session \<Rightarrow> ret session))"

definition admin_session :: "app_config \<Rightarrow> app_env \<Rightarrow> http_request \<Rightarrow> (user_row \<times> string) handler" where
  "admin_session cfg env req =
     andthen (current_session cfg env req) (\<lambda>session.
       if u_role (fst session) \<noteq> Admin then refuse 403 ''administrator required'' else ret session)"

definition admin_user :: "app_config \<Rightarrow> app_env \<Rightarrow> http_request \<Rightarrow> user_row handler" where
  "admin_user cfg env req = andthen (admin_session cfg env req) (\<lambda>session. ret (fst session))"

definition csrf_admin :: "app_config \<Rightarrow> app_env \<Rightarrow> http_request \<Rightarrow> user_row handler" where
  "csrf_admin cfg env req =
     andthen (admin_session cfg env req) (\<lambda>session.
       case rq_csrf req of
         None \<Rightarrow> refuse 403 ''CSRF validation failed''
       | Some supplied \<Rightarrow>
           if supplied = [] \<or> supplied \<noteq> snd session then refuse 403 ''CSRF validation failed''
           else ret (fst session))"

definition developer_from_public_id :: "string \<Rightarrow> user_row handler" where
  "developer_from_public_id public_id =
     (if \<not> canonical_uuid public_id then refuse 404 ''developer not found''
      else andthen (reading (\<lambda>s. get_user_by_public_id s public_id)) (\<lambda>found.
        case found of
          None \<Rightarrow> refuse 404 ''developer not found''
        | Some user \<Rightarrow> if u_role user \<noteq> Developer then refuse 404 ''developer not found'' else ret user))"

definition developer_user :: "app_config \<Rightarrow> http_request \<Rightarrow> user_row handler" where
  "developer_user cfg req =
     (case rq_authorization req of
        None \<Rightarrow> refuse 401 ''developer token required''
      | Some authorization \<Rightarrow>
          if authorization = [] \<or> \<not> starts_with authorization ''Bearer ''
          then refuse 401 ''developer token required''
          else andthen
            (reading (\<lambda>s. get_user_by_api_token (cf_token_hash cfg) s (strip (drop 7 authorization)))) (\<lambda>found.
              case found of
                None \<Rightarrow> refuse 401 ''invalid developer token''
              | Some user \<Rightarrow>
                  if u_role user \<noteq> Developer then refuse 401 ''invalid developer token'' else ret user))"

section \<open>Logging in and out\<close>

definition issue_session :: "app_config \<Rightarrow> app_env \<Rightarrow> user_row \<Rightarrow> (string \<times> cookie_change) handler" where
  "issue_session cfg env user =
     followed
       (storing (create_session (cf_token_hash cfg) (op_clock env) (u_id user)
          (e_session_token env) (e_csrf_token env)))
       (ret (e_csrf_token env, Set_Session (e_session_token env) (cf_secure_cookies cfg) 43200))"

definition login_source :: "http_request \<Rightarrow> string" where
  "login_source req = (case rq_client req of None \<Rightarrow> ''unknown'' | Some host \<Rightarrow> host)"

definition enforce_login_limit :: "app_env \<Rightarrow> string \<Rightarrow> string \<Rightarrow> string \<Rightarrow> unit handler" where
  "enforce_login_limit env scope username source =
     andthen (reading (login_retry_after (e_clock env 0) scope username source)) (\<lambda>retry_after.
       if retry_after \<noteq> 0
       then raise (Refused 429 (Message ''too many login attempts'') [(''Retry-After'', int_text retry_after)])
       else ret ())"

text \<open>The part the two login routes share: limit, credentials, failure record.\<close>

definition credentials_ok :: "app_config \<Rightarrow> role \<Rightarrow> string \<Rightarrow> user_row \<Rightarrow> bool" where
  "credentials_ok cfg wanted password user \<longleftrightarrow>
     u_role user = wanted \<and> u_status user = Active
     \<and> cf_verify_password cfg (u_password_hash user) password"

definition authenticate ::
    "app_config \<Rightarrow> app_env \<Rightarrow> string \<Rightarrow> role \<Rightarrow> string \<Rightarrow> string \<Rightarrow> string \<Rightarrow> user_row handler" where
  "authenticate cfg env scope wanted username password source =
     followed (enforce_login_limit env scope username source)
       (andthen (reading (\<lambda>s. get_user_by_username s username)) (\<lambda>found.
          case (case found of None \<Rightarrow> None | Some u \<Rightarrow> if credentials_ok cfg wanted password u then Some u else None) of
            None \<Rightarrow>
              followed (storing (\<lambda>s. Inr (record_login_failure (op_clock env 0) scope username source s)))
                (refuse 401 ''invalid credentials'')
          | Some user \<Rightarrow>
              followed (storing (\<lambda>s. Inr (clear_login_failures scope username source s))) (ret user)))"

definition workspace_url :: "user_row \<Rightarrow> string" where
  "workspace_url user = ''/u/'' @ u_public_id user @ ''/''"

definition developer_login :: "app_config \<Rightarrow> app_env \<Rightarrow> string \<Rightarrow> string \<Rightarrow> http_request \<Rightarrow> answer handler" where
  "developer_login cfg env username password req =
     andthen (authenticate cfg env ''developer'' Developer username password (login_source req)) (\<lambda>user.
     andthen (issue_session cfg env user) (\<lambda>(csrf, cookie).
     followed
       (storing (audit (audit_clock env) (Some (u_id user)) ''developer.login'' (Some ''user'')
          (Some (u_public_id user)) []))
       (ret ((answer_with 200 (Developer_Session (u_username user) (workspace_url user)))\<lparr>an_cookie := Some cookie\<rparr>))))"

definition admin_login :: "app_config \<Rightarrow> app_env \<Rightarrow> string \<Rightarrow> string \<Rightarrow> http_request \<Rightarrow> answer handler" where
  "admin_login cfg env username password req =
     andthen (authenticate cfg env ''admin'' Admin username password (login_source req)) (\<lambda>user.
     andthen (issue_session cfg env user) (\<lambda>(csrf, cookie).
     followed
       (storing (audit (audit_clock env) (Some (u_id user)) ''admin.login'' (Some ''user'')
          (Some (u_public_id user)) []))
       (ret ((answer_with 200 (Admin_Session (u_username user) csrf))\<lparr>an_cookie := Some cookie\<rparr>))))"

definition forward_auth :: "app_config \<Rightarrow> app_env \<Rightarrow> http_request \<Rightarrow> answer handler" where
  "forward_auth cfg env req =
     andthen (current_session cfg env req) (\<lambda>session.
       let user = fst session;
           granted = (case rq_forwarded_uri req of
                        None \<Rightarrow> False
                      | Some uri \<Rightarrow> uri \<noteq> [] \<and> starts_with uri (workspace_url user))
       in if u_role user \<noteq> Developer \<or> \<not> granted then refuse 403 ''workspace access denied''
          else ret ((answer_with 200 Access_Ok)\<lparr>an_headers := [(''X-Remote-User'', u_public_id user)]\<rparr>))"

definition logout :: "app_config \<Rightarrow> app_env \<Rightarrow> http_request \<Rightarrow> answer handler" where
  "logout cfg env req =
     andthen (current_session cfg env req) (\<lambda>_.
     followed
       (case rq_cookie req of
          None \<Rightarrow> ret ()
        | Some encoded \<Rightarrow>
            if encoded = [] then ret ()
            else andthen (changing (revoke_session_token (cf_token_hash cfg) encoded)) (\<lambda>_. ret ()))
       (ret ((answer_with 200 (Status_Text ''logged_out''))\<lparr>an_cookie := Some (Delete_Session (cf_secure_cookies cfg))\<rparr>)))"

section \<open>Developer accounts\<close>

definition audited ::
    "app_env \<Rightarrow> user_row \<Rightarrow> string \<Rightarrow> string \<Rightarrow> string \<Rightarrow> details \<Rightarrow> unit handler" where
  "audited env admin action target_type target_id details =
     storing (audit (audit_clock env) (Some (u_id admin)) action (Some target_type) (Some target_id) details)"

definition list_users :: "app_config \<Rightarrow> app_env \<Rightarrow> http_request \<Rightarrow> answer handler" where
  "list_users cfg env req =
     andthen (admin_user cfg env req) (\<lambda>_.
     andthen (reading list_developers) (\<lambda>rows.
     ret (answer_with 200 (User_List (map public_user rows)))))"

text \<open>\<open>create_developer\<close> guarded by \<open>except Exception: workspace.unlink(missing_ok=True)\<close>.\<close>

definition register_developer ::
    "app_config \<Rightarrow> app_env \<Rightarrow> string \<Rightarrow> string \<Rightarrow> string \<Rightarrow> user_row option handler" where
  "register_developer cfg env username password workspace =
     catching
       (on_db (create_developer (cf_hash_password cfg) (cf_token_hash cfg) (e_uuid env) (op_clock env 0)
          username password (e_api_token env) workspace (Some (e_uuid env))))
       (\<lambda>e. followed (on_images (\<lambda>fs. (Inr (), fs(workspace := None)))) (raise e))"

definition create_user :: "app_config \<Rightarrow> app_env \<Rightarrow> string \<Rightarrow> string \<Rightarrow> http_request \<Rightarrow> answer handler" where
  "create_user cfg env username password req =
     andthen (csrf_admin cfg env req) (\<lambda>admin.
     followed (valid_body (user_create_ok username password))
     (if cf_managed_mode cfg then refuse 403 ''managed instances require offline bootstrap''
      else
        andthen (reading list_developers) (\<lambda>developers.
        if length developers \<ge> MAX_DEVELOPER_ACCOUNTS
        then refuse 409 ''developer account limit reached''
        else
          andthen (reading (\<lambda>s. get_user_by_username s username)) (\<lambda>taken.
          if taken \<noteq> None then refuse 409 ''username already exists''
          else
            andthen (on_images (create_workspace_image (e_images env) (cf_workspace_root cfg) (e_uuid env)
                (cf_workspace_size_mib cfg))) (\<lambda>workspace.
            andthen (register_developer cfg env username password workspace) (\<lambda>row.
            andthen (the_row row) (\<lambda>user.
            followed
              (audited env admin ''user.create'' ''user'' (u_public_id user)
                [(''username'', Detail_Text (u_username user))])
              (ret (answer_with 201 (User_Created (public_user user) (e_api_token env)))))))))))"

text \<open>The audit entry of a change never holds the new password.\<close>

definition change_details :: "string option \<Rightarrow> string option \<Rightarrow> string option \<Rightarrow> details" where
  "change_details username status password =
     (case username of None \<Rightarrow> [] | Some v \<Rightarrow> [(''username'', Detail_Text v)])
     @ (case status of None \<Rightarrow> [] | Some v \<Rightarrow> [(''status'', Detail_Text v)])
     @ (case password of None \<Rightarrow> [] | Some v \<Rightarrow> [(''password'', Detail_Text ''[REDACTED]'')])"

text \<open>\<open>except sqlite3.IntegrityError\<close>.\<close>

definition username_conflict :: "refusal \<Rightarrow> 'a handler" where
  "username_conflict e =
     (case e of
        Crashed (IntegrityError message) \<Rightarrow>
          if occurs ''users.username'' message then refuse 409 ''username already exists'' else raise e
      | _ \<Rightarrow> raise e)"

definition update_user ::
    "app_config \<Rightarrow> app_env \<Rightarrow> string \<Rightarrow> string option \<Rightarrow> string option \<Rightarrow> string option \<Rightarrow> http_request
     \<Rightarrow> answer handler" where
  "update_user cfg env public_id username status password req =
     andthen (csrf_admin cfg env req) (\<lambda>admin.
     followed (valid_body (user_update_ok username status password))
     (andthen (developer_from_public_id public_id) (\<lambda>current.
      if username = None \<and> status = None \<and> password = None
      then refuse 422 ''no user changes supplied''
      else
        andthen
          (catching
             (on_db (update_developer (cf_hash_password cfg) (u_id current) username
                (Option.bind status parse_status) password))
             username_conflict) (\<lambda>changed.
        case changed of
          None \<Rightarrow> refuse 404 ''developer not found''
        | Some user \<Rightarrow>
            followed
              (audited env admin ''user.update'' ''user'' public_id (change_details username status password))
              (ret (answer_with 200 (User_Changed (public_user user))))))))"

definition revoke_sessions :: "app_config \<Rightarrow> app_env \<Rightarrow> string \<Rightarrow> http_request \<Rightarrow> answer handler" where
  "revoke_sessions cfg env public_id req =
     andthen (csrf_admin cfg env req) (\<lambda>admin.
     andthen (developer_from_public_id public_id) (\<lambda>user.
     andthen (changing (revoke_user_sessions (u_id user))) (\<lambda>revoked.
     case revoked of
       None \<Rightarrow> refuse 404 ''developer not found''
     | Some count \<Rightarrow>
         followed
           (audited env admin ''user.sessions.revoke'' ''user'' public_id
             [(''revoked_sessions'', Detail_Int (int count))])
           (ret (answer_with 200 (Sessions_Revoked public_id count))))))"

definition rotate_user_token :: "app_config \<Rightarrow> app_env \<Rightarrow> string \<Rightarrow> http_request \<Rightarrow> answer handler" where
  "rotate_user_token cfg env public_id req =
     andthen (csrf_admin cfg env req) (\<lambda>admin.
     if cf_managed_mode cfg then refuse 403 ''managed instances require offline token rotation''
     else
       andthen (developer_from_public_id public_id) (\<lambda>current.
       andthen (on_db (rotate_developer_token (cf_token_hash cfg) (u_id current) (e_api_token env))) (\<lambda>changed.
       if changed = None then refuse 404 ''developer not found''
       else
         followed (audited env admin ''user.token.rotate'' ''user'' public_id [])
           (ret (answer_with 200 (Token_Rotated public_id (e_api_token env)))))))"

section \<open>Headers and extensions\<close>

definition show_headers :: "app_config \<Rightarrow> app_env \<Rightarrow> http_request \<Rightarrow> answer handler" where
  "show_headers cfg env req =
     andthen (admin_user cfg env req) (\<lambda>_.
     andthen (reading list_headers) (\<lambda>rows. ret (answer_with 200 (Header_List rows))))"

definition header_name_ok :: "string \<Rightarrow> bool" where
  "header_name_ok name \<longleftrightarrow>
     name \<noteq> [] \<and> \<not> starts_with name ''/'' \<and> ''..'' \<notin> set (split_on CHR ''/'' name)"

definition update_header :: "app_config \<Rightarrow> app_env \<Rightarrow> string \<Rightarrow> bool \<Rightarrow> http_request \<Rightarrow> answer handler" where
  "update_header cfg env header_name enabled req =
     andthen (csrf_admin cfg env req) (\<lambda>admin.
     if \<not> header_name_ok header_name then refuse 422 ''invalid header name''
     else
       andthen (changing (set_header (op_clock env 0) header_name enabled)) (\<lambda>result.
       followed
         (audited env admin ''header.update'' ''header'' header_name [(''enabled'', Detail_Bool enabled)])
         (ret (answer_with 200 (Header_Set result)))))"

definition extension_catalog_page :: "app_config \<Rightarrow> http_request \<Rightarrow> answer handler" where
  "extension_catalog_page cfg req =
     andthen (developer_user cfg req) (\<lambda>_.
     andthen (reading list_extensions) (\<lambda>rows. ret (answer_with 200 (Extension_List rows))))"

definition unknown_extension :: "refusal \<Rightarrow> 'a handler" where
  "unknown_extension e =
     (case e of
        Crashed (LookupError _) \<Rightarrow> refuse 404 ''extension not in approved catalog''
      | _ \<Rightarrow> raise e)"

definition ask_extension :: "app_config \<Rightarrow> app_env \<Rightarrow> int \<Rightarrow> http_request \<Rightarrow> answer handler" where
  "ask_extension cfg env catalog_id req =
     andthen (developer_user cfg req) (\<lambda>user.
     followed (valid_body (catalog_id > 0))
     (followed (bindable catalog_id)
     (andthen
       (catching (on_db (request_extension (op_clock env 0) (u_id user) catalog_id))
          unknown_extension) (\<lambda>row.
       ret (answer_with 201 (Request_Row row))))))"

definition admin_extensions :: "app_config \<Rightarrow> app_env \<Rightarrow> http_request \<Rightarrow> answer handler" where
  "admin_extensions cfg env req =
     andthen (admin_user cfg env req) (\<lambda>_.
     andthen (reading list_extensions) (\<lambda>rows. ret (answer_with 200 (Extension_List rows))))"

definition add_extension ::
    "app_config \<Rightarrow> app_env \<Rightarrow> string \<Rightarrow> string \<Rightarrow> string \<Rightarrow> http_request \<Rightarrow> answer handler" where
  "add_extension cfg env extension_id version sha256 req =
     andthen (csrf_admin cfg env req) (\<lambda>admin.
     followed (valid_body (extension_create_ok extension_id version sha256))
     (andthen (on_db (create_extension (op_clock env 0) extension_id version sha256)) (\<lambda>item.
      followed
        (audited env admin ''extension.catalog.add'' ''extension'' (int_text (x_id item))
          [(''extension_id'', Detail_Text extension_id), (''version'', Detail_Text version),
           (''sha256'', Detail_Text sha256)])
        (ret (answer_with 201 (Extension_Added item))))))"

definition show_extension_requests :: "app_config \<Rightarrow> app_env \<Rightarrow> http_request \<Rightarrow> answer handler" where
  "show_extension_requests cfg env req =
     andthen (admin_user cfg env req) (\<lambda>_.
     andthen (reading list_extension_requests) (\<lambda>rows. ret (answer_with 200 (Request_List rows))))"

definition approve_extension ::
    "app_config \<Rightarrow> app_env \<Rightarrow> int \<Rightarrow> string \<Rightarrow> http_request \<Rightarrow> answer handler" where
  "approve_extension cfg env request_id scope req =
     andthen (csrf_admin cfg env req) (\<lambda>admin.
     followed (valid_body (scope_ok scope))
     (followed (bindable request_id)
     (andthen (on_db (decide_extension_request (op_clock env 0) request_id (u_id admin) scope)) (\<lambda>item.
      case item of
        None \<Rightarrow> refuse 404 ''pending extension request not found''
      | Some row \<Rightarrow>
          followed
            (audited env admin ''extension.request.approve'' ''extension_request'' (int_text request_id)
              [(''scope'', Detail_Text scope)])
            (ret (answer_with 200 (Request_Row row)))))))"

section \<open>Grants and jobs\<close>

definition detail_of :: "int option \<Rightarrow> detail" where
  "detail_of v = (case v of None \<Rightarrow> Detail_Null | Some n \<Rightarrow> Detail_Int n)"

definition grant_details :: "grant_payload \<Rightarrow> details" where
  "grant_details p =
     [(''memory_limit_mib'', detail_of (gp_memory_limit_mib p)),
      (''time_limit_ms'', detail_of (gp_time_limit_ms p)),
      (''max_inflight'', detail_of (gp_max_inflight p)),
      (''remaining_uses'', detail_of (gp_remaining_uses p)),
      (''expires_in_seconds'', detail_of (gp_expires_in_seconds p))]"

definition no_effect :: "grant_payload \<Rightarrow> bool" where
  "no_effect p \<longleftrightarrow>
     gp_memory_limit_mib p = None \<and> gp_time_limit_ms p = None \<and> gp_max_inflight p = None
     \<and> gp_remaining_uses p = None \<and> gp_expires_in_seconds p = None"

definition grant_quota :: "app_config \<Rightarrow> app_env \<Rightarrow> string \<Rightarrow> grant_payload \<Rightarrow> http_request \<Rightarrow> answer handler" where
  "grant_quota cfg env public_id p req =
     andthen (csrf_admin cfg env req) (\<lambda>admin.
     followed (valid_body (grant_bounds p))
     (andthen (developer_from_public_id public_id) (\<lambda>user.
      if no_effect p then refuse 422 ''grant has no effect''
      else
        andthen (on_db (create_grant (op_clock env) (u_id user) (u_id admin) p)) (\<lambda>grant.
        followed (audited env admin ''grant.create'' ''user'' public_id (grant_details p))
          (ret (answer_with 201 (Grant_Row grant)))))))"

definition show_jobs :: "app_config \<Rightarrow> app_env \<Rightarrow> http_request \<Rightarrow> answer handler" where
  "show_jobs cfg env req =
     andthen (admin_user cfg env req) (\<lambda>_.
     andthen (reading (\<lambda>s. map (admin_job s) (list_jobs_admin s 100))) (\<lambda>rows.
     ret (answer_with 200 (Job_List rows))))"

definition job_state_answer :: "int \<Rightarrow> job_row \<Rightarrow> answer" where
  "job_state_answer job_id j = answer_with 200 (Job_State job_id (j_status j) (j_cancel_requested j))"

definition admin_cancel :: "app_config \<Rightarrow> app_env \<Rightarrow> int \<Rightarrow> http_request \<Rightarrow> answer handler" where
  "admin_cancel cfg env job_id req =
     andthen (csrf_admin cfg env req) (\<lambda>admin.
     followed (bindable job_id)
     (andthen (changing (cancel_job_admin (op_clock env 0) job_id)) (\<lambda>found.
      case found of
        None \<Rightarrow> refuse 404 ''job not found''
      | Some d \<Rightarrow>
          followed (audited env admin ''job.cancel'' ''job'' (int_text job_id) [])
            (ret (job_state_answer job_id (jd_job d))))))"

definition show_audit :: "app_config \<Rightarrow> app_env \<Rightarrow> http_request \<Rightarrow> answer handler" where
  "show_audit cfg env req =
     andthen (admin_user cfg env req) (\<lambda>_.
     andthen (reading list_audit) (\<lambda>rows. ret (answer_with 200 (Audit_List rows))))"

text \<open>The \<open>except\<close> clauses of a submission.\<close>

definition submission_refusal :: "refusal \<Rightarrow> 'a handler" where
  "submission_refusal e =
     (case e of
        Crashed (OverflowError _) \<Rightarrow> raise (Refused 409 (Coded ''inflight_limit'' ''too many unfinished jobs'') [])
      | Crashed (ValueError message) \<Rightarrow>
          if message = ''quota_exceeded''
          then raise (Refused 422
            (Coded ''quota_exceeded'' ''requested limits exceed active authorization'') [])
          else raise e
      | _ \<Rightarrow> raise e)"

definition submit_job :: "app_config \<Rightarrow> app_env \<Rightarrow> job_payload \<Rightarrow> http_request \<Rightarrow> answer handler" where
  "submit_job cfg env p req =
     andthen (developer_user cfg req) (\<lambda>user.
     followed (valid_body (job_create_ok p))
     (andthen (reading enabled_headers) (\<lambda>allowed.
      let include_errors = validate_direct_includes (p_source p) allowed
      in if include_errors \<noteq> [] then raise (Refused 422 (Include_Policy include_errors) [])
         else
           andthen
             (catching (on_db (create_job (op_clock env) (u_id user) p))
                submission_refusal) (\<lambda>created.
           andthen (the_row created) (\<lambda>d.
           ret (answer_with 202
             (Job_Accepted (j_id (jd_job d)) (j_status (jd_job d)) (jd_case_count d))))))))"

definition show_job :: "app_config \<Rightarrow> int \<Rightarrow> http_request \<Rightarrow> answer handler" where
  "show_job cfg job_id req =
     andthen (developer_user cfg req) (\<lambda>user.
     followed (bindable job_id)
     (andthen (reading (\<lambda>s. get_job s job_id (Some (u_id user)))) (\<lambda>found.
      case found of
        None \<Rightarrow> refuse 404 ''job not found''
      | Some d \<Rightarrow> ret (answer_with 200 (Job_Shown (public_job d))))))"

definition withdraw_job :: "app_config \<Rightarrow> app_env \<Rightarrow> int \<Rightarrow> http_request \<Rightarrow> answer handler" where
  "withdraw_job cfg env job_id req =
     andthen (developer_user cfg req) (\<lambda>user.
     followed (bindable job_id)
     (andthen (changing (cancel_job (op_clock env 0) job_id (u_id user))) (\<lambda>found.
      case found of
        None \<Rightarrow> refuse 404 ''job not found''
      | Some d \<Rightarrow> ret (job_state_answer (j_id (jd_job d)) (jd_job d)))))"

section \<open>The application\<close>

definition health :: "app_env \<Rightarrow> answer handler" where
  "health env =
     (case e_quick_check env of
        Inl _ \<Rightarrow> refuse 503 ''service unavailable''
      | Inr check \<Rightarrow>
          if check \<noteq> ''ok'' then refuse 503 ''service unavailable''
          else ret (answer_with 200 (Status_Text ''ok'')))"

definition dispatch_route :: "app_config \<Rightarrow> app_env \<Rightarrow> http_request \<Rightarrow> answer handler" where
  "dispatch_route cfg env req =
     (case rq_route req of
        Login_Page \<Rightarrow> ret (answer_with 200 (Page ''login.html''))
      | Admin_Page \<Rightarrow> ret (answer_with 200 (Page ''admin.html''))
      | Health \<Rightarrow> health env
      | Developer_Login username password \<Rightarrow> developer_login cfg env username password req
      | Forward_Auth \<Rightarrow> forward_auth cfg env req
      | Logout \<Rightarrow> logout cfg env req
      | Admin_Login username password \<Rightarrow> admin_login cfg env username password req
      | List_Users \<Rightarrow> list_users cfg env req
      | Create_User username password \<Rightarrow> create_user cfg env username password req
      | Update_User pid username status password \<Rightarrow> update_user cfg env pid username status password req
      | Revoke_Sessions pid \<Rightarrow> revoke_sessions cfg env pid req
      | Rotate_Token pid \<Rightarrow> rotate_user_token cfg env pid req
      | List_Headers \<Rightarrow> show_headers cfg env req
      | Set_Header name enabled \<Rightarrow> update_header cfg env name enabled req
      | Extension_Catalog \<Rightarrow> extension_catalog_page cfg req
      | Request_Extension cid \<Rightarrow> ask_extension cfg env cid req
      | Admin_Extensions \<Rightarrow> admin_extensions cfg env req
      | Add_Extension eid version sha256 \<Rightarrow> add_extension cfg env eid version sha256 req
      | Extension_Requests \<Rightarrow> show_extension_requests cfg env req
      | Approve_Extension rid scope \<Rightarrow> approve_extension cfg env rid scope req
      | Create_Grant pid p \<Rightarrow> grant_quota cfg env pid p req
      | Admin_Jobs \<Rightarrow> show_jobs cfg env req
      | Admin_Cancel_Job i \<Rightarrow> admin_cancel cfg env i req
      | Audit_Log \<Rightarrow> show_audit cfg env req
      | Create_Job p \<Rightarrow> submit_job cfg env p req
      | Get_Job i \<Rightarrow> show_job cfg i req
      | Cancel_Job i \<Rightarrow> withdraw_job cfg env i req)"

definition security_headers :: "(string \<times> string) list" where
  "security_headers =
     [(''X-Content-Type-Options'', ''nosniff''), (''X-Frame-Options'', ''DENY''),
      (''Referrer-Policy'', ''no-referrer''),
      (''Permissions-Policy'', ''camera=(), microphone=(), geolocation=()''),
      (''Cache-Control'', ''no-store'')]"

text \<open>
  The middleware adds its headers to the answer of the route or of its refusal; an exception passes
  through it to the server's own error page.
\<close>

definition secured :: "answer \<Rightarrow> answer" where
  "secured a = a\<lparr>an_headers := an_headers a @ security_headers\<rparr>"

definition serve :: "app_config \<Rightarrow> app_env \<Rightarrow> http_request \<Rightarrow> plane \<Rightarrow> answer \<times> plane" where
  "serve cfg env req p =
     (case dispatch_route cfg env req p of
        (Inr a, p') \<Rightarrow> (secured a, p')
      | (Inl (Refused st problem headers), p') \<Rightarrow>
          (secured ((answer_with st (Problem problem))\<lparr>an_headers := headers\<rparr>), p')
      | (Inl (Crashed _), p') \<Rightarrow> (answer_with 500 (Problem Internal_Error), p'))"

end
