(* ===== verification/App_Laws.thy ===== *)
theory App_Laws
  imports App Account_Invariant
begin

text \<open>
  How the handlers of \<open>App\<close> compose: a relation between the states before and after that is reflexive
  and transitive is kept by a handler whose steps keep it (locale \<open>kept_relation\<close>, interpreted on the
  transitions of the queue, of the accounts and of the images); a handler that only reads; a handler
  that leaves no trace when it refuses; what the dependencies of a route accept.
\<close>

named_theorems web_reads \<comment> \<open>handlers that change nothing\<close>
named_theorems web_quiet \<comment> \<open>handlers that leave no trace when they refuse\<close>

section \<open>Elementary handlers\<close>

lemma on_db_cases:
  "on_db f p = (Inr x, p') \<longleftrightarrow> (\<exists>s. f (pl_db p) = Inr (x, s) \<and> p' = p\<lparr>pl_db := s\<rparr>)"
  "on_db f p = (Inl e, p') \<longleftrightarrow> (\<exists>d. f (pl_db p) = Inl d \<and> e = Crashed d \<and> p' = p)"
  by (auto simp: on_db_def split: sum.splits)

lemma reading_run [simp]: "reading f p = (Inr (f (pl_db p)), p)"
  by (simp add: reading_def on_db_def)

lemma changing_run [simp]: "changing f p = (Inr (fst (f (pl_db p))), p\<lparr>pl_db := snd (f (pl_db p))\<rparr>)"
  by (simp add: changing_def on_db_def split: prod.splits)

lemma storing_cases:
  "storing f p = (Inr u, p') \<longleftrightarrow> (\<exists>s. f (pl_db p) = Inr s \<and> p' = p\<lparr>pl_db := s\<rparr>)"
  "storing f p = (Inl e, p') \<longleftrightarrow> (\<exists>d. f (pl_db p) = Inl d \<and> e = Crashed d \<and> p' = p)"
  by (cases "f (pl_db p)"; auto simp: storing_def on_db_cases)+

lemma on_images_cases:
  "on_images f p = (Inr x, p') \<longleftrightarrow> (\<exists>fs. f (pl_images p) = (Inr x, fs) \<and> p' = p\<lparr>pl_images := fs\<rparr>)"
  "on_images f p = (Inl e, p') \<longleftrightarrow>
     (\<exists>d fs. f (pl_images p) = (Inl d, fs) \<and> e = Crashed d \<and> p' = p\<lparr>pl_images := fs\<rparr>)"
  by (auto simp: on_images_def split: sum.splits prod.splits)

lemma andthen_Inl:
  "andthen m f h = (Inl e, h'') \<longleftrightarrow>
     m h = (Inl e, h'') \<or> (\<exists>x h'. m h = (Inr x, h') \<and> f x h' = (Inl e, h''))"
  by (auto simp: andthen_def split: prod.splits sum.splits)

section \<open>Relations kept by a handler\<close>

definition keeps :: "('h \<Rightarrow> 'h \<Rightarrow> bool) \<Rightarrow> ('h, 'e, 'a) effect \<Rightarrow> bool" where
  "keeps R m \<longleftrightarrow> (\<forall>h. R h (snd (m h)))"

locale kept_relation =
  fixes R :: "plane \<Rightarrow> plane \<Rightarrow> bool"
  assumes refl: "R p p"
    and trans: "R p q \<Longrightarrow> R q r \<Longrightarrow> R p r"
begin

lemma keeps_pure: "keeps R (ret x)" "keeps R (raise e)" "keeps R (lift r)" "keeps R (reading f)"
  by (simp_all add: keeps_def refl)

lemma keeps_andthen:
  assumes "keeps R m" and "\<And>x. keeps R (f x)"
  shows "keeps R (andthen m f)"
  unfolding keeps_def
proof
  fix h
  obtain r h' where m: "m h = (r, h')" by fastforce
  with assms(1) have "R h h'" by (auto simp: keeps_def dest: spec [of _ h])
  moreover have "R h' (snd (f x h'))" for x using assms(2) by (simp add: keeps_def)
  ultimately show "R h (snd (andthen m f h))"
    using m trans by (cases r) (auto simp: andthen_def)
qed

lemma keeps_catching:
  assumes "keeps R m" and "\<And>e. keeps R (g e)"
  shows "keeps R (catching m g)"
  unfolding keeps_def
proof
  fix h
  obtain r h' where m: "m h = (r, h')" by fastforce
  with assms(1) have "R h h'" by (auto simp: keeps_def dest: spec [of _ h])
  moreover have "R h' (snd (g e h'))" for e using assms(2) by (simp add: keeps_def)
  ultimately show "R h (snd (catching m g h))"
    using m trans by (cases r) (auto simp: catching_def)
qed

lemma keeps_on_db:
  assumes "\<And>p x s. f (pl_db p) = Inr (x, s) \<Longrightarrow> R p (p\<lparr>pl_db := s\<rparr>)"
  shows "keeps R (on_db f)"
  using assms refl by (auto simp: keeps_def on_db_def split: sum.splits)

lemma keeps_storing:
  assumes "\<And>p s. f (pl_db p) = Inr s \<Longrightarrow> R p (p\<lparr>pl_db := s\<rparr>)"
  shows "keeps R (storing f)"
  unfolding storing_def by (rule keeps_on_db) (use assms in \<open>auto split: sum.splits simp: map_sum_def\<close>)

lemma keeps_changing:
  assumes "\<And>p. R p (p\<lparr>pl_db := snd (f (pl_db p))\<rparr>)"
  shows "keeps R (changing f)"
  using assms by (simp add: keeps_def)

lemma keeps_if: "keeps R m \<Longrightarrow> keeps R k \<Longrightarrow> keeps R (if b then m else k)"
  by simp

lemma keeps_option: "keeps R m \<Longrightarrow> (\<And>x. keeps R (f x)) \<Longrightarrow> keeps R (case v of None \<Rightarrow> m | Some x \<Rightarrow> f x)"
  by (cases v) auto

lemma keeps_prod: "(\<And>x y. keeps R (f x y)) \<Longrightarrow> keeps R (case v of (x, y) \<Rightarrow> f x y)"
  by (cases v) auto

lemma keeps_run: "keeps R m \<Longrightarrow> m p = (r, p') \<Longrightarrow> R p p'"
  by (metis keeps_def snd_conv)

end

section \<open>Handlers that only read\<close>

definition reads :: "('h, 'e, 'a) effect \<Rightarrow> bool" where
  "reads m \<longleftrightarrow> (\<forall>h. snd (m h) = h)"

lemma reads_run: "reads m \<Longrightarrow> m h = (r, h') \<Longrightarrow> h' = h"
  by (metis reads_def snd_conv)

interpretation unchanged: kept_relation "(=)"
  by unfold_locales auto

lemma reads_keeps: "reads m \<longleftrightarrow> keeps (=) m"
  by (auto simp: reads_def keeps_def)

lemmas reads_rules [web_reads] =
  unchanged.keeps_pure [folded reads_keeps]
  unchanged.keeps_andthen [folded reads_keeps]
  unchanged.keeps_if [folded reads_keeps]
  unchanged.keeps_option [folded reads_keeps]

lemma reads_dependencies [web_reads]:
  "reads (valid_body b)" "reads (bindable i)" "reads (the_row v)"
  "reads (current_session cfg env req)" "reads (admin_session cfg env req)"
  "reads (admin_user cfg env req)" "reads (csrf_admin cfg env req)"
  "reads (developer_from_public_id pid)" "reads (developer_user cfg req)"
  "reads (enforce_login_limit env scope name source)"
  unfolding valid_body_def bindable_def the_row_def current_session_def admin_session_def
    admin_user_def csrf_admin_def developer_from_public_id_def developer_user_def
    enforce_login_limit_def
  by (intro web_reads)+

lemma valid_body_simps [simp]:
  "valid_body True = ret ()"
  "valid_body False = raise (Refused 422 Invalid_Body [])"
  by (simp_all add: valid_body_def)

section \<open>Relations kept by the operations of the routes\<close>

text \<open>
  The database operations the routes are made of, all but the creation of a developer and the rotation
  of a token: a relation they keep is kept by every other route.
\<close>

locale route_relation = kept_relation R for R :: "plane \<Rightarrow> plane \<Rightarrow> bool" +
  fixes cfg :: app_config
  assumes update_op: "keeps R (on_db (update_developer (cf_hash_password cfg) uid uname st upw))"
    and session_op: "keeps R (storing (create_session (cf_token_hash cfg) clk uid tok csrf))"
    and logout_op: "keeps R (changing (revoke_session_token (cf_token_hash cfg) tok))"
    and revoke_op: "keeps R (changing (revoke_user_sessions uid))"
    and failure_op: "keeps R (storing (\<lambda>s. Inr (record_login_failure now scope name source s)))"
    and clear_op: "keeps R (storing (\<lambda>s. Inr (clear_login_failures scope name source s)))"
    and header_op: "keeps R (changing (set_header now h e))"
    and extension_op: "keeps R (on_db (create_extension now eid version sha))"
    and request_op: "keeps R (on_db (request_extension now uid cid))"
    and decide_op: "keeps R (on_db (decide_extension_request now rid actor scope))"
    and audit_op: "keeps R (storing (audit now whom action tt ti details))"
    and grant_op: "grant_bounds gp \<Longrightarrow> keeps R (on_db (create_grant clk uid actor gp))"
    and submit_op: "job_bounds jp \<Longrightarrow> keeps R (on_db (create_job clk uid jp))"
    and cancel_op: "keeps R (changing (cancel_job now i uid))"
    and admin_cancel_op: "keeps R (changing (cancel_job_admin now i))"
begin

lemma keeps_reads: "reads m \<Longrightarrow> keeps R m"
  by (simp add: reads_def keeps_def refl)

lemma keeps_validated: "(b \<Longrightarrow> keeps R m) \<Longrightarrow> keeps R (followed (valid_body b) m)"
  by (cases b) (simp_all add: keeps_pure)

lemma keeps_Let: "(\<And>x. keeps R (f x)) \<Longrightarrow> keeps R (Let v f)"
  by simp

lemma keeps_clauses:
  "keeps R (username_conflict e)" "keeps R (unknown_extension e)" "keeps R (submission_refusal e)"
  by (auto simp: username_conflict_def unknown_extension_def submission_refusal_def keeps_pure
      split: refusal.splits py_error.splits)

lemma keeps_audited: "keeps R (audited env who act tt ti details)"
  unfolding audited_def by (rule audit_op)

lemmas keeps_dependencies =
  keeps_reads [OF reads_dependencies(1)] keeps_reads [OF reads_dependencies(2)]
  keeps_reads [OF reads_dependencies(3)] keeps_reads [OF reads_dependencies(4)]
  keeps_reads [OF reads_dependencies(5)] keeps_reads [OF reads_dependencies(6)]
  keeps_reads [OF reads_dependencies(7)] keeps_reads [OF reads_dependencies(8)]
  keeps_reads [OF reads_dependencies(9)] keeps_reads [OF reads_dependencies(10)]

lemmas keeps_intros =
  keeps_pure keeps_dependencies keeps_clauses keeps_audited
  update_op session_op logout_op revoke_op failure_op clear_op header_op extension_op request_op
  decide_op audit_op grant_op submit_op cancel_op admin_cancel_op
  keeps_validated keeps_andthen keeps_catching keeps_if keeps_option keeps_prod keeps_Let

lemma session_routes:
  "keeps R (developer_login cfg env username password req)"
  "keeps R (admin_login cfg env username password req)"
  "keeps R (forward_auth cfg env req)"
  "keeps R (logout cfg env req)"
  "keeps R (health env)"
  unfolding developer_login_def admin_login_def forward_auth_def logout_def authenticate_def
    issue_session_def health_def
  by (intro keeps_intros | simp add: keeps_intros split: sum.split)+

lemma user_routes:
  "keeps R (list_users cfg env req)"
  "keeps R (revoke_sessions cfg env pid req)"
  "keeps R (update_user cfg env pid uname st upw req)"
  unfolding list_users_def revoke_sessions_def update_user_def
  by (intro keeps_intros)+

lemma extension_routes:
  "keeps R (show_headers cfg env req)"
  "keeps R (update_header cfg env name en req)"
  "keeps R (extension_catalog_page cfg req)"
  "keeps R (admin_extensions cfg env req)"
  "keeps R (add_extension cfg env eid version sha req)"
  "keeps R (show_extension_requests cfg env req)"
  "keeps R (approve_extension cfg env rid scope req)"
  "keeps R (ask_extension cfg env cid req)"
  unfolding show_headers_def update_header_def extension_catalog_page_def admin_extensions_def
    add_extension_def show_extension_requests_def approve_extension_def ask_extension_def
  by (intro keeps_intros)+

lemma job_routes:
  "keeps R (grant_quota cfg env pid gp req)"
  "keeps R (show_jobs cfg env req)"
  "keeps R (admin_cancel cfg env i req)"
  "keeps R (show_audit cfg env req)"
  "keeps R (show_job cfg i req)"
  "keeps R (withdraw_job cfg env i req)"
  unfolding grant_quota_def show_jobs_def admin_cancel_def show_audit_def show_job_def withdraw_job_def
  by (intro keeps_intros | assumption)+

lemma submit_route: "keeps R (submit_job cfg env jp req)"
proof -
  have "job_create_ok jp \<Longrightarrow> job_bounds jp" by (simp add: job_create_ok_def)
  then show ?thesis unfolding submit_job_def by (intro keeps_intros)
qed

lemma dispatch_kept:
  assumes "\<And>username password. rq_route req = Create_User username password \<Longrightarrow>
      keeps R (create_user cfg env username password req)"
    and "\<And>pid. rq_route req = Rotate_Token pid \<Longrightarrow> keeps R (rotate_user_token cfg env pid req)"
  shows "keeps R (dispatch_route cfg env req)"
  unfolding dispatch_route_def
  by (cases "rq_route req")
    (simp_all add: session_routes user_routes extension_routes job_routes submit_route keeps_pure assms)

end

end
