(* ===== verification/App_Steps.thy ===== *)
theory App_Steps
  imports App_Laws
begin

text \<open>
  Every request is a sequence of transitions of the two state machines the database is made of: the
  account operations (\<open>account_step\<close>) and the job queue (\<open>queue_step\<close>). Each operation moves one of
  them and is an \<open>other\<close> step of the second.
\<close>

section \<open>What an operation leaves alone\<close>

definition same_queue :: "db \<Rightarrow> db \<Rightarrow> bool" where
  "same_queue s s' \<longleftrightarrow> jobs s' = jobs s \<and> job_cases s' = job_cases s \<and> quota_grants s' = quota_grants s"

definition same_accounts :: "db \<Rightarrow> db \<Rightarrow> bool" where
  "same_accounts s s' \<longleftrightarrow> users s' = users s \<and> sessions s' = sessions s
     \<and> login_failures s' = login_failures s \<and> header_policy s' = header_policy s"

lemmas same_defs = same_queue_def same_accounts_def

lemma same_queue_step: "same_queue s s' \<Longrightarrow> queue_step s s'"
  by (auto simp: same_queue_def intro: queue_step.other)

lemma same_accounts_step: "same_accounts s s' \<Longrightarrow> account_step hp th s s'"
  by (auto simp: same_accounts_def intro: account_step.other)

lemma update_user_row_queue: "update_user_row uid f s = Inr s' \<Longrightarrow> same_queue s s'"
  by (auto simp: same_queue_def dest: update_user_row_Inr)

lemma update_optional_queue: "update_optional uid f v s = Inr s' \<Longrightarrow> same_queue s s'"
  by (auto simp: update_optional_Inr dest: update_user_row_queue) (simp add: same_queue_def)

lemma account_ops_queue:
  "create_developer hp th fresh now name pw tok path pid s = Inr (u, s') \<Longrightarrow> same_queue s s'"
  "update_developer hp uid uname st upw s = Inr (u, s') \<Longrightarrow> same_queue s s'"
  "rotate_developer_token th uid tok s = Inr (u, s') \<Longrightarrow> same_queue s s'"
  "create_session th clk uid tok csrf s = Inr s' \<Longrightarrow> same_queue s s'"
proof -
  assume "create_developer hp th fresh now name pw tok path pid s = Inr (u, s')"
  then show "same_queue s s'"
    by (rule create_developer_Inr) (auto simp: insert_user_Inr same_queue_def)
next
  assume upd: "update_developer hp uid uname st upw s = Inr (u, s')"
  show "same_queue s s'"
  proof (cases "is_developer s uid")
    case True
    from upd this show ?thesis
      by (rule update_developer_Inr)
        (auto dest!: update_optional_queue simp: same_queue_def delete_user_sessions_def)
  qed (use upd in \<open>auto simp: update_developer_def same_queue_def\<close>)
next
  assume "rotate_developer_token th uid tok s = Inr (u, s')"
  then show "same_queue s s'"
    by (auto simp: rotate_developer_token_def dest: update_user_row_queue split: if_splits)
      (simp add: same_queue_def)
next
  assume "create_session th clk uid tok csrf s = Inr s'"
  then show "same_queue s s'" by (auto simp: create_session_def same_queue_def split: if_splits)
qed

lemma account_updates_queue:
  "same_queue s (snd (revoke_session_token th tok s))"
  "same_queue s (snd (revoke_user_sessions uid s))"
  "same_queue s (record_login_failure now scope name source s)"
  "same_queue s (clear_login_failures scope name source s)"
  "same_queue s (snd (set_header now h e s))"
  by (simp_all add: same_queue_def revoke_session_token_def revoke_user_sessions_def Let_def
      delete_user_sessions_def record_login_failure_def clear_login_failures_def set_header_def)

lemma extension_ops_same:
  "create_extension now eid version sha s = Inr (x, s') \<Longrightarrow> same_queue s s' \<and> same_accounts s s'"
  "request_extension now uid cid s = Inr (r, s') \<Longrightarrow> same_queue s s' \<and> same_accounts s s'"
  "decide_extension_request now rid actor scope s = Inr (v, s') \<Longrightarrow> same_queue s s' \<and> same_accounts s s'"
  "audit now who action tt ti details s = Inr s' \<Longrightarrow> same_queue s s' \<and> same_accounts s s'"
  by (auto simp: create_extension_def request_extension_def decide_extension_request_def audit_def
      Let_def same_defs insert_row_def split: if_splits list.splits prod.splits)

lemma job_ops_accounts:
  "create_job clk uid p s = Inr (d, s') \<Longrightarrow> same_accounts s s'"
  "create_grant clk uid actor gp s = Inr (g, s') \<Longrightarrow> same_accounts s s'"
  "same_accounts s (snd (cancel_job now i uid s))"
  "same_accounts s (snd (cancel_job_admin now i s))"
  by (auto simp: create_job_def submission_insert_def insert_job_def create_grant_def cancel_job_def
      cancel_job_admin_def request_cancel_def Let_def same_accounts_def
      split: if_splits option.splits prod.splits)

section \<open>The transitions a request takes\<close>

definition db_steps :: "app_config \<Rightarrow> plane \<Rightarrow> plane \<Rightarrow> bool" where
  "db_steps cfg p p' \<longleftrightarrow>
     (account_step (cf_hash_password cfg) (cf_token_hash cfg))\<^sup>*\<^sup>* (pl_db p) (pl_db p')
     \<and> queue_step\<^sup>*\<^sup>* (pl_db p) (pl_db p')"

interpretation steps: kept_relation "db_steps cfg" for cfg
  by unfold_locales (auto simp: db_steps_def)

lemma db_steps_account:
  "account_step (cf_hash_password cfg) (cf_token_hash cfg) (pl_db p) s \<Longrightarrow> same_queue (pl_db p) s
    \<Longrightarrow> db_steps cfg p (p\<lparr>pl_db := s\<rparr>)"
  by (simp add: db_steps_def r_into_rtranclp same_queue_step)

lemma db_steps_queue:
  "queue_step (pl_db p) s \<Longrightarrow> same_accounts (pl_db p) s \<Longrightarrow> db_steps cfg p (p\<lparr>pl_db := s\<rparr>)"
  by (simp add: db_steps_def r_into_rtranclp same_accounts_step)

lemma db_steps_same:
  "same_queue (pl_db p) s \<and> same_accounts (pl_db p) s \<Longrightarrow> db_steps cfg p (p\<lparr>pl_db := s\<rparr>)"
  by (simp add: db_steps_queue same_queue_step)

lemma db_steps_images: "keeps (db_steps cfg) (on_images f)"
  by (auto simp: keeps_def on_images_def db_steps_def split: prod.splits sum.splits)

lemma steps_account_ops:
  "keeps (db_steps cfg) (on_db (create_developer (cf_hash_password cfg) (cf_token_hash cfg) fresh now name pw tok path pid))"
  "keeps (db_steps cfg) (on_db (update_developer (cf_hash_password cfg) uid uname st upw))"
  "keeps (db_steps cfg) (on_db (rotate_developer_token (cf_token_hash cfg) uid tok))"
  "keeps (db_steps cfg) (storing (create_session (cf_token_hash cfg) clk uid tok csrf))"
  "keeps (db_steps cfg) (changing (revoke_session_token (cf_token_hash cfg) tok))"
  "keeps (db_steps cfg) (changing (revoke_user_sessions uid))"
  "keeps (db_steps cfg) (storing (\<lambda>s. Inr (record_login_failure now scope name source s)))"
  "keeps (db_steps cfg) (storing (\<lambda>s. Inr (clear_login_failures scope name source s)))"
  "keeps (db_steps cfg) (changing (set_header now h e))"
  by (intro steps.keeps_on_db steps.keeps_storing steps.keeps_changing db_steps_account;
      auto intro: account_step.intros account_ops_queue account_updates_queue)+

lemma steps_other_ops:
  "keeps (db_steps cfg) (on_db (create_extension now eid version sha))"
  "keeps (db_steps cfg) (on_db (request_extension now uid cid))"
  "keeps (db_steps cfg) (on_db (decide_extension_request now rid actor scope))"
  "keeps (db_steps cfg) (storing (audit now whom action1 tt1 ti1 details1))"
  by (intro steps.keeps_on_db steps.keeps_storing db_steps_same; auto dest: extension_ops_same)+

lemma steps_job_ops:
  "grant_bounds gp \<Longrightarrow> keeps (db_steps cfg) (on_db (create_grant clk uid actor gp))"
  "job_bounds jp \<Longrightarrow> keeps (db_steps cfg) (on_db (create_job clk uid jp))"
  "keeps (db_steps cfg) (changing (cancel_job now i uid))"
  "keeps (db_steps cfg) (changing (cancel_job_admin now i))"
  by (intro steps.keeps_on_db steps.keeps_changing db_steps_queue;
      auto intro: queue_step.intros job_ops_accounts surjective_pairing)+

interpretation step_routes: route_relation "db_steps cfg" cfg for cfg
  by unfold_locales (simp_all add: steps_account_ops steps_other_ops steps_job_ops)

lemma dispatch_steps: "keeps (db_steps cfg) (dispatch_route cfg env req)"
proof (rule step_routes.dispatch_kept)
  note rules = steps_account_ops db_steps_images step_routes.keeps_intros
  show "keeps (db_steps cfg) (create_user cfg env username password req)" for username password
    unfolding create_user_def register_developer_def by (intro rules)
  show "keeps (db_steps cfg) (rotate_user_token cfg env pid req)" for pid
    unfolding rotate_user_token_def by (intro rules)
qed

lemma serve_state: "snd (serve cfg env req p) = snd (dispatch_route cfg env req p)"
  by (simp add: serve_def split: prod.split sum.split refusal.split)

lemma serve_steps: "db_steps cfg p (snd (serve cfg env req p))"
  using dispatch_steps by (simp add: serve_state keeps_def)

end
