(* ===== verification/App_Access.thy ===== *)
theory App_Access
  imports App_Steps Account_Properties
begin

text \<open>
  Who may change what through the HTTP control plane: the authority a request must carry, the requests
  that only read, and that a refused request leaves no trace.
\<close>

section \<open>Authority\<close>

text \<open>The cookie names a live session of an active user satisfying \<open>Q\<close>; \<open>Q\<close> also sees the CSRF token.\<close>

definition session_authority ::
    "(user_row \<Rightarrow> string \<Rightarrow> bool) \<Rightarrow> app_config \<Rightarrow> app_env \<Rightarrow> http_request \<Rightarrow> db \<Rightarrow> bool" where
  "session_authority Q cfg env req s \<longleftrightarrow>
     (case rq_cookie req of
        None \<Rightarrow> False
      | Some token \<Rightarrow>
          \<exists>x \<in> set (t_rows (sessions s)). \<exists>u \<in> set (t_rows (users s)).
            s_token_hash x = cf_token_hash cfg token \<and> s_expires_at x > e_clock env 0
            \<and> s_user_id x = u_id u \<and> u_status u = Active \<and> Q u (s_csrf_token x))"

definition admin_authority :: "app_config \<Rightarrow> app_env \<Rightarrow> http_request \<Rightarrow> db \<Rightarrow> bool" where
  "admin_authority cfg env req =
     session_authority (\<lambda>u csrf. u_role u = Admin \<and> csrf \<noteq> [] \<and> rq_csrf req = Some csrf) cfg env req"

definition developer_authority :: "app_config \<Rightarrow> http_request \<Rightarrow> db \<Rightarrow> bool" where
  "developer_authority cfg req s \<longleftrightarrow>
     (case rq_authorization req of
        None \<Rightarrow> False
      | Some a \<Rightarrow>
          starts_with a ''Bearer ''
          \<and> (\<exists>u \<in> set (t_rows (users s)). u_role u = Developer \<and> u_status u = Active
               \<and> u_api_token_hash u = Some (cf_token_hash cfg (strip (drop 7 a)))))"

lemma get_session_user_Some:
  assumes "get_session_user th now token s = Some (u, csrf)"
  shows "\<exists>x \<in> set (t_rows (sessions s)). u \<in> set (t_rows (users s)) \<and> s_token_hash x = th token
    \<and> s_expires_at x > now \<and> s_user_id x = u_id u \<and> u_status u = Active \<and> csrf = s_csrf_token x"
proof -
  from assms obtain x where "fetchone (filter
      (\<lambda>(x, u). s_token_hash x = th token \<and> s_expires_at x > now \<and> u_status u = Active)
      (session_join s)) = Some (x, u)" and "csrf = s_csrf_token x"
    by (auto simp: get_session_user_def)
  then show ?thesis by (auto dest!: fetchone_in simp: in_session_join intro!: bexI [of _ x])
qed

lemma current_session_Inr:
  assumes "current_session cfg env req p = (Inr (u, csrf), p')"
  shows "\<exists>token. rq_cookie req = Some token \<and> token \<noteq> []
    \<and> get_session_user (cf_token_hash cfg) (e_clock env 0) token (pl_db p) = Some (u, csrf)"
  using assms by (auto simp: current_session_def split: option.splits if_splits)

lemma session_authorityI:
  assumes "current_session cfg env req p = (Inr (u, csrf), p')" and "Q u csrf"
  shows "session_authority Q cfg env req (pl_db p)"
proof -
  from current_session_Inr [OF assms(1)] obtain token where "rq_cookie req = Some token"
    and "get_session_user (cf_token_hash cfg) (e_clock env 0) token (pl_db p) = Some (u, csrf)" by blast
  with get_session_user_Some [of _ _ token _ u csrf] assms(2) show ?thesis
    unfolding session_authority_def by fastforce
qed

lemma admin_session_Inr:
  "admin_session cfg env req p = (Inr (u, csrf), p') \<Longrightarrow>
     current_session cfg env req p = (Inr (u, csrf), p') \<and> u_role u = Admin"
  by (auto simp: admin_session_def split: if_splits)

lemma csrf_admin_Inr:
  assumes "csrf_admin cfg env req p = (Inr u, p')"
  shows "admin_authority cfg env req (pl_db p)" and "p' = p" and "u_role u = Admin"
    and "u \<in> set (t_rows (users (pl_db p)))"
proof -
  from assms obtain csrf where run: "current_session cfg env req p = (Inr (u, csrf), p')"
    and admin: "u_role u = Admin" and "rq_csrf req = Some csrf" "csrf \<noteq> []"
    by (auto simp: csrf_admin_def split: option.splits if_splits dest: admin_session_Inr)
  then show "admin_authority cfg env req (pl_db p)"
    unfolding admin_authority_def by (intro session_authorityI) auto
  show "p' = p" by (rule reads_run [OF reads_dependencies(4) run])
  show "u_role u = Admin" by (rule admin)
  show "u \<in> set (t_rows (users (pl_db p)))"
    using current_session_Inr [OF run] get_session_user_Some by blast
qed

lemma developer_user_Inr:
  assumes "developer_user cfg req p = (Inr u, p')"
  shows "developer_authority cfg req (pl_db p)" and "p' = p" and "u_role u = Developer"
    and "\<exists>a. rq_authorization req = Some a \<and> starts_with a ''Bearer ''
      \<and> get_user_by_api_token (cf_token_hash cfg) (pl_db p) (strip (drop 7 a)) = Some u"
proof -
  show who: "\<exists>a. rq_authorization req = Some a \<and> starts_with a ''Bearer ''
      \<and> get_user_by_api_token (cf_token_hash cfg) (pl_db p) (strip (drop 7 a)) = Some u"
    using assms by (auto simp: developer_user_def split: option.splits if_splits)
  show role: "u_role u = Developer"
    using assms by (auto simp: developer_user_def split: option.splits if_splits)
  from who role show "developer_authority cfg req (pl_db p)"
    by (auto simp: developer_authority_def get_user_by_api_token_def select_where_def dest!: fetchone_in)
  show "p' = p" by (rule reads_run [OF reads_dependencies(9) assms])
qed

section \<open>Requests that change something carry authority\<close>

lemma guarded_change:
  assumes "snd (andthen m f p) \<noteq> p" and "reads m"
  obtains x where "m p = (Inr x, p)"
proof -
  obtain r p' where run: "m p = (r, p')" by fastforce
  with assms(2) have "p' = p" by (rule reads_run)
  with run assms(1) that show ?thesis by (cases r) (auto simp: andthen_def)
qed

lemma admin_change:
  assumes "snd (andthen (csrf_admin cfg env req) k p) \<noteq> p"
  shows "admin_authority cfg env req (pl_db p)"
  using guarded_change [OF assms reads_dependencies(7)] csrf_admin_Inr(1) by metis

lemma developer_change:
  assumes "snd (andthen (developer_user cfg req) k p) \<noteq> p"
  shows "developer_authority cfg req (pl_db p)"
  using guarded_change [OF assms reads_dependencies(9)] developer_user_Inr(1) by metis

lemma session_change:
  assumes "snd (andthen (current_session cfg env req) k p) \<noteq> p"
  shows "session_authority (\<lambda>_ _. True) cfg env req (pl_db p)"
  using guarded_change [OF assms reads_dependencies(4)] session_authorityI by (metis surj_pair)

text \<open>The routes of the GET methods.\<close>

definition reading_route :: "route \<Rightarrow> bool" where
  "reading_route r \<longleftrightarrow>
     (case r of
        Login_Page \<Rightarrow> True | Admin_Page \<Rightarrow> True | Health \<Rightarrow> True | Forward_Auth \<Rightarrow> True | List_Users \<Rightarrow> True
      | List_Headers \<Rightarrow> True | Extension_Catalog \<Rightarrow> True | Admin_Extensions \<Rightarrow> True
      | Extension_Requests \<Rightarrow> True | Admin_Jobs \<Rightarrow> True | Audit_Log \<Rightarrow> True | Get_Job _ \<Rightarrow> True | _ \<Rightarrow> False)"

definition login_route :: "route \<Rightarrow> bool" where
  "login_route r \<longleftrightarrow> (case r of Developer_Login _ _ \<Rightarrow> True | Admin_Login _ _ \<Rightarrow> True | _ \<Rightarrow> False)"

definition developer_route :: "route \<Rightarrow> bool" where
  "developer_route r \<longleftrightarrow>
     (case r of Extension_Catalog \<Rightarrow> True | Request_Extension _ \<Rightarrow> True | Create_Job _ \<Rightarrow> True
      | Get_Job _ \<Rightarrow> True | Cancel_Job _ \<Rightarrow> True | _ \<Rightarrow> False)"

lemma reads_Let: "(\<And>x. reads (f x)) \<Longrightarrow> reads (Let v f)"
  by simp

lemma reads_routes:
  "reads (health env)" "reads (forward_auth cfg env req)" "reads (list_users cfg env req)"
  "reads (show_headers cfg env req)" "reads (extension_catalog_page cfg req)"
  "reads (admin_extensions cfg env req)" "reads (show_extension_requests cfg env req)"
  "reads (show_jobs cfg env req)" "reads (show_audit cfg env req)" "reads (show_job cfg i req)"
  unfolding health_def forward_auth_def list_users_def show_headers_def extension_catalog_page_def
    admin_extensions_def show_extension_requests_def show_jobs_def show_audit_def show_job_def
  by (intro web_reads reads_Let | simp add: web_reads split: sum.split)+

lemma reading_route_reads:
  "reading_route (rq_route req) \<Longrightarrow> reads (dispatch_route cfg env req)"
  by (auto simp: reading_route_def dispatch_route_def reads_routes web_reads split: route.splits)

text \<open>C3: A request that changes the database or the workspace images is a login, or carries the
  authority of its route: an administrator route an unexpired session of an active administrator
  together with its CSRF token, a developer route the API token of an active developer, a logout a live
  session. In particular no GET request changes anything.\<close>

theorem changes_need_authority:
  assumes "snd (serve cfg env req p) \<noteq> p"
  shows "\<not> reading_route (rq_route req)
    \<and> (login_route (rq_route req)
       \<or> rq_route req = Logout \<and> session_authority (\<lambda>_ _. True) cfg env req (pl_db p)
       \<or> developer_route (rq_route req) \<and> developer_authority cfg req (pl_db p)
       \<or> \<not> developer_route (rq_route req) \<and> admin_authority cfg env req (pl_db p))"
proof -
  have change: "snd (dispatch_route cfg env req p) \<noteq> p" using assms by (simp add: serve_state)
  then have writing: "\<not> reading_route (rq_route req)"
    using reading_route_reads by (auto simp: reads_def)
  with change show ?thesis
    unfolding dispatch_route_def create_user_def update_user_def revoke_sessions_def
      rotate_user_token_def update_header_def add_extension_def approve_extension_def grant_quota_def
      admin_cancel_def submit_job_def withdraw_job_def ask_extension_def logout_def
    by (cases "rq_route req")
      (auto simp: reading_route_def login_route_def developer_route_def
        dest: admin_change developer_change session_change)
qed

section \<open>A sample control plane\<close>

definition sample_config :: app_config where
  "sample_config =
     \<lparr>cf_workspace_root = ''/w'', cf_secure_cookies = True, cf_workspace_size_mib = 64,
      cf_managed_mode = False, cf_hash_password = (\<lambda>x. x), cf_verify_password = (=),
      cf_token_hash = (\<lambda>x. x)\<rparr>"

definition sample_images :: image_world where
  "sample_images = \<lparr>iw_staging = ''/w/t'', iw_resize = (\<lambda>_. Inr ()), iw_tools = (\<lambda>_. Inr ())\<rparr>"

definition one_uuid_text :: string where
  "one_uuid_text = ''11111111-1111-1111-1111-111111111111''"

definition sample_env :: "stamp \<Rightarrow> app_env" where
  "sample_env t =
     \<lparr>e_clock = (\<lambda>_. t), e_session_token = ''st'', e_csrf_token = ''ct'', e_api_token = ''at'',
      e_uuid = one_uuid_text, e_images = sample_images, e_quick_check = Inr ''ok''\<rparr>"

text \<open>\<open>accounts_db\<close> with a session of its administrator.\<close>

definition control_db :: db where
  "control_db = accounts_db\<lparr>sessions := \<lparr>t_rows = [\<lparr>s_id = 1, s_user_id = 1, s_token_hash = ''k'',
     s_csrf_token = ''c'', s_expires_at = 100, s_created_at = 0\<rparr>], t_seq = 1\<rparr>\<rparr>"

definition control_plane :: plane where
  "control_plane = \<lparr>pl_db = control_db, pl_images = Map.empty\<rparr>"

definition admin_request :: "route \<Rightarrow> http_request" where
  "admin_request r =
     \<lparr>rq_route = r, rq_cookie = Some ''k'', rq_csrf = Some ''c'', rq_authorization = None,
      rq_forwarded_uri = None, rq_client = Some ''::1''\<rparr>"

definition developer_request :: "route \<Rightarrow> http_request" where
  "developer_request r =
     \<lparr>rq_route = r, rq_cookie = None, rq_csrf = None, rq_authorization = Some ''Bearer t'',
      rq_forwarded_uri = None, rq_client = Some ''::1''\<rparr>"

lemma control_inv: "accounts_inv control_db"
  using zero_uuid_canonical
  by (simp add: accounts_inv_def users_inv_def sessions_inv_def control_db_def accounts_db_def
      dev_user_def root_user_def empty_db_def keys_ok_def clash_free_def zero_uuid_def)

lemma control_reachable: "reachable control_db"
  by (rule reachable.start) (simp_all add: control_db_def accounts_db_def empty_db_def)

text \<open>Definitions to evaluate a request on the sample.\<close>

lemmas sample_simps =
  sample_config_def sample_images_def sample_env_def control_db_def accounts_db_def
  control_plane_def admin_request_def developer_request_def root_user_def dev_user_def empty_db_def
  empty_table_def

lemmas serve_simps =
  serve_def dispatch_route_def secured_def answer_with_def andthen_def catching_def on_db_def storing_def
  csrf_admin_def admin_session_def admin_user_def current_session_def developer_user_def
  developer_from_public_id_def get_session_user_def session_join_def select_where_def
  get_user_by_api_token_def get_user_by_public_id_def get_user_by_username_def get_user_def
  op_clock_def audit_clock_def audited_def audit_def insert_row_def the_row_def bindable_def

lemma header_change:
  "snd (serve sample_config (sample_env 5) (admin_request (Set_Header ''map'' True)) control_plane)
     \<noteq> control_plane"
proof -
  have "length (t_rows (audit_log (pl_db (snd (serve sample_config (sample_env 5)
      (admin_request (Set_Header ''map'' True)) control_plane))))) = 1"
    by (simp add: serve_simps sample_simps update_header_def header_name_ok_def set_header_def)
  moreover have "length (t_rows (audit_log (pl_db control_plane))) = 0"
    by (simp add: sample_simps)
  ultimately show ?thesis by force
qed

theorem changes_need_authority_witness:
  "admin_authority sample_config (sample_env 5) (admin_request (Set_Header ''map'' True)) control_db"
  using changes_need_authority [OF header_change]
  by (simp add: admin_request_def login_route_def developer_route_def control_plane_def)

section \<open>Refusals leave no trace\<close>

text \<open>A refusal other than a crash, and only that: no answer of a handler has an error status.\<close>

definition quiet :: "'a handler \<Rightarrow> bool" where
  "quiet m \<longleftrightarrow> (\<forall>p st b hs p'. m p = (Inl (Refused st b hs), p') \<longrightarrow> p' = p)"

definition firm :: "'a handler \<Rightarrow> bool" where
  "firm m \<longleftrightarrow> (\<forall>p st b hs p'. m p \<noteq> (Inl (Refused st b hs), p'))"

lemma quiet_rules [web_quiet]:
  "reads m \<Longrightarrow> quiet m"
  "firm m \<Longrightarrow> quiet m"
  "reads m \<Longrightarrow> (\<And>x. quiet (f x)) \<Longrightarrow> quiet (andthen m f)"
  "quiet m \<Longrightarrow> (\<And>x. firm (f x)) \<Longrightarrow> quiet (andthen m f)"
  "quiet m \<Longrightarrow> quiet k \<Longrightarrow> quiet (if b then m else k)"
  by (auto simp: quiet_def firm_def andthen_Inl dest: reads_run)

lemma firm_rules [web_quiet]:
  "firm (ret x)" "firm (raise (Crashed e))" "firm (on_db f)" "firm (reading g)" "firm (changing h)"
  "firm (storing k)" "firm (audited env who action tt ti details)" "firm (the_row v)"
  "firm (on_images i)" "firm (bindable n)"
  "firm m1 \<Longrightarrow> (\<And>x. firm (f1 x)) \<Longrightarrow> firm (andthen m1 f1)"
  "firm m2 \<Longrightarrow> firm m3 \<Longrightarrow> firm (if b then m2 else m3)"
  by (auto simp: firm_def on_db_cases storing_cases on_images_cases audited_def the_row_def
      bindable_def andthen_Inl split: option.splits)

text \<open>\<open>if not row: raise HTTPException(404)\<close> after an operation that found nothing to do.\<close>

lemma quiet_lookup:
  assumes "\<And>p p'. m p = (Inr None, p') \<Longrightarrow> p' = p" and "quiet m" and "\<And>x. firm (f x)"
  shows "quiet (andthen m (\<lambda>v. case v of None \<Rightarrow> refuse st msg | Some x \<Rightarrow> f x))"
  using assms by (auto simp: quiet_def firm_def andthen_Inl split: option.splits)

lemma quiet_clauses:
  "quiet (catching (on_db f) username_conflict)"
  "quiet (catching (on_db f) unknown_extension)"
  "quiet (catching (on_db f) submission_refusal)"
  by (auto simp: quiet_def catching_def on_db_cases username_conflict_def unknown_extension_def
      submission_refusal_def on_db_def split: sum.splits prod.splits refusal.splits py_error.splits if_splits)

section \<open>Operations that find nothing to do\<close>

definition no_trace :: "(db \<Rightarrow> ('a option \<times> db) result) \<Rightarrow> bool" where
  "no_trace f \<longleftrightarrow> (\<forall>s s'. f s = Inr (None, s') \<longrightarrow> s' = s)"

lemma get_user_None: "get_user s i = None \<longleftrightarrow> i \<notin> u_id ` set (t_rows (users s))"
  by (auto simp: get_user_def select_where_def filter_empty_conv)

lemma update_user_row_present:
  assumes "update_user_row uid f s = Inr s'" and "\<And>u. u_id (f u) = u_id u"
  shows "get_user s' i = None \<longleftrightarrow> get_user s i = None"
  using update_user_row_Inr [OF assms(1)] key_image_update [of u_id f] assms(2)
  by (simp add: get_user_None)

lemma update_optional_present:
  assumes "update_optional uid f v s = Inr s'" and "\<And>x u. u_id (f x u) = u_id u"
  shows "get_user s' i = None \<longleftrightarrow> get_user s i = None"
  using assms update_user_row_present by (fastforce simp: update_optional_Inr)

lemma get_user_revoke [simp]: "get_user (delete_user_sessions i s) j = get_user s j"
  by (simp add: get_user_def delete_user_sessions_def)

lemma is_developer_present: "is_developer s uid \<Longrightarrow> get_user s uid \<noteq> None"
  by (auto simp: is_developer_def get_user_None select_where_def filter_empty_conv)

lemma no_trace_update: "no_trace (update_developer hp uid uname st upw)"
  unfolding no_trace_def
proof (intro allI impI)
  fix s s' assume run: "update_developer hp uid uname st upw s = Inr (None, s')"
  show "s' = s"
  proof (cases "is_developer s uid")
    case True
    from run this have "get_user s' uid \<noteq> None"
      by (rule update_developer_Inr)
        (use is_developer_present [OF True] in
          \<open>auto dest!: update_optional_present [where i = uid] split: if_splits\<close>)
    moreover from run True have "None = get_user s' uid" by (rule update_developer_Inr)
    ultimately show ?thesis by simp
  qed (use run in \<open>simp add: update_developer_def\<close>)
qed

lemma no_trace_rotate: "no_trace (rotate_developer_token th uid tok)"
  unfolding no_trace_def
  by (auto simp: rotate_developer_token_def dest: is_developer_present update_user_row_present [where i = uid]
      split: if_splits)

lemma no_trace_revoke: "no_trace (\<lambda>s. Inr (revoke_user_sessions uid s))"
  by (auto simp: no_trace_def revoke_user_sessions_def split: if_splits)

lemma no_trace_decide: "no_trace (decide_extension_request now rid actor scope)"
  by (auto simp: no_trace_def decide_extension_request_def Let_def split: list.splits if_splits)

lemma get_job_None:
  "get_job s i v = None \<longleftrightarrow>
     (\<forall>j \<in> set (t_rows (jobs s)). j_id j = i \<longrightarrow> (case v of None \<Rightarrow> False | Some u \<Rightarrow> j_user_id j \<noteq> u))"
proof -
  let ?found = "fetchone (select_where
      (\<lambda>j. j_id j = i \<and> (case v of None \<Rightarrow> True | Some u \<Rightarrow> j_user_id j = u)) (jobs s))"
  have "get_job s i v = None \<longleftrightarrow> ?found = None"
    by (cases ?found) (simp_all add: get_job_def Let_def)
  then show ?thesis by (auto simp: select_where_def filter_empty_conv split: option.splits)
qed

lemma get_job_update:
  assumes "jobs s' = update_where P f (jobs s)" and "\<And>j. j_id (f j) = j_id j \<and> j_user_id (f j) = j_user_id j"
  shows "get_job s' i v = None \<longleftrightarrow> get_job s i v = None"
  using assms(2) by (auto simp: get_job_None assms(1) ball_Un split: option.splits)

lemma no_trace_cancel:
  "no_trace (\<lambda>s. Inr (cancel_job now i uid s))"
  "no_trace (\<lambda>s. Inr (cancel_job_admin now i s))"
proof -
  have step: "get_job (request_cancel i s) i v = None \<longleftrightarrow> get_job s i v = None"
    "get_job (s\<lparr>jobs := update_where (\<lambda>j. j_id j = i) (cancel_row now) (jobs s), job_cases := cs\<rparr>) i v = None
      \<longleftrightarrow> get_job s i v = None" for s v cs
    by (rule get_job_update [where P = "\<lambda>j. j_id j = i" and f = "j_cancel_requested_update (\<lambda>_. True)"],
        simp_all add: request_cancel_def)
      (rule get_job_update [where P = "\<lambda>j. j_id j = i" and f = "cancel_row now"], simp_all add: cancel_row_def)
  have found: "get_job s i (Some uid) \<noteq> None"
    if "fetchone (select_where (\<lambda>j. j_id j = i \<and> j_user_id j = uid) (jobs s)) = Some j" for s j
    using fetchone_in [OF that] by (auto simp: get_job_None select_where_def)
  have found': "get_job s i None \<noteq> None"
    if "fetchone (select_where (\<lambda>j. j_id j = i) (jobs s)) = Some j" for s j
    using fetchone_in [OF that] by (auto simp: get_job_None select_where_def)
  show "no_trace (\<lambda>s. Inr (cancel_job now i uid s))"
    unfolding no_trace_def cancel_job_def Let_def
    by (auto simp: step dest!: found split: option.splits if_splits)
  show "no_trace (\<lambda>s. Inr (cancel_job_admin now i s))"
    unfolding no_trace_def cancel_job_admin_def Let_def
    by (auto simp: step dest!: found' split: option.splits if_splits)
qed

lemma no_trace_lookup:
  assumes "no_trace f"
  shows "on_db f p = (Inr None, p') \<Longrightarrow> p' = p"
    and "catching (on_db f) username_conflict p = (Inr None, p') \<Longrightarrow> p' = p"
  using assms
  by (fastforce simp: no_trace_def catching_def on_db_def username_conflict_def
      split: sum.splits prod.splits py_error.splits if_splits)+

section \<open>Every refusal but that of a login\<close>

lemma quiet_refuse: "quiet (raise e)" "quiet (ret x)"
  by (simp_all add: quiet_def)

lemma quiet_read:
  "reads m \<Longrightarrow> (\<And>x. quiet (f x)) \<Longrightarrow> quiet (andthen m f)"
  by (rule quiet_rules)

lemma quiet_then:
  "(\<And>x. firm (f x)) \<Longrightarrow> quiet (andthen (on_db g) f)"
  "(\<And>x. firm (f x)) \<Longrightarrow> quiet (andthen (changing h) f)"
  "(\<And>x. firm (f x)) \<Longrightarrow> quiet (andthen (on_images i) f)"
  "(\<And>x. firm (f x)) \<Longrightarrow> quiet (andthen (catching (on_db k) unknown_extension) f)"
  "(\<And>x. firm (f x)) \<Longrightarrow> quiet (andthen (catching (on_db k) submission_refusal) f)"
  by (rule quiet_rules(4); simp add: quiet_clauses quiet_rules(2) firm_rules)+

lemma quiet_found:
  assumes "no_trace f" and "\<And>x. firm (g x)"
  shows "quiet (andthen (on_db f) (\<lambda>v. case v of None \<Rightarrow> refuse st msg | Some x \<Rightarrow> g x))"
    and "quiet (andthen (catching (on_db f) username_conflict)
          (\<lambda>v. case v of None \<Rightarrow> refuse st msg | Some x \<Rightarrow> g x))"
  by (rule quiet_lookup; use assms in \<open>simp add: no_trace_lookup quiet_clauses quiet_rules(2) firm_rules\<close>)+

lemma quiet_changed:
  assumes "no_trace (\<lambda>s. Inr (h s))" and "\<And>x. firm (g x)"
  shows "quiet (andthen (changing h) (\<lambda>v. case v of None \<Rightarrow> refuse st msg | Some x \<Rightarrow> g x))"
  unfolding changing_def using assms by (rule quiet_found)

lemma quiet_checked:
  assumes "no_trace f" and "\<And>x. firm (g x)"
  shows "quiet (andthen (on_db f) (\<lambda>v. if v = None then refuse st msg else g v))"
proof -
  have "(\<lambda>v. if v = None then refuse st msg else g v)
      = (\<lambda>v. case v of None \<Rightarrow> refuse st msg | Some x \<Rightarrow> g (Some x))"
    by (auto simp: fun_eq_iff split: option.splits)
  then show ?thesis using quiet_found(1) [OF assms(1), of "\<lambda>x. g (Some x)"] assms(2) by simp
qed

lemma quiet_if: "quiet m \<Longrightarrow> quiet k \<Longrightarrow> quiet (if b then m else k)"
  by (rule quiet_rules)

lemma quiet_Let: "(\<And>x. quiet (f x)) \<Longrightarrow> quiet (Let v f)"
  by simp

lemma firm_register: "firm (register_developer cfg env username password workspace)"
  by (auto simp: firm_def register_developer_def catching_def on_db_def on_images_def andthen_def
      split: sum.splits prod.splits)

lemmas quiet_intros =
  quiet_refuse quiet_if quiet_Let quiet_found quiet_changed quiet_checked quiet_then
  quiet_read [OF reads_dependencies(1)] quiet_read [OF reads_dependencies(2)]
  quiet_read [OF reads_dependencies(4)] quiet_read [OF reads_dependencies(7)]
  quiet_read [OF reads_dependencies(8)] quiet_read [OF reads_dependencies(9)]
  quiet_read [OF unchanged.keeps_pure(4) [folded reads_keeps]]
  no_trace_update no_trace_rotate no_trace_revoke no_trace_decide no_trace_cancel
  firm_rules firm_register

lemma quiet_routes:
  "quiet (create_user cfg env username password req)"
  "quiet (update_user cfg env pid uname st upw req)"
  "quiet (revoke_sessions cfg env pid req)"
  "quiet (rotate_user_token cfg env pid req)"
  "quiet (update_header cfg env name en req)"
  "quiet (ask_extension cfg env cid req)"
  "quiet (add_extension cfg env eid version sha req)"
  "quiet (approve_extension cfg env rid scope req)"
  "quiet (grant_quota cfg env pid gp req)"
  "quiet (admin_cancel cfg env i req)"
  "quiet (submit_job cfg env jp req)"
  "quiet (withdraw_job cfg env i req)"
  unfolding create_user_def update_user_def revoke_sessions_def rotate_user_token_def
    update_header_def ask_extension_def add_extension_def approve_extension_def grant_quota_def
    admin_cancel_def submit_job_def withdraw_job_def
  by (intro quiet_intros)+

definition fine :: "answer handler \<Rightarrow> bool" where
  "fine m \<longleftrightarrow> (\<forall>p a p'. m p = (Inr a, p') \<longrightarrow> an_status a < 400)"

lemma fine_intros:
  "fine (raise e)"
  "an_status a < 400 \<Longrightarrow> fine (ret a)"
  "(\<And>x. fine (f x)) \<Longrightarrow> fine (andthen m f)"
  "fine m1 \<Longrightarrow> fine m2 \<Longrightarrow> fine (if b then m1 else m2)"
  "fine m3 \<Longrightarrow> (\<And>y. fine (g y)) \<Longrightarrow> fine (case v of None \<Rightarrow> m3 | Some y \<Rightarrow> g y)"
  "(\<And>z. fine (h z)) \<Longrightarrow> fine (Let w h)"
  "(\<And>c d. fine (k c d)) \<Longrightarrow> fine (case q of (c, d) \<Rightarrow> k c d)"
  by (auto simp: fine_def split: option.splits prod.splits)

lemma fine_dispatch: "fine (dispatch_route cfg env req)"
proof -
  have "fine (health env)"
    unfolding health_def by (cases "e_quick_check env") (simp_all add: fine_def answer_with_def)
  then show ?thesis
    unfolding dispatch_route_def developer_login_def admin_login_def forward_auth_def logout_def
      list_users_def create_user_def update_user_def revoke_sessions_def rotate_user_token_def
      show_headers_def update_header_def extension_catalog_page_def ask_extension_def
      admin_extensions_def add_extension_def show_extension_requests_def approve_extension_def
      grant_quota_def show_jobs_def admin_cancel_def show_audit_def submit_job_def show_job_def
      withdraw_job_def
    by (cases "rq_route req"; simp only: route.case)
      (intro fine_intros | simp add: answer_with_def job_state_answer_def | assumption)+
qed

lemma quiet_dispatch:
  assumes "\<not> login_route (rq_route req)"
  shows "quiet (dispatch_route cfg env req)"
proof (cases "reading_route (rq_route req)")
  case True
  then show ?thesis by (intro quiet_rules(1) reading_route_reads)
next
  case False
  have "firm (case rq_cookie req of
      None \<Rightarrow> ret ()
    | Some encoded \<Rightarrow>
        if encoded = [] then ret ()
        else andthen (changing (revoke_session_token (cf_token_hash cfg) encoded)) (\<lambda>_. ret ()))"
    by (cases "rq_cookie req") (simp_all del: action_simps add: firm_rules)
  then have "quiet (logout cfg env req)"
    unfolding logout_def by (intro quiet_read [OF reads_dependencies(4)] quiet_rules(2) firm_rules)
  with assms False show ?thesis
    by (cases "rq_route req")
      (simp_all add: dispatch_route_def quiet_routes login_route_def reading_route_def)
qed

lemma serve_error_cases:
  assumes "serve cfg env req p = (a, p')" and "400 \<le> an_status a" and "an_status a \<noteq> 500"
  obtains st b hs where "dispatch_route cfg env req p = (Inl (Refused st b hs), p')" and "an_status a = st"
proof -
  obtain r q where run: "dispatch_route cfg env req p = (r, q)" by fastforce
  then have "r = Inr b \<Longrightarrow> an_status b < 400" for b
    using fine_dispatch [of cfg env req] by (auto simp: fine_def)
  with run assms that show ?thesis
    by (auto simp: serve_def secured_def answer_with_def split: sum.splits refusal.splits)
qed


text \<open>A token rotation for a public id nobody has.\<close>

lemma unknown_rotation:
  "an_status (fst (serve sample_config (sample_env 5) (admin_request (Rotate_Token ''x'')) control_plane)) = 404"
proof -
  have "\<not> canonical_uuid ''x''" using canonical_uuid_length [of "''x''"] by auto
  then show ?thesis
    by (simp add: serve_simps sample_simps rotate_user_token_def)
qed


end
