(* ===== verification/App_Histories.thy ===== *)
theory App_Histories
  imports App_Access
begin

text \<open>
  What holds after any sequence of HTTP requests: the constraints of the account tables and the
  queue, the number of developers and their workspace images, and, on a managed instance, the set of
  accounts and credentials.
\<close>

fun serve_all :: "app_config \<Rightarrow> (app_env \<times> http_request) list \<Rightarrow> plane \<Rightarrow> plane" where
  "serve_all cfg [] p = p"
| "serve_all cfg ((env, req) # rest) p = serve_all cfg rest (snd (serve cfg env req p))"

context kept_relation
begin

lemma serve_all_kept:
  assumes "\<And>env req. keeps R (dispatch_route cfg env req)"
  shows "R p (serve_all cfg history p)"
proof (induction history arbitrary: p)
  case (Cons step rest)
  obtain env req where step: "step = (env, req)" by fastforce
  from assms [of env req] have "R p (snd (serve cfg env req p))" by (simp add: keeps_def serve_state)
  with Cons.IH show ?case unfolding step by (auto intro: trans)
qed (simp add: refl)

end

section \<open>The transition systems\<close>

lemma serve_all_steps: "db_steps cfg p (serve_all cfg history p)"
  by (rule steps.serve_all_kept) (rule dispatch_steps)

lemma account_steps_inv: "(account_step hp th)\<^sup>*\<^sup>* s s' \<Longrightarrow> accounts_inv s \<Longrightarrow> accounts_inv s'"
  by (induction rule: rtranclp_induct) (blast intro: account_step_inv)+

lemma queue_steps_reachable: "queue_step\<^sup>*\<^sup>* s s' \<Longrightarrow> reachable s \<Longrightarrow> reachable s'"
  by (induction rule: rtranclp_induct) (blast intro: reachable.step)+

text \<open>C2: However many requests the server has answered, in whatever order and whether they succeeded,
  were refused or crashed, the account tables satisfy their constraints (unique names, tokens and
  sessions, no dangling session), the queue is in a reachable state, and so the memory reserved by the
  executing jobs of every user and the number of his unfinished jobs are within his ceilings.\<close>

theorem requests_keep_invariants:
  assumes "accounts_inv (pl_db p)" and "reachable (pl_db p)"
  shows "accounts_inv (pl_db (serve_all cfg history p)) \<and> reachable (pl_db (serve_all cfg history p))
    \<and> (\<forall>uid. active_memory (pl_db (serve_all cfg history p)) uid
               \<le> memory_ceiling (pl_db (serve_all cfg history p)) uid
          \<and> int (inflight (pl_db (serve_all cfg history p)) uid)
               \<le> inflight_ceiling (pl_db (serve_all cfg history p)) uid)"
proof -
  let ?s = "pl_db (serve_all cfg history p)"
  have run: "(account_step (cf_hash_password cfg) (cf_token_hash cfg))\<^sup>*\<^sup>* (pl_db p) ?s"
      "queue_step\<^sup>*\<^sup>* (pl_db p) ?s"
    using serve_all_steps [of cfg p history] by (simp_all add: db_steps_def)
  have acc: "accounts_inv ?s" by (rule account_steps_inv [OF run(1) assms(1)])
  have reach: "reachable ?s" by (rule queue_steps_reachable [OF run(2) assms(2)])
  have "reservation ?s" "bounded_inflight ?s"
    using reachable_inv [OF reach] by (simp_all add: queue_inv_def)
  with acc reach show ?thesis by (simp add: reservation_def bounded_inflight_def)
qed

theorem requests_keep_invariants_witness:
  "accounts_inv (pl_db (serve_all sample_config
     [(sample_env 5, admin_request (Create_User ''neo'' ''correct horse'')),
      (sample_env 6, developer_request (Cancel_Job 1))] control_plane))"
  by (rule requests_keep_invariants [THEN conjunct1])
    (simp_all add: control_plane_def control_inv control_reachable)

section \<open>Columns of the user table\<close>

definition user_column :: "(user_row \<Rightarrow> 'a) \<Rightarrow> plane \<Rightarrow> 'a list" where
  "user_column g p = map g (t_rows (users (pl_db p)))"

definition same_column :: "(user_row \<Rightarrow> 'a) \<Rightarrow> plane \<Rightarrow> plane \<Rightarrow> bool" where
  "same_column g p q \<longleftrightarrow> user_column g q = user_column g p \<and> pl_images q = pl_images p"

interpretation column: kept_relation "same_column g" for g
  by unfold_locales (auto simp: same_column_def)

text \<open>A column that no request but a rotation or a creation touches.\<close>

definition stable :: "(user_row \<Rightarrow> 'a) \<Rightarrow> bool" where
  "stable g \<longleftrightarrow> (\<forall>u x. g (u\<lparr>u_username := x\<rparr>) = g u) \<and> (\<forall>u x. g (u\<lparr>u_status := x\<rparr>) = g u)
     \<and> (\<forall>u x. g (u\<lparr>u_password_hash := x\<rparr>) = g u) \<and> (\<forall>u x. g (u\<lparr>u_last_login_at := x\<rparr>) = g u)"

lemma column_users:
  "map g (t_rows (users s)) = map g (t_rows (users (pl_db p))) \<Longrightarrow> same_column g p (p\<lparr>pl_db := s\<rparr>)"
  by (simp add: same_column_def user_column_def)

lemma column_update_where:
  assumes "\<And>u. g (f u) = g u"
  shows "map g (t_rows (update_where P f t)) = map g (t_rows t)"
  using assms by (simp add: update_where_def)

lemma column_update_row:
  "update_user_row uid f s = Inr s' \<Longrightarrow> (\<And>u. g (f u) = g u) \<Longrightarrow>
     map g (t_rows (users s')) = map g (t_rows (users s))"
  by (auto dest!: update_user_row_Inr)

lemma column_update_optional:
  "update_optional uid f v s = Inr s' \<Longrightarrow> (\<And>x u. g (f x u) = g u) \<Longrightarrow>
     map g (t_rows (users s')) = map g (t_rows (users s))"
  by (cases v) (auto simp: update_optional_def intro: column_update_row)

lemma column_update_developer:
  assumes "update_developer hp uid uname st upw s = Inr (v, s')" and "stable g"
  shows "map g (t_rows (users s')) = map g (t_rows (users s))"
proof (cases "is_developer s uid")
  case True
  from assms(1) this obtain s1 s2 s3 where
    run: "update_optional uid (\<lambda>x. u_username_update (\<lambda>_. x)) uname s = Inr s1"
      "update_optional uid (\<lambda>x. u_status_update (\<lambda>_. x)) st s1 = Inr s2"
      "update_optional uid (\<lambda>x. u_password_hash_update (\<lambda>_. hp x)) upw s2 = Inr s3"
    and s': "s' = (if st = Some Disabled \<or> upw \<noteq> None then delete_user_sessions uid s3 else s3)"
    by (rule update_developer_Inr)
  note keep = column_update_optional [of uid _ _ _ _ g]
  have "map g (t_rows (users s1)) = map g (t_rows (users s))"
    by (rule keep [OF run(1)]) (use assms(2) in \<open>simp add: stable_def\<close>)
  moreover have "map g (t_rows (users s2)) = map g (t_rows (users s1))"
    by (rule keep [OF run(2)]) (use assms(2) in \<open>simp add: stable_def\<close>)
  moreover have "map g (t_rows (users s3)) = map g (t_rows (users s2))"
    by (rule keep [OF run(3)]) (use assms(2) in \<open>simp add: stable_def\<close>)
  ultimately show ?thesis by (simp add: s' delete_user_sessions_def)
qed (use assms in \<open>simp add: update_developer_def\<close>)

lemma column_rotate:
  assumes "rotate_developer_token th uid tok s = Inr (v, s')" and "\<And>u x. g (u\<lparr>u_api_token_hash := x\<rparr>) = g u"
  shows "map g (t_rows (users s')) = map g (t_rows (users s))"
proof (cases "is_developer s uid")
  case True
  with assms(1) have "update_user_row uid (\<lambda>u. u\<lparr>u_api_token_hash := Some (th tok)\<rparr>) s = Inr s'"
    by (simp add: rotate_developer_token_def)
  then show ?thesis by (rule column_update_row) (rule assms(2))
qed (use assms in \<open>simp add: rotate_developer_token_def\<close>)

lemma column_ops:
  assumes "stable g"
  shows "keeps (same_column g) (on_db (update_developer hp uid uname st upw))"
    and "keeps (same_column g) (storing (create_session th clk uid tok csrf))"
proof -
  show "keeps (same_column g) (on_db (update_developer hp uid uname st upw))"
    by (intro column.keeps_on_db column_users column_update_developer [OF _ assms])
  show "keeps (same_column g) (storing (create_session th clk uid tok csrf))"
    by (intro column.keeps_storing column_users)
      (use assms in \<open>auto simp: create_session_def stable_def split: if_splits\<close>)
qed

lemma column_same_users:
  "users s = users (pl_db p) \<Longrightarrow> same_column g p (p\<lparr>pl_db := s\<rparr>)"
  by (simp add: same_column_def user_column_def)

lemma column_other_ops:
  "keeps (same_column g) (changing (revoke_session_token th tok))"
  "keeps (same_column g) (changing (revoke_user_sessions uid))"
  "keeps (same_column g) (storing (\<lambda>s. Inr (record_login_failure now scope name source s)))"
  "keeps (same_column g) (storing (\<lambda>s. Inr (clear_login_failures scope name source s)))"
  "keeps (same_column g) (changing (set_header now h e))"
  "keeps (same_column g) (on_db (create_extension now eid version sha))"
  "keeps (same_column g) (on_db (request_extension now uid cid))"
  "keeps (same_column g) (on_db (decide_extension_request now rid actor scope))"
  "keeps (same_column g) (storing (audit now whom action1 tt1 ti1 details1))"
  "keeps (same_column g) (on_db (create_grant clk uid actor gp))"
  "keeps (same_column g) (on_db (create_job clk uid jp))"
  "keeps (same_column g) (changing (cancel_job now i uid))"
  "keeps (same_column g) (changing (cancel_job_admin now i))"
  by (intro column.keeps_on_db column.keeps_storing column.keeps_changing column_same_users;
      auto dest: extension_ops_same job_ops_accounts(1,2)
        simp: same_accounts_def revoke_session_token_def revoke_user_sessions_def Let_def
          delete_user_sessions_def record_login_failure_def clear_login_failures_def set_header_def
          job_ops_accounts(3,4) [unfolded same_accounts_def])+

lemma stable_routes: "stable g \<Longrightarrow> route_relation (same_column g) cfg"
  by unfold_locales (simp_all add: column_ops column_other_ops)

text \<open>What identifies an account and its workspace, and the same with its API token.\<close>

definition account :: "user_row \<Rightarrow> int \<times> string \<times> role \<times> string option" where
  "account u = (u_id u, u_public_id u, u_role u, u_workspace_path u)"

definition credentials :: "user_row \<Rightarrow> int \<times> string \<times> role \<times> string option \<times> string option" where
  "credentials u = (u_id u, u_public_id u, u_role u, u_workspace_path u, u_api_token_hash u)"

lemma stable_account: "stable account"
  by (simp add: stable_def account_def)

interpretation account_routes: route_relation "same_column account" cfg for cfg
  by (rule stable_routes) (rule stable_account)

interpretation credential_routes: route_relation "same_column credentials" cfg for cfg
  by (rule stable_routes) (simp add: stable_def credentials_def)

section \<open>The creation of a developer\<close>

lemma the_row_keeps: "keeps (same_column g) (the_row v)"
  by (simp add: the_row_def column.keeps_pure split: option.split)

lemma create_user_cases:
  assumes "create_user cfg env username password req p = (r, p')"
  obtains (unchanged) "pl_db p' = pl_db p" and "pl_images p' = pl_images p"
    | (leftover) d where "r = Inl (Crashed d)" and "pl_db p' = pl_db p"
        and "pl_images p (image_path (cf_workspace_root cfg) (e_uuid env)) = None"
        and "pl_images p' = (pl_images p)(image_path (cf_workspace_root cfg) (e_uuid env) \<mapsto>
               \<lparr>im_bytes = 0, im_mode = 384, im_formatted = False\<rparr>)"
    | (created) s u where "\<not> cf_managed_mode cfg"
        and "length (list_developers (pl_db p)) < MAX_DEVELOPER_ACCOUNTS"
        and "pl_images p (image_path (cf_workspace_root cfg) (e_uuid env)) = None"
        and "pl_images p' = (pl_images p)(image_path (cf_workspace_root cfg) (e_uuid env) \<mapsto>
               fresh_image (cf_workspace_size_mib cfg))"
        and "create_developer (cf_hash_password cfg) (cf_token_hash cfg) (e_uuid env) (op_clock env 0)
               username password (e_api_token env) (image_path (cf_workspace_root cfg) (e_uuid env))
               (Some (e_uuid env)) (pl_db p) = Inr (u, s)"
        and "t_rows (users (pl_db p')) = t_rows (users s)"
proof -
  let ?path = "image_path (cf_workspace_root cfg) (e_uuid env)"
  let ?image = "on_images (create_workspace_image (e_images env) (cf_workspace_root cfg) (e_uuid env)
      (cf_workspace_size_mib cfg))"
  let ?tail = "\<lambda>admin workspace. andthen (register_developer cfg env username password workspace) (\<lambda>row.
      andthen (the_row row) (\<lambda>user.
      followed
        (audited env admin ''user.create'' ''user'' (u_public_id user)
          [(''username'', Detail_Text (u_username user))])
        (ret (answer_with 201 (User_Created (public_user user) (e_api_token env))))))"
  consider "p' = p" | admin where "\<not> cf_managed_mode cfg"
      "length (list_developers (pl_db p)) < MAX_DEVELOPER_ACCOUNTS"
      "andthen ?image (?tail admin) p = (r, p')"
  proof (cases "csrf_admin cfg env req p")
    case (Pair v q)
    then have q: "q = p" by (rule reads_run [OF reads_dependencies(7)])
    show ?thesis
    proof (cases v)
      case (Inl e)
      with Pair q assms that show ?thesis by (simp add: create_user_def andthen_def)
    next
      case (Inr admin)
      with Pair q assms that(1) that(2) [of admin] show ?thesis
        by (auto simp: create_user_def andthen_def valid_body_def not_le split: if_splits)
    qed
  qed
  then show ?thesis
  proof cases
    case 1
    then show ?thesis by (intro unchanged) auto
  next
    case run: (2 admin)
    obtain v fs where made: "create_workspace_image (e_images env) (cf_workspace_root cfg) (e_uuid env)
        (cf_workspace_size_mib cfg) (pl_images p) = (v, fs)" by fastforce
    show ?thesis
    proof (cases v)
      case (Inl d)
      with made run(3) have "r = Inl (Crashed d)" "p' = p\<lparr>pl_images := fs\<rparr>"
        by (auto simp: andthen_def on_images_def)
      with create_workspace_image_Inl [OF made [unfolded Inl]] show ?thesis
        using unchanged leftover by auto
    next
      case (Inr path)
      from create_workspace_image_Inr [OF made [unfolded Inr]]
      have path: "path = ?path" "pl_images p ?path = None"
        and fs: "fs = (pl_images p)(?path \<mapsto> fresh_image (cf_workspace_size_mib cfg))" by auto
      from made Inr run(3) path have tail: "?tail admin ?path (p\<lparr>pl_images := fs\<rparr>) = (r, p')"
        by (simp add: andthen_def on_images_def)
      let ?create = "create_developer (cf_hash_password cfg) (cf_token_hash cfg) (e_uuid env) (op_clock env 0)
          username password (e_api_token env) ?path (Some (e_uuid env)) (pl_db p)"
      show ?thesis
      proof (cases ?create)
        case (Inl e)
        with tail fs path have "pl_db p' = pl_db p" "pl_images p' = pl_images p"
          by (auto simp: andthen_def register_developer_def catching_def on_db_def on_images_def)
        then show ?thesis by (rule unchanged)
      next
        case (Inr us)
        obtain u s where us: "us = (u, s)" by fastforce
        let ?rest = "andthen (the_row u) (\<lambda>user.
            followed
              (audited env admin ''user.create'' ''user'' (u_public_id user)
                [(''username'', Detail_Text (u_username user))])
              (ret (answer_with 201 (User_Created (public_user user) (e_api_token env)))))"
        have "?rest (p\<lparr>pl_images := fs, pl_db := s\<rparr>) = (r, p')"
          using tail Inr us by (simp add: andthen_def register_developer_def catching_def on_db_def)
        moreover have "keeps (same_column (\<lambda>u. u)) ?rest"
          unfolding audited_def
          by (intro column.keeps_andthen column.keeps_pure column_other_ops) (simp add: the_row_keeps)
        ultimately have "same_column (\<lambda>u. u) (p\<lparr>pl_images := fs, pl_db := s\<rparr>) p'"
          by (rule column.keeps_run [rotated])
        with fs have "t_rows (users (pl_db p')) = t_rows (users s)"
            "pl_images p' = (pl_images p)(?path \<mapsto> fresh_image (cf_workspace_size_mib cfg))"
          by (simp_all add: same_column_def user_column_def)
        with created run(1,2) path Inr us show ?thesis by simp
      qed
    qed
  qed
qed

lemma created_rows:
  assumes "create_developer hp th fresh now name upw tok path pid s = Inr (u, s')"
  obtains row where "t_rows (users s') = t_rows (users s) @ [row]" and "u_role row = Developer"
    and "u_workspace_path row = Some path"
proof -
  let ?pid = "case pid of None \<Rightarrow> fresh | Some v \<Rightarrow> if v = [] then fresh else v"
  let ?row = "\<lparr>u_id = 0, u_public_id = ?pid, u_username = name, u_role = Developer,
      u_password_hash = hp upw, u_api_token_hash = Some (th tok), u_status = Active,
      u_workspace_path = Some path, u_workspace_quota_mib = DEFAULT_WORKSPACE_QUOTA_MIB,
      u_created_at = now, u_last_login_at = None\<rparr>"
  from assms obtain uid where "insert_user ?row s = Inr (uid, s')"
    by (auto simp: create_developer_def Let_def require_uuid_def split: if_splits)
  then have "t_rows (users s') = t_rows (users s) @ [?row\<lparr>u_id := t_seq (users s) + 1\<rparr>]"
    by (auto simp: insert_user_Inr insert_row_def Let_def)
  then show ?thesis by (rule that) simp_all
qed

section \<open>Developers and their workspaces\<close>

definition developer_count :: "plane \<Rightarrow> nat" where
  "developer_count p = length (list_developers (pl_db p))"

text \<open>Every developer has the image his row names.\<close>

definition workspaces_present :: "plane \<Rightarrow> bool" where
  "workspaces_present p \<longleftrightarrow>
     (\<forall>u \<in> set (t_rows (users (pl_db p))). u_role u = Developer \<longrightarrow>
        (\<exists>path img. u_workspace_path u = Some path \<and> pl_images p path = Some img))"

text \<open>Images are added, never removed or changed.\<close>

definition workspace_order :: "plane \<Rightarrow> plane \<Rightarrow> bool" where
  "workspace_order p q \<longleftrightarrow>
     pl_images p \<subseteq>\<^sub>m pl_images q
     \<and> (workspaces_present p \<longrightarrow> workspaces_present q)
     \<and> (developer_count p \<le> MAX_DEVELOPER_ACCOUNTS \<longrightarrow> developer_count q \<le> MAX_DEVELOPER_ACCOUNTS)"

interpretation workspaces: kept_relation workspace_order
  by unfold_locales (auto simp: workspace_order_def intro: map_le_trans)

lemma developer_count_column:
  "developer_count p = length (filter (\<lambda>(_, _, r, _). r = Developer) (user_column account p))"
  by (simp add: developer_count_def list_developers_def select_where_def user_column_def
      filter_map comp_def account_def)

lemma workspaces_column:
  "workspaces_present p \<longleftrightarrow> (\<forall>(_, _, r, w) \<in> set (user_column account p). r = Developer \<longrightarrow>
     (\<exists>path img. w = Some path \<and> pl_images p path = Some img))"
  by (auto simp: workspaces_present_def user_column_def account_def)

lemma same_account_order: "same_column account p q \<Longrightarrow> workspace_order p q"
  by (simp add: workspace_order_def same_column_def developer_count_column workspaces_column)

lemma workspaces_grow:
  assumes "workspaces_present p" and "pl_images p \<subseteq>\<^sub>m pl_images q"
    and "set (t_rows (users (pl_db q))) \<subseteq> insert row (set (t_rows (users (pl_db p))))"
    and "\<exists>path img. u_workspace_path row = Some path \<and> pl_images q path = Some img"
  shows "workspaces_present q"
  unfolding workspaces_present_def
proof (intro ballI impI)
  fix u assume u: "u \<in> set (t_rows (users (pl_db q)))" "u_role u = Developer"
  show "\<exists>path img. u_workspace_path u = Some path \<and> pl_images q path = Some img"
  proof (cases "u = row")
    case False
    with u assms(1,3) obtain path img where "u_workspace_path u = Some path" "pl_images p path = Some img"
      unfolding workspaces_present_def by blast
    with assms(2) show ?thesis by (auto simp: map_le_def dom_def)
  qed (use assms(4) in simp)
qed

lemma create_user_order: "keeps workspace_order (create_user cfg env username password req)"
  unfolding keeps_def
proof
  fix p
  obtain r p' where run: "create_user cfg env username password req p = (r, p')" by fastforce
  from run have "workspace_order p p'"
  proof (cases rule: create_user_cases)
    case unchanged
    then show ?thesis by (intro same_account_order) (simp add: same_column_def user_column_def)
  next
    case (leftover d)
    have "pl_images p \<subseteq>\<^sub>m pl_images p'" using leftover(3,4) by (simp add: map_le_def dom_def)
    moreover have "developer_count p' = developer_count p" using leftover(2) by (simp add: developer_count_def)
    moreover have "workspaces_present p \<Longrightarrow> workspaces_present p'"
      using leftover(2) calculation(1)
      by (fastforce simp: workspaces_present_def map_le_def dom_def)
    ultimately show ?thesis by (simp add: workspace_order_def)
  next
    case (created s u)
    let ?path = "image_path (cf_workspace_root cfg) (e_uuid env)"
    from created(5) obtain row where row: "t_rows (users s) = t_rows (users (pl_db p)) @ [row]"
      "u_role row = Developer" "u_workspace_path row = Some ?path" by (rule created_rows)
    have images: "pl_images p \<subseteq>\<^sub>m pl_images p'" using created(3,4) by (simp add: map_le_def dom_def)
    moreover have "developer_count p' \<le> MAX_DEVELOPER_ACCOUNTS"
      using created(2,6) row by (simp add: developer_count_def list_developers_def select_where_def)
    moreover have "workspaces_present p \<Longrightarrow> workspaces_present p'"
      by (rule workspaces_grow [OF _ images, where row = row]) (use created(4,6) row in auto)
    ultimately show ?thesis by (simp add: workspace_order_def)
  qed
  then show "workspace_order p (snd (create_user cfg env username password req p))"
    by (simp add: run)
qed

lemma keeps_mono: "keeps R m \<Longrightarrow> (\<And>p q. R p q \<Longrightarrow> Q p q) \<Longrightarrow> keeps Q m"
  by (simp add: keeps_def)

lemma order_op: "keeps (same_column account) m \<Longrightarrow> keeps workspace_order m"
  by (erule keeps_mono) (rule same_account_order)

lemma rotate_account: "keeps (same_column account) (rotate_user_token cfg env pid req)"
  unfolding rotate_user_token_def
  by (intro account_routes.keeps_intros column.keeps_on_db column_users column_rotate)
    (auto simp: account_def)

interpretation order_routes: route_relation workspace_order cfg for cfg
  by unfold_locales (simp_all add: order_op column_other_ops column_ops stable_account)

lemma dispatch_order: "keeps workspace_order (dispatch_route cfg env req)"
  by (rule order_routes.dispatch_kept)
    (simp_all add: create_user_order order_op [OF rotate_account])

text \<open>C22: Whatever requests arrive, the server never removes, overwrites or resizes a workspace image
  that exists; if every developer has the image his account names, this stays so; and the number of
  developers never exceeds the three an instance has ports for.\<close>

theorem workspaces_and_accounts_bounded:
  assumes "developer_count p \<le> MAX_DEVELOPER_ACCOUNTS" and "workspaces_present p"
  shows "developer_count (serve_all cfg history p) \<le> MAX_DEVELOPER_ACCOUNTS
    \<and> workspaces_present (serve_all cfg history p)
    \<and> (\<forall>path img. pl_images p path = Some img \<longrightarrow> pl_images (serve_all cfg history p) path = Some img)"
proof -
  have "workspace_order p (serve_all cfg history p)"
    by (rule workspaces.serve_all_kept) (rule dispatch_order)
  with assms show ?thesis by (auto simp: workspace_order_def map_le_def dom_def)
qed

text \<open>The sample with the workspace of its developer.\<close>

definition workspace_plane :: plane where
  "workspace_plane =
     \<lparr>pl_db = control_db\<lparr>users := update_where (\<lambda>u. u_id u = 2) (\<lambda>u. u\<lparr>u_workspace_path := Some ''/w/0.img''\<rparr>)
        (users control_db)\<rparr>,
      pl_images = [''/w/0.img'' \<mapsto> fresh_image 64]\<rparr>"

theorem workspaces_and_accounts_bounded_witness:
  "developer_count (serve_all sample_config
       [(sample_env 5, admin_request (Create_User ''neo'' ''correct horse'')),
        (sample_env 6, admin_request (Create_User ''trinity'' ''correct horse''))] workspace_plane) \<le> 3
   \<and> pl_images (serve_all sample_config
       [(sample_env 5, admin_request (Create_User ''neo'' ''correct horse'')),
        (sample_env 6, admin_request (Create_User ''trinity'' ''correct horse''))] workspace_plane) ''/w/0.img''
       = Some (fresh_image 64)"
proof -
  have "developer_count workspace_plane \<le> MAX_DEVELOPER_ACCOUNTS" "workspaces_present workspace_plane"
    by (simp_all add: workspace_plane_def developer_count_def list_developers_def select_where_def
        workspaces_present_def sample_simps update_where_def MAX_DEVELOPER_ACCOUNTS_def)
  from workspaces_and_accounts_bounded [OF this, of sample_config
      "[(sample_env 5, admin_request (Create_User ''neo'' ''correct horse'')),
        (sample_env 6, admin_request (Create_User ''trinity'' ''correct horse''))]"]
  show ?thesis by (simp add: MAX_DEVELOPER_ACCOUNTS_def workspace_plane_def del: serve_all.simps)
qed

section \<open>Managed instances\<close>

lemma managed_create:
  assumes "cf_managed_mode cfg"
  shows "keeps (same_column credentials) (create_user cfg env username password req)"
  unfolding create_user_def if_P [OF assms] by (intro credential_routes.keeps_intros)

lemma managed_rotate:
  assumes "cf_managed_mode cfg"
  shows "keeps (same_column credentials) (rotate_user_token cfg env pid req)"
  unfolding rotate_user_token_def if_P [OF assms] by (intro credential_routes.keeps_intros)

lemma managed_serve_all:
  assumes "cf_managed_mode cfg"
  shows "same_column credentials p (serve_all cfg history p)"
  by (intro column.serve_all_kept credential_routes.dispatch_kept managed_create managed_rotate assms)

text \<open>On a managed instance (\<open>managed_mode\<close>, as \<open>serve\<close> sets it) no request creates or removes an
  account, changes its public id, role or workspace path, replaces an API token or touches a workspace
  image: accounts and credentials come from the offline bootstrap alone.\<close>

theorem managed_accounts_fixed:
  assumes "cf_managed_mode cfg"
  shows "map credentials (t_rows (users (pl_db (serve_all cfg history p))))
      = map credentials (t_rows (users (pl_db p)))
    \<and> pl_images (serve_all cfg history p) = pl_images p"
  using managed_serve_all [OF assms] by (simp add: same_column_def user_column_def)

theorem managed_accounts_fixed_witness:
  "pl_images (serve_all (sample_config\<lparr>cf_managed_mode := True\<rparr>)
     [(sample_env 5, admin_request (Create_User ''neo'' ''correct horse'')),
      (sample_env 6, admin_request (Rotate_Token zero_uuid))] workspace_plane) = pl_images workspace_plane"
  by (rule managed_accounts_fixed [THEN conjunct2]) simp

end
