(* ===== verification/App_Outcomes.thy ===== *)
theory App_Outcomes
  imports App_Histories
begin

text \<open>
  What single requests achieve: the decision on a submission, on every branch, and the isolation of
  developers from each other.
\<close>

section \<open>Submission\<close>

definition needs_grant :: "job_payload \<Rightarrow> bool" where
  "needs_grant jp \<longleftrightarrow> p_memory_limit_mib jp > 256 \<or> p_time_limit_ms jp > 60000"

text \<open>The status a submission of \<open>jp\<close> by the user \<open>uid\<close> is answered with.\<close>

definition submission_status :: "app_env \<Rightarrow> db \<Rightarrow> int \<Rightarrow> job_payload \<Rightarrow> int" where
  "submission_status env s uid jp =
     (if \<not> job_create_ok jp then 422
      else if validate_direct_includes (p_source jp) (enabled_headers s) \<noteq> [] then 422
      else if int (inflight s uid) \<ge> lim_inflight (effective_limits s (op_clock env 0) uid) then 409
      else if needs_grant jp \<and> find_grant s (op_clock env 1) uid jp = None then 422
      else 202)"

lemma api_user_exists:
  assumes "developer_user cfg req p = (Inr u, p')"
  shows "user_exists (pl_db p) (u_id u)"
proof -
  from developer_user_Inr(4) [OF assms] have "u \<in> set (t_rows (users (pl_db p)))"
    by (auto simp: get_user_by_api_token_def select_where_def dest!: fetchone_in)
  then show ?thesis by (auto simp: user_exists_def find_None_iff)
qed

lemma inserted_job_found: "get_job (snd (insert_job now uid jp grant s)) (t_seq (jobs s) + 1) (Some uid) \<noteq> None"
  by (auto simp: get_job_None queue_simps new_job_def)

lemma submit_job_run:
  assumes "developer_user cfg req p = (Inr u, p)"
  shows "submit_job cfg env jp req p =
    (if \<not> job_create_ok jp then (Inl (Refused 422 Invalid_Body []), p)
     else if validate_direct_includes (p_source jp) (enabled_headers (pl_db p)) \<noteq> []
       then (Inl (Refused 422 (Include_Policy
          (validate_direct_includes (p_source jp) (enabled_headers (pl_db p)))) []), p)
     else andthen (catching (on_db (create_job (op_clock env) (u_id u) jp)) submission_refusal) (\<lambda>created.
       andthen (the_row created) (\<lambda>d.
       ret (answer_with 202
         (Job_Accepted (j_id (jd_job d)) (j_status (jd_job d)) (jd_case_count d))))) p)"
  using assms by (simp add: submit_job_def andthen_def valid_body_def Let_def)

lemma submission_outcome:
  assumes "rq_route req = Create_Job jp" and "developer_user cfg req p = (Inr u, p)"
    and "serve cfg env req p = (a, p')"
  shows "an_status a = submission_status env (pl_db p) (u_id u) jp
    \<and> (if an_status a = 202
       then \<exists>grant. p' = p\<lparr>pl_db := snd (insert_job (op_clock env 2) (u_id u) jp grant (pl_db p))\<rparr>
              \<and> (needs_grant jp \<longleftrightarrow> grant \<noteq> None)
       else p' = p)"
proof -
  let ?s = "pl_db p" and ?uid = "u_id u"
  note run = submit_job_run [OF assms(2), of env jp]
  have exists: "user_exists ?s ?uid" by (rule api_user_exists [OF assms(2)])
  have route: "dispatch_route cfg env req = submit_job cfg env jp req"
    using assms(1) by (simp add: dispatch_route_def)
  show ?thesis
  proof (cases "submission_check (op_clock env) ?uid jp ?s")
    case (Inl e)
    then have "create_job (op_clock env) ?uid jp ?s = Inl e" by (simp add: create_job_def)
    moreover have "e = OverflowError ''inflight_limit''
          \<and> lim_inflight (effective_limits ?s (op_clock env 0) ?uid) \<le> int (inflight ?s ?uid)
        \<or> e = ValueError ''quota_exceeded'' \<and> needs_grant jp \<and> find_grant ?s (op_clock env 1) ?uid jp = None
          \<and> int (inflight ?s ?uid) < lim_inflight (effective_limits ?s (op_clock env 0) ?uid)"
      using Inl by (auto simp: submission_check_def needs_grant_def split: if_splits option.splits)
    ultimately show ?thesis
      using assms(3) unfolding serve_def route run
      by (auto simp: submission_status_def secured_def answer_with_def andthen_def catching_def
          on_db_def submission_refusal_def split: if_splits)
  next
    case (Inr grant)
    let ?s' = "snd (insert_job (op_clock env 2) ?uid jp grant ?s)"
    obtain d where d: "get_job ?s' (t_seq (jobs ?s) + 1) (Some ?uid) = Some d"
      using inserted_job_found by blast
    with Inr exists have "create_job (op_clock env) ?uid jp ?s = Inr (Some d, ?s')"
      unfolding create_job_Inr submission_insert_Inr by auto
    moreover have "int (inflight ?s ?uid) < lim_inflight (effective_limits ?s (op_clock env 0) ?uid)"
        "needs_grant jp \<longleftrightarrow> grant \<noteq> None" "needs_grant jp \<longrightarrow> find_grant ?s (op_clock env 1) ?uid jp \<noteq> None"
      using Inr by (auto simp: submission_check_def needs_grant_def split: if_splits option.splits)
    ultimately show ?thesis
      using assms(3) unfolding serve_def route run
      by (auto simp: submission_status_def secured_def answer_with_def andthen_def catching_def
          on_db_def the_row_def split: if_splits)
  qed
qed

text \<open>C15: The decision on a submission with a valid API token. It is answered 422 when a field is outside
  its bounds or a directive violates the header policy, 409 when the developer has as many unfinished
  jobs as allowed, 422 when it exceeds the base limits and no live grant covers it, and 202 in every
  other case; then, and only then, exactly one job with its cases has been queued for that developer,
  and nothing else has changed.\<close>

theorem submission_decision:
  assumes "rq_route req = Create_Job jp" and "developer_user cfg req p = (Inr u, p)"
    and "serve cfg env req p = (a, p')"
  shows "an_status a = submission_status env (pl_db p) (u_id u) jp
    \<and> (if an_status a = 202
       then \<exists>grant. p' = p\<lparr>pl_db := snd (insert_job (op_clock env 2) (u_id u) jp grant (pl_db p))\<rparr>
              \<and> (needs_grant jp \<longleftrightarrow> grant \<noteq> None)
       else p' = p)"
  using assms by (rule submission_outcome)

definition sample_submission :: job_payload where
  "sample_submission =
     \<lparr>p_filename = ''a.cpp'', p_source = ''#include <map>'', p_compiler = ''gcc-14-gnu++17'',
      p_time_limit_ms = 1000, p_memory_limit_mib = 64, p_inputs = [''1'']\<rparr>"

definition submission_plane :: plane where
  "submission_plane = control_plane\<lparr>pl_db := control_db\<lparr>header_policy :=
     [\<lparr>h_name = ''map'', h_enabled = True, h_builtin = True, h_updated_at = 0\<rparr>]\<rparr>\<rparr>"

lemma sample_source_allowed: "validate_direct_includes ''#include <map>'' {''map''} = []"
  by code_simp

lemma sample_job_ok: "job_create_ok sample_submission"
  by code_simp

lemma sample_developer:
  "developer_user sample_config (developer_request r) submission_plane = (Inr (dev_user), submission_plane)"
proof -
  have "strip (drop 7 ''Bearer t'') = ''t''" by code_simp
  then show ?thesis
    by (simp add: developer_user_def sample_simps submission_plane_def get_user_by_api_token_def select_where_def)
qed

lemma sample_submission_status:
  "submission_status (sample_env 5) (pl_db submission_plane) (u_id dev_user) sample_submission = 202"
proof -
  have "inflight (pl_db submission_plane) (u_id dev_user) = 0"
    by (simp add: inflight_def rowcount_def submission_plane_def sample_simps)
  moreover have "lim_inflight (effective_limits (pl_db submission_plane) t (u_id dev_user)) > 0" for t
    by (simp add: effective_limits_def select_where_def truthy_values_def py_max_def Let_def
        submission_plane_def sample_simps MAX_USER_INFLIGHT_def List.map_filter_simps)
  moreover have "enabled_headers (pl_db submission_plane) = {''map''}"
    by (simp add: enabled_headers_def submission_plane_def)
  moreover have "\<not> needs_grant sample_submission"
    by (simp add: needs_grant_def sample_submission_def)
  moreover have "p_source sample_submission = ''#include <map>''"
    by (simp add: sample_submission_def)
  ultimately show ?thesis
    using sample_job_ok sample_source_allowed by (simp add: submission_status_def not_le)
qed

theorem submission_decision_witness:
  "an_status (fst (serve sample_config (sample_env 5) (developer_request (Create_Job sample_submission))
     submission_plane)) = 202"
  using submission_decision [OF _ sample_developer surjective_pairing, where env = "sample_env 5"
      and jp = sample_submission]
  by (simp add: sample_submission_status) (simp add: developer_request_def)

section \<open>Developers do not see or touch each other's jobs\<close>

lemma filter_update_where:
  assumes "\<And>r. r \<in> set (t_rows t) \<Longrightarrow> P r \<Longrightarrow> \<not> Q r \<and> \<not> Q (f r)"
  shows "filter Q (t_rows (update_where P f t)) = filter Q (t_rows t)"
proof -
  have "filter Q (map (\<lambda>r. if P r then f r else r) xs) = filter Q xs"
    if "\<And>r. r \<in> set xs \<Longrightarrow> P r \<Longrightarrow> \<not> Q r \<and> \<not> Q (f r)" for xs
    using that by (induction xs) auto
  with assms show ?thesis by (simp add: update_where_def)
qed

text \<open>The rows of the jobs of other users and of their cases.\<close>

definition foreign_jobs :: "db \<Rightarrow> int \<Rightarrow> job_row list" where
  "foreign_jobs s uid = filter (\<lambda>j. j_user_id j \<noteq> uid) (t_rows (jobs s))"

definition rows_of_job :: "db \<Rightarrow> int \<Rightarrow> case_row list" where
  "rows_of_job s i = filter (\<lambda>c. c_job_id c = i) (t_rows (job_cases s))"

definition foreign_unchanged :: "int \<Rightarrow> db \<Rightarrow> db \<Rightarrow> bool" where
  "foreign_unchanged uid s s' \<longleftrightarrow>
     foreign_jobs s' uid = foreign_jobs s uid
     \<and> (\<forall>j \<in> set (foreign_jobs s uid). rows_of_job s' (j_id j) = rows_of_job s (j_id j))"

lemma foreign_unchangedI:
  assumes "foreign_jobs s' uid = foreign_jobs s uid"
    and "\<And>j. j \<in> set (foreign_jobs s uid) \<Longrightarrow> rows_of_job s' (j_id j) = rows_of_job s (j_id j)"
  shows "foreign_unchanged uid s s'"
  using assms by (simp add: foreign_unchanged_def)

lemma foreign_same: "same_queue s s' \<Longrightarrow> foreign_unchanged uid s s'"
  by (simp add: foreign_unchanged_def foreign_jobs_def rows_of_job_def same_queue_def)

lemma foreign_insert:
  assumes "keys_ok j_id (jobs s)"
  shows "foreign_unchanged uid s (snd (insert_job now uid jp grant s))"
proof (rule foreign_unchangedI)
  show "foreign_jobs (snd (insert_job now uid jp grant s)) uid = foreign_jobs s uid"
    by (simp add: foreign_jobs_def queue_simps new_job_def)
  fix j assume "j \<in> set (foreign_jobs s uid)"
  then have "j_id j \<le> t_seq (jobs s)"
    using assms by (auto simp: foreign_jobs_def keys_ok_def)
  moreover have "filter (\<lambda>c. c_job_id c = i) (t_rows (insert_cases k pos xs t)) = filter (\<lambda>c. c_job_id c = i) (t_rows t)"
    if "i \<noteq> k" for i k pos xs t
    using that by (induction k pos xs t rule: insert_cases.induct) (simp_all add: new_case_def)
  ultimately show "rows_of_job (snd (insert_job now uid jp grant s)) (j_id j) = rows_of_job s (j_id j)"
    by (simp add: rows_of_job_def queue_simps)
qed

lemma foreign_cancel:
  assumes "keys_ok j_id (jobs s)"
  shows "foreign_unchanged uid s (snd (cancel_job now i uid s))"
proof (cases "fetchone (select_where (\<lambda>j. j_id j = i \<and> j_user_id j = uid) (jobs s))")
  case None
  then show ?thesis by (simp add: cancel_job_def foreign_unchanged_def)
next
  case (Some row)
  then have row: "row \<in> set (t_rows (jobs s))" "j_id row = i" "j_user_id row = uid"
    by (auto simp: select_where_def dest!: fetchone_in)
  have mine: "j_user_id j = uid" if "j \<in> set (t_rows (jobs s))" "j_id j = i" for j
    using keys_ok_unique [OF assms that(1) row(1)] that(2) row by simp
  have jobs_same: "foreign_jobs (s\<lparr>jobs := update_where (\<lambda>j. j_id j = i) f (jobs s), job_cases := cs\<rparr>) uid
      = foreign_jobs s uid" if "\<And>j. j_user_id (f j) = j_user_id j" for f cs
    using filter_update_where [of "jobs s" "\<lambda>j. j_id j = i" "\<lambda>j. j_user_id j \<noteq> uid" f] that mine
    by (simp add: foreign_jobs_def)
  have cases_same: "filter (\<lambda>c. c_job_id c = j_id j)
        (t_rows (update_where (\<lambda>c. c_job_id c = i) g (job_cases s)))
      = filter (\<lambda>c. c_job_id c = j_id j) (t_rows (job_cases s))"
    if "j \<in> set (foreign_jobs s uid)" "\<And>c. c_job_id (g c) = c_job_id c" for g j
    using that mine by (intro filter_update_where) (auto simp: foreign_jobs_def)
  have "foreign_unchanged uid s (s\<lparr>jobs := update_where (\<lambda>j. j_id j = i) (cancel_row now) (jobs s),
      job_cases := update_where (\<lambda>c. c_job_id c = i)
        (\<lambda>c. c\<lparr>c_status := Cancelled, c_stderr := ''cancelled by user''\<rparr>) (job_cases s)\<rparr>)"
    using cases_same [of _ "\<lambda>c. c\<lparr>c_status := Cancelled, c_stderr := ''cancelled by user''\<rparr>"]
    by (intro foreign_unchangedI jobs_same) (simp_all add: rows_of_job_def cancel_row_def)
  moreover have "foreign_unchanged uid s (request_cancel i s)"
    using jobs_same [of "j_cancel_requested_update (\<lambda>_. True)" "job_cases s"]
    by (intro foreign_unchangedI) (simp_all add: request_cancel_def rows_of_job_def)
  moreover have "foreign_unchanged uid s s" by (simp add: foreign_unchanged_def)
  ultimately show ?thesis using Some by (simp add: cancel_job_def Let_def)
qed

definition queue_kept :: "plane \<Rightarrow> plane \<Rightarrow> bool" where
  "queue_kept p q \<longleftrightarrow> same_queue (pl_db p) (pl_db q)"

interpretation queue_kept: kept_relation queue_kept
  by unfold_locales (auto simp: queue_kept_def same_queue_def)

lemma keeps_reading: "(\<And>p. R p p) \<Longrightarrow> reads m \<Longrightarrow> keeps R m"
  by (simp add: keeps_def reads_def)

lemma ask_extension_queue: "keeps queue_kept (ask_extension cfg env cid req)"
proof -
  have clause: "keeps queue_kept (unknown_extension e)" for e :: refusal
    by (auto simp: unknown_extension_def queue_kept.keeps_pure split: refusal.splits py_error.splits)
  show ?thesis
    unfolding ask_extension_def
    by (intro queue_kept.keeps_andthen queue_kept.keeps_catching queue_kept.keeps_pure clause
        queue_kept.keeps_on_db keeps_reading [OF queue_kept.refl] reads_dependencies)
      (auto simp: queue_kept_def dest: extension_ops_same)
qed

lemma get_job_owner: "get_job s i (Some uid) = Some d \<Longrightarrow> j_user_id (jd_job d) = uid"
  by (auto simp: get_job_def Let_def select_where_def split: option.splits dest!: fetchone_in)

lemma show_job_run:
  assumes "developer_user cfg req p = (Inr u, p)"
  shows "show_job cfg i req p =
    (if - (2 ^ 63) \<le> i \<and> i < 2 ^ 63 then
       (case get_job (pl_db p) i (Some (u_id u)) of
          None \<Rightarrow> (Inl (Refused 404 (Message ''job not found'') []), p)
        | Some d \<Rightarrow> (Inr (answer_with 200 (Job_Shown (public_job d))), p))
     else (Inl (Crashed (OverflowError ''Python int too large to convert to SQLite INTEGER'')), p))"
  using assms by (simp add: show_job_def andthen_def bindable_def split: option.split)

lemma withdraw_job_run:
  assumes "developer_user cfg req p = (Inr u, p)"
  shows "withdraw_job cfg env i req p =
    (if - (2 ^ 63) \<le> i \<and> i < 2 ^ 63 then
       (case cancel_job (op_clock env 0) i (u_id u) (pl_db p) of
          (None, s) \<Rightarrow> (Inl (Refused 404 (Message ''job not found'') []), p\<lparr>pl_db := s\<rparr>)
        | (Some d, s) \<Rightarrow> (Inr (job_state_answer (j_id (jd_job d)) (jd_job d)), p\<lparr>pl_db := s\<rparr>))
     else (Inl (Crashed (OverflowError ''Python int too large to convert to SQLite INTEGER'')), p))"
  using assms by (simp add: withdraw_job_def andthen_def bindable_def split: option.split prod.split)

lemma foreign_not_found:
  assumes "keys_ok j_id (jobs s)" and "j \<in> set (foreign_jobs s uid)"
  shows "get_job s (j_id j) (Some uid) = None" and "cancel_job now (j_id j) uid s = (None, s)"
proof -
  have other: "j_user_id k \<noteq> uid" if "k \<in> set (t_rows (jobs s))" "j_id k = j_id j" for k
    using keys_ok_unique [OF assms(1) that(1)] that(2) assms(2) by (auto simp: foreign_jobs_def)
  then show "get_job s (j_id j) (Some uid) = None" by (auto simp: get_job_None)
  from other have "select_where (\<lambda>k. j_id k = j_id j \<and> j_user_id k = uid) (jobs s) = []"
    by (auto simp: select_where_def filter_empty_conv)
  then show "cancel_job now (j_id j) uid s = (None, s)" by (simp add: cancel_job_def)
qed

lemma no_job_shown:
  "fst (submit_job cfg env jp req p) = Inr b \<Longrightarrow> an_body b \<noteq> Job_Shown v"
  "fst (ask_extension cfg env cid req p) = Inr b \<Longrightarrow> an_body b \<noteq> Job_Shown v"
  "fst (extension_catalog_page cfg req p) = Inr b \<Longrightarrow> an_body b \<noteq> Job_Shown v"
  by (auto simp: submit_job_def ask_extension_def extension_catalog_page_def andthen_def answer_with_def
      Let_def the_row_def split: prod.splits sum.splits if_splits option.splits)



end
