(* ===== verification/App_Sessions.thy ===== *)
theory App_Sessions
  imports App_Histories
begin

text \<open>
  Sessions through the HTTP interface: a login opens exactly the workspace of its developer until the
  session expires, a logout ends it, and five wrong passwords block every further attempt; and two
  requests that end in an exception nobody catches.
\<close>

section \<open>A successful login\<close>

lemma authenticate_run:
  assumes "login_retry_after (e_clock env 0) scope name source (pl_db p) = 0"
    and "get_user_by_username (pl_db p) name = Some u" and "credentials_ok cfg wanted password u"
  shows "authenticate cfg env scope wanted name password source p
    = (Inr u, p\<lparr>pl_db := clear_login_failures scope name source (pl_db p)\<rparr>)"
  using assms by (simp add: authenticate_def enforce_login_limit_def andthen_def storing_def on_db_def)

lemma authenticate_wrong:
  assumes "login_retry_after (e_clock env 0) scope name source (pl_db p) = 0"
    and "\<And>u. get_user_by_username (pl_db p) name = Some u \<Longrightarrow> \<not> credentials_ok cfg wanted password u"
  shows "authenticate cfg env scope wanted name password source p
    = (Inl (Refused 401 (Message ''invalid credentials'') []),
       p\<lparr>pl_db := record_login_failure (op_clock env 0) scope name source (pl_db p)\<rparr>)"
  using assms
  by (auto simp: authenticate_def enforce_login_limit_def andthen_def storing_def on_db_def split: option.splits)

lemma authenticate_blocked:
  assumes "login_retry_after (e_clock env 0) scope name source (pl_db p) \<noteq> 0"
  shows "authenticate cfg env scope wanted name password source p
    = (Inl (Refused 429 (Message ''too many login attempts'')
         [(''Retry-After'', int_text (login_retry_after (e_clock env 0) scope name source (pl_db p)))]), p)"
  using assms by (simp add: authenticate_def enforce_login_limit_def andthen_def)

lemma get_user_by_username_in:
  "get_user_by_username s name = Some u \<Longrightarrow> u \<in> set (t_rows (users s))"
  by (auto simp: get_user_by_username_def select_where_def dest!: fetchone_in)

lemma create_session_possible:
  assumes "u \<in> set (t_rows (users s))" and "\<forall>x \<in> set (t_rows (sessions s)). s_token_hash x \<noteq> th token"
  shows "\<exists>s'. create_session th clk (u_id u) token csrf s = Inr s'"
  using assms by (auto simp: create_session_def find_None_iff rowcount_def filter_empty_conv)

lemma audit_possible:
  assumes "uid \<in> u_id ` set (t_rows (users s))"
  shows "\<exists>s'. audit now (Some uid) action tt ti details s = Inr s' \<and> users s' = users s \<and> sessions s' = sessions s"
  using assms by (auto simp: audit_def find_None_iff)

lemma get_session_user_cong:
  "users s' = users s \<Longrightarrow> sessions s' = sessions s \<Longrightarrow> get_session_user th now token s' = get_session_user th now token s"
  by (simp add: get_session_user_def session_join_def)

lemma developer_login_run:
  assumes inv: "accounts_inv (pl_db p)" and user: "get_user_by_username (pl_db p) name = Some u"
    and ok: "credentials_ok cfg Developer password u"
    and unblocked: "login_retry_after (e_clock env 0) ''developer'' name (login_source req) (pl_db p) = 0"
    and fresh: "\<forall>x \<in> set (t_rows (sessions (pl_db p))). s_token_hash x \<noteq> cf_token_hash cfg (e_session_token env)"
  obtains s s' where
    "developer_login cfg env name password req p
       = (Inr ((answer_with 200 (Developer_Session (u_username u) (workspace_url u)))
                 \<lparr>an_cookie := Some (Set_Session (e_session_token env) (cf_secure_cookies cfg) 43200)\<rparr>),
          p\<lparr>pl_db := s'\<rparr>)"
    and "create_session (cf_token_hash cfg) (op_clock env) (u_id u) (e_session_token env) (e_csrf_token env)
       (clear_login_failures ''developer'' name (login_source req) (pl_db p)) = Inr s"
    and "users s' = users s" and "sessions s' = sessions s"
proof -
  let ?clear = "clear_login_failures ''developer'' name (login_source req) (pl_db p)"
  have same: "users ?clear = users (pl_db p)" "sessions ?clear = sessions (pl_db p)"
    by (simp_all add: clear_login_failures_def)
  have mem: "u \<in> set (t_rows (users ?clear))" using user same by (simp add: get_user_by_username_in)
  from create_session_possible [OF mem, of "cf_token_hash cfg"] fresh same obtain s where
    s: "create_session (cf_token_hash cfg) (op_clock env) (u_id u) (e_session_token env) (e_csrf_token env) ?clear = Inr s"
    by metis
  have "map u_id (t_rows (users s)) = map u_id (t_rows (users ?clear))"
    using s by (auto simp: create_session_def split: if_splits)
  then have "u_id ` set (t_rows (users s)) = u_id ` set (t_rows (users ?clear))"
    by (metis list.set_map)
  with mem have "u_id u \<in> u_id ` set (t_rows (users s))" by simp
  from audit_possible [OF this] obtain s' where
    s': "audit (audit_clock env) (Some (u_id u)) ''developer.login'' (Some ''user'') (Some (u_public_id u)) [] s = Inr s'"
      "users s' = users s" "sessions s' = sessions s" by blast
  show ?thesis
    by (rule that [OF _ s s'(2,3)])
      (simp add: developer_login_def andthen_def authenticate_run [OF unblocked user ok]
        issue_session_def storing_def on_db_def s s'(1))
qed

lemma forward_auth_run:
  "forward_auth cfg env req p =
     (case current_session cfg env req p of
        (Inl e, q) \<Rightarrow> (Inl e, q)
      | (Inr (u, csrf), q) \<Rightarrow>
          if u_role u = Developer \<and> (\<exists>uri. rq_forwarded_uri req = Some uri \<and> starts_with uri (workspace_url u))
          then (Inr ((answer_with 200 Access_Ok)\<lparr>an_headers := [(''X-Remote-User'', u_public_id u)]\<rparr>), q)
          else (Inl (Refused 403 (Message ''workspace access denied'') []), q))"
  by (auto simp: forward_auth_def andthen_def Let_def workspace_url_def
      split: prod.splits sum.splits option.splits)

lemma current_session_run:
  "rq_cookie req = Some token \<Longrightarrow> token \<noteq> [] \<Longrightarrow>
     current_session cfg env req p =
       (case get_session_user (cf_token_hash cfg) (e_clock env 0) token (pl_db p) of
          None \<Rightarrow> (Inl (Refused 401 (Message ''invalid session'') []), p)
        | Some session \<Rightarrow> (Inr session, p))"
  by (simp add: current_session_def andthen_def split: option.split)

text \<open>C20: A developer who logs in with his password, not being blocked, gets a session cookie, and for
  the following twelve hours the gateway's authorisation request with that cookie is granted for exactly
  the addresses below his own workspace and refused for every other; afterwards it is refused as
  unauthenticated. The cookie's own lifetime is the session's.\<close>

theorem login_opens_own_workspace:
  assumes "accounts_inv (pl_db p)" and "get_user_by_username (pl_db p) name = Some u"
    and "credentials_ok cfg Developer password u"
    and "login_retry_after (e_clock env 0) ''developer'' name (login_source req) (pl_db p) = 0"
    and "\<forall>x \<in> set (t_rows (sessions (pl_db p))). s_token_hash x \<noteq> cf_token_hash cfg (e_session_token env)"
    and "e_session_token env \<noteq> []" and "rq_route req = Developer_Login name password"
    and "serve cfg env req p = (a, p')"
    and "rq_route later = Forward_Auth" and "rq_cookie later = Some (e_session_token env)"
  shows "an_status a = 200
    \<and> an_cookie a = Some (Set_Session (e_session_token env) (cf_secure_cookies cfg) (session_ttl div 1000000))
    \<and> an_status (fst (serve cfg later_env later p')) =
        (if e_clock later_env 0 \<ge> op_clock env 0 + session_ttl then 401
         else if \<exists>uri. rq_forwarded_uri later = Some uri \<and> starts_with uri (workspace_url u) then 200
         else 403)"
proof -
  obtain s s' where run: "developer_login cfg env name password req p
       = (Inr ((answer_with 200 (Developer_Session (u_username u) (workspace_url u)))
                 \<lparr>an_cookie := Some (Set_Session (e_session_token env) (cf_secure_cookies cfg) 43200)\<rparr>),
          p\<lparr>pl_db := s'\<rparr>)"
    and s: "create_session (cf_token_hash cfg) (op_clock env) (u_id u) (e_session_token env) (e_csrf_token env)
       (clear_login_failures ''developer'' name (login_source req) (pl_db p)) = Inr s"
    and same: "users s' = users s" "sessions s' = sessions s"
    by (rule developer_login_run [OF assms(1-5)])
  let ?s0 = "clear_login_failures ''developer'' name (login_source req) (pl_db p)"
  have answer: "a = secured ((answer_with 200 (Developer_Session (u_username u) (workspace_url u)))
        \<lparr>an_cookie := Some (Set_Session (e_session_token env) (cf_secure_cookies cfg) 43200)\<rparr>)"
      "p' = p\<lparr>pl_db := s'\<rparr>"
    using assms(7,8) run by (auto simp: serve_def dispatch_route_def)
  have inv: "accounts_inv ?s0" by (rule account_step_inv [OF account_step.clear assms(1)])
  have user: "u \<in> set (t_rows (users ?s0))" "u_status u = Active" "u_role u = Developer"
    using get_user_by_username_in [OF assms(2)] assms(3)
    by (simp_all add: clear_login_failures_def credentials_ok_def)
  have session: "get_session_user (cf_token_hash cfg) now (e_session_token env) s'
      = (if now < op_clock env 0 + session_ttl
         then Some (u\<lparr>u_last_login_at := Some (op_clock env 2)\<rparr>, e_csrf_token env) else None)" for now
    using session_authenticates [OF inv user(1,2) s, of now] get_session_user_cong [OF same]
    by (simp add: session_ttl_def)
  show ?thesis
    using assms(9) user(3)
    by (simp add: answer serve_def dispatch_route_def forward_auth_run
        current_session_run [OF assms(10,6)] session secured_def answer_with_def)
      (auto simp: session_ttl_def workspace_url_def)
qed

text \<open>The sample developer logs in.\<close>

lemma sample_login_hyps:
  "get_user_by_username (pl_db control_plane) ''d'' = Some dev_user"
  "credentials_ok sample_config Developer ''h'' dev_user"
  "login_retry_after t ''developer'' ''d'' source (pl_db control_plane) = 0"
  "\<forall>x \<in> set (t_rows (sessions (pl_db control_plane))). s_token_hash x \<noteq> cf_token_hash sample_config ''st''"
  by (simp_all add: get_user_by_username_def select_where_def credentials_ok_def login_retry_after_def
      failure_row_def sample_simps)

definition login_request :: "string \<Rightarrow> http_request" where
  "login_request password = (admin_request (Developer_Login ''d'' password))\<lparr>rq_cookie := None, rq_csrf := None\<rparr>"

definition workspace_request :: "string \<Rightarrow> string \<Rightarrow> http_request" where
  "workspace_request token uri =
     (admin_request Forward_Auth)\<lparr>rq_cookie := Some token, rq_forwarded_uri := Some uri\<rparr>"

theorem login_opens_own_workspace_witness:
  "an_status (fst (serve sample_config (sample_env 6) (workspace_request ''st'' ''/u/00000000-0000-0000-0000-000000000000/x'')
      (snd (serve sample_config (sample_env 5) (login_request ''h'') control_plane)))) = 200
   \<and> an_status (fst (serve sample_config (sample_env 6) (workspace_request ''st'' ''/u/1/'')
      (snd (serve sample_config (sample_env 5) (login_request ''h'') control_plane)))) = 403"
proof -
  have url: "workspace_url dev_user = ''/u/00000000-0000-0000-0000-000000000000/''"
    by (simp add: workspace_url_def dev_user_def zero_uuid_def)
  have "accounts_inv (pl_db control_plane)" by (simp add: control_plane_def control_inv)
  note granted = login_opens_own_workspace [OF this sample_login_hyps(1,2) sample_login_hyps(3),
      where req = "login_request ''h''" and env = "sample_env 5" and later_env = "sample_env 6",
      OF _ _ _ surjective_pairing]
  have "an_status (fst (serve sample_config (sample_env 6) (workspace_request ''st'' uri)
      (snd (serve sample_config (sample_env 5) (login_request ''h'') control_plane))))
      = (if starts_with uri ''/u/00000000-0000-0000-0000-000000000000/'' then 200 else 403)" for uri
    using granted [of "workspace_request ''st'' uri"] sample_login_hyps(4) url
    by (simp add: sample_env_def login_request_def workspace_request_def admin_request_def op_clock_def
        session_ttl_def)
  then show ?thesis by simp
qed

section \<open>Logging out\<close>

text \<open>The routes that need a session.\<close>

definition session_route :: "route \<Rightarrow> bool" where
  "session_route r \<longleftrightarrow>
     \<not> login_route r \<and> \<not> developer_route r \<and> r \<notin> {Login_Page, Admin_Page, Health}"

lemma no_session_refused:
  assumes "current_session cfg env req p = (Inl (Refused 401 problem hs), p)" and "session_route (rq_route req)"
  shows "an_status (fst (serve cfg env req p)) = 401 \<and> snd (serve cfg env req p) = p"
proof -
  have admin: "admin_session cfg env req p = (Inl (Refused 401 problem hs), p)"
    using assms(1) by (simp add: admin_session_def andthen_def)
  then have "admin_user cfg env req p = (Inl (Refused 401 problem hs), p)"
      "csrf_admin cfg env req p = (Inl (Refused 401 problem hs), p)"
    by (simp_all add: admin_user_def csrf_admin_def andthen_def)
  then have "dispatch_route cfg env req p = (Inl (Refused 401 problem hs), p)"
    using assms unfolding session_route_def login_route_def developer_route_def
    by (cases "rq_route req")
      (simp_all add: dispatch_route_def forward_auth_def logout_def list_users_def create_user_def
        update_user_def revoke_sessions_def rotate_user_token_def show_headers_def update_header_def
        admin_extensions_def add_extension_def show_extension_requests_def approve_extension_def
        grant_quota_def show_jobs_def admin_cancel_def show_audit_def andthen_def)
  then show ?thesis by (simp add: serve_def secured_def answer_with_def)
qed

text \<open>Logging out ends the session: a logout that is answered with success deletes the cookie, and from
  then on every request that needs a session and still carries the old cookie is refused as
  unauthenticated, at whatever time, and changes nothing.\<close>

theorem logout_ends_session:
  assumes "rq_route req = Logout" and "rq_cookie req = Some token"
    and "serve cfg env req p = (a, p')" and "an_status a = 200"
    and "rq_cookie later = Some token" and "session_route (rq_route later)"
  shows "an_cookie a = Some (Delete_Session (cf_secure_cookies cfg))
    \<and> an_status (fst (serve cfg later_env later p')) = 401 \<and> snd (serve cfg later_env later p') = p'"
proof -
  let ?out = "snd (revoke_session_token (cf_token_hash cfg) token (pl_db p))"
  have "token \<noteq> []" and a: "an_cookie a = Some (Delete_Session (cf_secure_cookies cfg))" "p' = p\<lparr>pl_db := ?out\<rparr>"
    using assms(1-4)
    by (auto simp: serve_def dispatch_route_def logout_def andthen_def current_session_def secured_def
        answer_with_def split: if_splits option.splits)
  moreover have "get_session_user (cf_token_hash cfg) now token ?out = None" for now
    by (rule get_session_user_absent) (auto simp: revoke_session_token_def Let_def)
  ultimately have "current_session cfg later_env later p' = (Inl (Refused 401 (Message ''invalid session'') []), p')"
    using assms(5) by (simp add: current_session_run)
  from no_session_refused [OF this assms(6)] a(1) show ?thesis by simp
qed

theorem logout_ends_session_witness:
  "an_status (fst (serve sample_config (sample_env 6) (admin_request List_Users)
      (snd (serve sample_config (sample_env 5) (admin_request Logout) control_plane)))) = 401"
proof -
  have "an_status (fst (serve sample_config (sample_env 5) (admin_request Logout) control_plane)) = 200"
    by (simp add: serve_simps sample_simps logout_def)
  from logout_ends_session [OF _ _ surjective_pairing this, of "''k''" "admin_request List_Users"]
  show ?thesis by (simp add: admin_request_def session_route_def login_route_def developer_route_def)
qed

section \<open>Guessing a password\<close>

text \<open>A developer login for \<open>name\<close> from \<open>source\<close> that the credentials of \<open>s\<close> do not admit.\<close>

definition wrong_guess :: "app_config \<Rightarrow> string \<Rightarrow> string \<Rightarrow> db \<Rightarrow> http_request \<Rightarrow> bool" where
  "wrong_guess cfg name source s req \<longleftrightarrow>
     (case rq_route req of
        Developer_Login n password \<Rightarrow>
          n = name \<and> login_source req = source
          \<and> (case get_user_by_username s name of None \<Rightarrow> True | Some u \<Rightarrow> \<not> credentials_ok cfg Developer password u)
      | _ \<Rightarrow> False)"

definition guess_times :: "(app_env \<times> http_request) list \<Rightarrow> stamp list" where
  "guess_times guesses = map (\<lambda>(env, _). op_clock env 0) guesses"

lemma record_all_users [simp]: "users (record_all a b c ts s) = users s"
  by (induction ts rule: rev_induct) (simp_all add: record_all_def record_login_failure_def)

lemma wrong_guess_record_all [simp]:
  "wrong_guess cfg name source (record_all a b c ts s) = wrong_guess cfg name source s"
  by (simp add: wrong_guess_def fun_eq_iff get_user_by_username_def split: route.splits)

lemma serve_all_append: "serve_all cfg (xs @ ys) p = serve_all cfg ys (serve_all cfg xs p)"
  by (induction cfg xs p rule: serve_all.induct) auto

lemma wrong_guess_served:
  assumes "wrong_guess cfg name source (pl_db p) req"
    and "login_retry_after (e_clock env 0) ''developer'' name source (pl_db p) = 0"
  shows "snd (serve cfg env req p)
    = p\<lparr>pl_db := record_login_failure (op_clock env 0) ''developer'' name source (pl_db p)\<rparr>"
proof -
  from assms(1) obtain password where route: "rq_route req = Developer_Login name password"
    and src: "login_source req = source"
    and wrong: "\<And>u. get_user_by_username (pl_db p) name = Some u \<Longrightarrow> \<not> credentials_ok cfg Developer password u"
    by (cases "rq_route req") (auto simp: wrong_guess_def split: option.splits)
  show ?thesis
    unfolding serve_state
    by (simp add: dispatch_route_def route developer_login_def src andthen_def
        authenticate_wrong [OF assms(2) wrong])
qed

lemma early_guesses_recorded:
  assumes "length guesses \<le> 5"
    and "\<forall>(env, req) \<in> set guesses. wrong_guess cfg name source (pl_db p) req"
    and "\<forall>t \<in> set (guess_times guesses). t - hd (guess_times guesses) < login_window"
    and "failure_row (pl_db p) ''developer'' name source = None"
  shows "serve_all cfg guesses p
    = p\<lparr>pl_db := record_all ''developer'' name source (guess_times guesses) (pl_db p)\<rparr>"
  using assms(1-3)
proof (induction guesses rule: rev_induct)
  case (snoc guess earlier)
  obtain env req where guess: "guess = (env, req)" by fastforce
  let ?ts = "guess_times earlier"
  let ?s = "record_all ''developer'' name source ?ts (pl_db p)"
  have window: "\<forall>t \<in> set ?ts. t - hd ?ts < login_window"
    using snoc.prems(3) by (cases earlier) (auto simp: guess_times_def)
  then have before: "serve_all cfg earlier p = p\<lparr>pl_db := ?s\<rparr>"
    using snoc by auto
  have "login_retry_after (e_clock env 0) ''developer'' name source ?s = 0"
  proof (cases "?ts = []")
    case True
    with assms(4) show ?thesis by (simp add: login_retry_after_def record_all_def)
  next
    case False
    have "length ?ts < 5" using snoc.prems(1) by (simp add: guess_times_def)
    with failure_row_all [OF False window assms(4)] show ?thesis
      by (simp add: login_retry_after_def)
  qed
  moreover have "wrong_guess cfg name source (pl_db (p\<lparr>pl_db := ?s\<rparr>)) req"
    using snoc.prems(2) guess by simp
  ultimately have "snd (serve cfg env req (p\<lparr>pl_db := ?s\<rparr>))
      = p\<lparr>pl_db := record_login_failure (op_clock env 0) ''developer'' name source ?s\<rparr>"
    using wrong_guess_served [of cfg name source "p\<lparr>pl_db := ?s\<rparr>" req env] by simp
  then show ?case
    using before by (simp add: serve_all_append guess guess_times_def record_all_def)
qed (simp add: guess_times_def record_all_def)

text \<open>After five wrong passwords for one name from one address within fifteen minutes, every further
  login for that name from that address is refused with status 429 for fifteen minutes from the last
  one, even with the right password, and changes nothing; the answer names the seconds to wait, at most
  900.\<close>

theorem guesses_blocked:
  assumes "length guesses = 5" and "\<forall>(env, req) \<in> set guesses. wrong_guess cfg name source (pl_db p) req"
    and "\<forall>t \<in> set (guess_times guesses). t - hd (guess_times guesses) < login_window"
    and "failure_row (pl_db p) ''developer'' name source = None"
    and "rq_route req = Developer_Login name password" and "login_source req = source"
    and "last (guess_times guesses) \<le> e_clock env 0"
    and "e_clock env 0 < last (guess_times guesses) + login_window"
  shows "an_status (fst (serve cfg env req (serve_all cfg guesses p))) = 429
    \<and> snd (serve cfg env req (serve_all cfg guesses p)) = serve_all cfg guesses p
    \<and> (\<exists>n. 1 \<le> n \<and> n \<le> 900
         \<and> (''Retry-After'', int_text n) \<in> set (an_headers (fst (serve cfg env req (serve_all cfg guesses p)))))"
proof -
  let ?ts = "guess_times guesses"
  let ?s = "record_all ''developer'' name source ?ts (pl_db p)"
  let ?n = "login_retry_after (e_clock env 0) ''developer'' name source ?s"
  have all: "serve_all cfg guesses p = p\<lparr>pl_db := ?s\<rparr>"
    by (rule early_guesses_recorded) (use assms(1-4) in auto)
  have ts: "?ts \<noteq> []" "length ?ts = 5" using assms(1) by (auto simp: guess_times_def)
  define d where "d = last ?ts + login_window - e_clock env 0"
  have d: "0 < d" "d \<le> 900 * second" using assms(7,8) by (simp_all add: d_def login_window_def second_def)
  have "?n = ceil_seconds d"
    using failure_row_all [OF ts(1) assms(3,4)] ts(2) retry_seconds [of d] d(1)
    by (simp add: login_retry_after_def d_def [symmetric] Let_def)
  moreover have "1 \<le> ceil_seconds d" "ceil_seconds d \<le> 900"
    using d by (simp_all add: ceil_seconds_def second_def)
  ultimately have n: "1 \<le> ?n" "?n \<le> 900" by simp_all
  then have "?n \<noteq> 0" by simp
  then have "serve cfg env req (p\<lparr>pl_db := ?s\<rparr>)
      = (secured ((answer_with 429 (Problem (Message ''too many login attempts'')))
           \<lparr>an_headers := [(''Retry-After'', int_text ?n)]\<rparr>), p\<lparr>pl_db := ?s\<rparr>)"
    using authenticate_blocked [of env "''developer''" name source "p\<lparr>pl_db := ?s\<rparr>"] assms(6)
    by (simp add: serve_def dispatch_route_def assms(5) developer_login_def andthen_def)
  with n show ?thesis unfolding all by (auto simp: secured_def answer_with_def)
qed

theorem guesses_blocked_witness:
  "an_status (fst (serve sample_config (sample_env 9) (login_request ''h'')
     (serve_all sample_config
        [(sample_env 1, login_request ''a''), (sample_env 2, login_request ''b''), (sample_env 3, login_request ''c''),
         (sample_env 4, login_request ''d''), (sample_env 5, login_request ''e'')] control_plane))) = 429"
proof -
  let ?guesses = "[(sample_env 1, login_request ''a''), (sample_env 2, login_request ''b''),
      (sample_env 3, login_request ''c''), (sample_env 4, login_request ''d''), (sample_env 5, login_request ''e'')]"
  have wrong: "\<forall>(env, req) \<in> set ?guesses. wrong_guess sample_config ''d'' ''::1'' (pl_db control_plane) req"
    using sample_login_hyps(1)
    by (simp add: wrong_guess_def login_request_def admin_request_def login_source_def credentials_ok_def
        sample_config_def dev_user_def root_user_def)
  have none: "failure_row (pl_db control_plane) ''developer'' ''d'' ''::1'' = None"
    by (simp add: failure_row_def sample_simps)
  show ?thesis
    by (rule guesses_blocked [OF _ wrong, where password = "''h''",
          THEN conjunct1])
      (use none in \<open>simp_all add: guess_times_def op_clock_def login_request_def admin_request_def login_source_def sample_env_def
        login_window_def second_def\<close>)
qed

section \<open>Errors nobody catches\<close>

lemma developer_user_db:
  assumes "developer_user cfg req p = (Inr u, p)" and "users (pl_db q) = users (pl_db p)"
  shows "developer_user cfg req q = (Inr u, q)"
  using assms
  by (auto simp: developer_user_def get_user_by_api_token_def split: option.splits if_splits)

lemma ask_extension_run:
  assumes "developer_user cfg req p = (Inr u, p)" and "0 < cid" and "cid < 2 ^ 63"
  shows "ask_extension cfg env cid req p =
    (case request_extension (op_clock env 0) (u_id u) cid (pl_db p) of
       Inl e \<Rightarrow> (case unknown_extension (Crashed e) p of (Inl r, q) \<Rightarrow> (Inl r, q)
                 | (Inr row, q) \<Rightarrow> (Inr (answer_with 201 (Request_Row row)), q))
     | Inr (row, s) \<Rightarrow> (Inr (answer_with 201 (Request_Row row)), p\<lparr>pl_db := s\<rparr>))"
  using assms
  by (simp add: ask_extension_def andthen_def valid_body_def bindable_def catching_def on_db_def
      split: sum.split prod.split)

lemma request_pending:
  assumes "request_extension now uid cid s = Inr (row, s')"
  shows "request_extension later uid cid s' = Inl (IntegrityError ''UNIQUE constraint failed: extension_requests'')"
proof -
  have found: "select_where (\<lambda>x. x_id x = cid \<and> x_enabled x) (extension_catalog s') \<noteq> []"
      "find (\<lambda>u. u_id u = uid) (t_rows (users s')) \<noteq> None"
    using assms by (auto simp: request_extension_def Let_def split: if_splits prod.splits)
  have "\<exists>r \<in> set (t_rows (extension_requests s')). request_clash uid cid Pending r"
    using assms
    by (auto simp: request_extension_def Let_def request_clash_def insert_row_def split: if_splits)
  with found show ?thesis by (simp add: request_extension_def)
qed

text \<open>A developer who asks for the same extension again while his request is pending gets an internal
  server error: the handler catches only \<open>LookupError\<close>, not the violated UNIQUE constraint. Nothing is
  changed by the second request.\<close>

theorem repeated_request_crashes:
  assumes "rq_route req = Request_Extension cid" and "developer_user cfg req p = (Inr u, p)"
    and "cid < 2 ^ 63" and "serve cfg env req p = (a, p')" and "an_status a = 201"
  shows "serve cfg later_env req p' = (answer_with 500 (Problem Internal_Error), p')"
proof -
  have cid: "0 < cid"
    using assms(1,2,4,5)
    by (auto simp: serve_def dispatch_route_def ask_extension_def andthen_def valid_body_def secured_def
        answer_with_def split: if_splits)
  note run = ask_extension_run [OF assms(2) cid assms(3)]
  obtain row s where req: "request_extension (op_clock env 0) (u_id u) cid (pl_db p) = Inr (row, s)"
    and p': "p' = p\<lparr>pl_db := s\<rparr>"
    using assms(1,4,5)
    by (auto simp: serve_def dispatch_route_def run unknown_extension_def secured_def answer_with_def
        split: sum.splits py_error.splits)
  have "users s = users (pl_db p)" using extension_ops_same(2) [OF req] by (simp add: same_accounts_def)
  then have "developer_user cfg req p' = (Inr u, p')"
    using developer_user_db [OF assms(2), of p'] p' by simp
  from ask_extension_run [OF this cid assms(3), of later_env] show ?thesis
    using assms(1) request_pending [OF req] p'
    by (simp add: serve_def dispatch_route_def unknown_extension_def)
qed

definition catalog_plane :: plane where
  "catalog_plane = control_plane\<lparr>pl_db := control_db\<lparr>extension_catalog :=
     \<lparr>t_rows = [\<lparr>x_id = 1, x_extension_id = ''a.b'', x_version = ''1.0.0'', x_sha256 = ''0'',
        x_enabled = True, x_created_at = 0\<rparr>], t_seq = 1\<rparr>\<rparr>\<rparr>"

lemma catalog_developer:
  "developer_user sample_config (developer_request r) catalog_plane = (Inr dev_user, catalog_plane)"
proof -
  have "strip (drop 7 ''Bearer t'') = ''t''" by code_simp
  then show ?thesis
    by (simp add: developer_user_def sample_simps catalog_plane_def get_user_by_api_token_def select_where_def)
qed

theorem repeated_request_crashes_witness:
  "an_status (fst (serve sample_config (sample_env 6) (developer_request (Request_Extension 1))
     (snd (serve sample_config (sample_env 5) (developer_request (Request_Extension 1)) catalog_plane)))) = 500"
proof -
  have route: "rq_route (developer_request (Request_Extension 1)) = Request_Extension 1"
    by (simp add: developer_request_def)
  have "an_status (fst (serve sample_config (sample_env 5) (developer_request (Request_Extension 1)) catalog_plane)) = 201"
    using ask_extension_run [OF catalog_developer [of "Request_Extension 1"], of 1 "sample_env 5"]
    by (simp add: serve_def dispatch_route_def route secured_def answer_with_def request_extension_def
        select_where_def catalog_plane_def sample_simps insert_row_def)
  from repeated_request_crashes [OF route catalog_developer _ surjective_pairing this, where later_env = "sample_env 6"]
  show ?thesis by (simp add: answer_with_def)
qed

text \<open>A job number beyond 64 bits in the address of a job makes the server fail with an internal error
  instead of "job not found": the integer cannot be bound to the SQL statement.\<close>

theorem oversized_job_id_crashes:
  assumes "rq_route req \<in> {Get_Job i, Cancel_Job i}" and "developer_user cfg req p = (Inr u, p)"
    and "2 ^ 63 \<le> i"
  shows "serve cfg env req p = (answer_with 500 (Problem Internal_Error), p)"
  using assms
  by (auto simp: serve_def dispatch_route_def show_job_def withdraw_job_def andthen_def bindable_def)

theorem oversized_job_id_crashes_witness:
  "an_status (fst (serve sample_config (sample_env 5) (developer_request (Get_Job (10 ^ 20))) catalog_plane)) = 500"
  using oversized_job_id_crashes [OF _ catalog_developer [of "Get_Job (10 ^ 20)"], where i = "10 ^ 20"
      and env = "sample_env 5"]
  by (simp add: developer_request_def answer_with_def)

end
