(* ===== verification/Sandbox_Command.thy ===== *)
theory Sandbox_Command
  imports Runner
begin

text \<open>
  What the sandboxed runner asks of the system around a program: the bubblewrap command lines of the
  compiler and of a test case, the resource limits set in the child, and the reading of the peak memory
  from \<open>/proc/<pid>/status\<close>. \<open>exists\<close> tells which paths exist on the host.
\<close>

section \<open>Command lines\<close>

text \<open>The command of the one approved compiler, and how the local runner calls it.\<close>

definition compiler_command :: "string list" where
  "compiler_command = [''/usr/bin/g++'', ''-std=gnu++17'', ''-O2'', ''-pipe'', ''-DONLINE_JUDGE'']"

definition local_compile_command :: "string \<Rightarrow> string \<Rightarrow> string list" where
  "local_compile_command source binary = compiler_command @ [source, ''-o'', binary]"

definition base_bwrap_command :: "(string \<Rightarrow> bool) \<Rightarrow> string list" where
  "base_bwrap_command exists =
     [''--die-with-parent'', ''--new-session'', ''--unshare-user'', ''--unshare-pid'', ''--unshare-net'',
      ''--unshare-ipc'', ''--unshare-uts'', ''--cap-drop'', ''ALL'', ''--clearenv'',
      ''--setenv'', ''PATH'', ''/usr/bin'', ''--setenv'', ''HOME'', ''/tmp'', ''--ro-bind'', ''/usr'', ''/usr'']
     @ concat (map (\<lambda>system_path. if exists system_path then [''--ro-bind'', system_path, system_path] else [])
         [''/lib'', ''/lib64''])
     @ [''--proc'', ''/proc'', ''--dev'', ''/dev'', ''--tmpfs'', ''/tmp'', ''--tmpfs'', ''/run'']"

definition sandbox_compile_command ::
    "(string \<Rightarrow> bool) \<Rightarrow> string \<Rightarrow> string \<Rightarrow> string list" where
  "sandbox_compile_command exists bwrap job_dir =
     bwrap # base_bwrap_command exists
     @ [''--bind'', job_dir, ''/work'', ''--chdir'', ''/work'', ''--'']
     @ compiler_command @ [''source.cpp'', ''-o'', ''main'']"

definition sandbox_run_command :: "(string \<Rightarrow> bool) \<Rightarrow> string \<Rightarrow> string \<Rightarrow> string \<Rightarrow> string list" where
  "sandbox_run_command exists bwrap binary sandbox_exec =
     bwrap # base_bwrap_command exists
     @ [''--dir'', ''/app'', ''--ro-bind'', binary, ''/app/main'', ''--ro-bind'', sandbox_exec, ''/sandbox-exec'',
        ''--chdir'', ''/tmp'', ''--'', ''/sandbox-exec'', ''/app/main'']"

section \<open>Resource limits\<close>

definition output_file_limit :: "runner_limits \<Rightarrow> int" where
  "output_file_limit lim = max (rl_stdout_limit_bytes lim) (rl_stderr_limit_bytes lim) + 65536"

text \<open>Name, soft and hard limit.\<close>

definition limit_process :: "int \<Rightarrow> int \<Rightarrow> (string \<times> int \<times> int) list" where
  "limit_process memory_mib file_limit =
     (let memory = memory_mib * 1024 * 1024
      in [(''RLIMIT_AS'', memory, memory), (''RLIMIT_CORE'', 0, 0),
          (''RLIMIT_FSIZE'', file_limit, file_limit), (''RLIMIT_NOFILE'', 32, 32)])"

section \<open>Peak memory\<close>

text \<open>\<open>int(s)\<close>: blanks around, a sign, and single underscores between digits are allowed.\<close>

definition py_int :: "string \<Rightarrow> int result" where
  "py_int s =
     (let t = strip s;
          signed = t \<noteq> [] \<and> (hd t = CHR ''-'' \<or> hd t = CHR ''+'');
          parts = split_on CHR ''_'' (if signed then tl t else t);
          value = int (digits_value (concat parts))
      in if list_all (\<lambda>w. w \<noteq> [] \<and> list_all is_digit w) parts
         then Inr (if signed \<and> hd t = CHR ''-'' then - value else value)
         else Inl (ValueError ''invalid literal for int() with base 10''))"

text \<open>The inner loop: the second word of the first line that starts with the key.\<close>

fun status_field :: "string \<Rightarrow> string list \<Rightarrow> int option result" where
  "status_field key [] = Inr None"
| "status_field key (line # lines) =
     (if starts_with line key then
        (case words_of line of
           _ # w # _ \<Rightarrow> map_sum id Some (py_int w)
         | _ \<Rightarrow> Inl (LookupError ''list index out of range''))
      else status_field key lines)"

text \<open>\<open>None\<close> for a process whose status file is gone or unreadable.\<close>

definition peak_rss_kib :: "string option \<Rightarrow> int option result" where
  "peak_rss_kib status_text =
     (case status_text of
        None \<Rightarrow> Inr None
      | Some text \<Rightarrow>
          bind_result (status_field ''VmHWM:'' (lines_of text)) (\<lambda>high.
            case high of Some v \<Rightarrow> Inr (Some v) | None \<Rightarrow> status_field ''VmRSS:'' (lines_of text)))"

section \<open>What a program can reach\<close>

text \<open>The options of a bubblewrap command line up to \<open>--\<close>, each with its arguments.\<close>

definition option_arity :: "string \<Rightarrow> nat" where
  "option_arity name =
     (if name \<in> {''--ro-bind'', ''--bind'', ''--setenv''} then 2
      else if name \<in> {''--cap-drop'', ''--proc'', ''--dev'', ''--tmpfs'', ''--dir'', ''--chdir''} then 1
      else 0)"

function read_options :: "string list \<Rightarrow> (string \<times> string list) list" where
  "read_options [] = []"
| "read_options (name # rest) =
     (if name = ''--'' then []
      else (name, take (option_arity name) rest) # read_options (drop (option_arity name) rest))"
  by pat_completeness auto
termination by (relation "measure length") auto

definition host_paths :: "string \<Rightarrow> string list \<Rightarrow> string set" where
  "host_paths name command = {hd args | args. (name, args) \<in> set (read_options (tl command)) \<and> args \<noteq> []}"

lemma base_options:
  "read_options (base_bwrap_command exists @ rest) =
     [(''--die-with-parent'', []), (''--new-session'', []), (''--unshare-user'', []), (''--unshare-pid'', []),
      (''--unshare-net'', []), (''--unshare-ipc'', []), (''--unshare-uts'', []), (''--cap-drop'', [''ALL'']),
      (''--clearenv'', []), (''--setenv'', [''PATH'', ''/usr/bin'']), (''--setenv'', [''HOME'', ''/tmp'']),
      (''--ro-bind'', [''/usr'', ''/usr''])]
     @ (if exists ''/lib'' then [(''--ro-bind'', [''/lib'', ''/lib''])] else [])
     @ (if exists ''/lib64'' then [(''--ro-bind'', [''/lib64'', ''/lib64''])] else [])
     @ [(''--proc'', [''/proc'']), (''--dev'', [''/dev'']), (''--tmpfs'', [''/tmp'']), (''--tmpfs'', [''/run''])]
     @ read_options rest"
  by (simp add: base_bwrap_command_def option_arity_def)


text \<open>The high-water mark is preferred to the current size, in whatever order the kernel prints them.\<close>

lemma high_water_mark_first:
  assumes "status_field ''VmHWM:'' (lines_of text) = Inr (Some v)"
  shows "peak_rss_kib (Some text) = Inr (Some v)"
  using assms by (simp add: peak_rss_kib_def)

lemma peak_rss_sample:
  "peak_rss_kib (Some (''VmRSS:  80 kB'' @ [nl] @ ''VmHWM:  123 kB'')) = Inr (Some 123)"
  by code_simp

end
