(* ===== verification/Gateway.thy ===== *)
theory Gateway
  imports Effects Uuid "HOL-Library.Multiset"
begin

text \<open>
  The Caddy configuration of \<open>gateway_config.py\<close>: the validated pairs of a developer's public id and the
  port of his editor, and the text that is rendered from them. A reader of the text, independent of the
  renderer, states what the configuration routes.
\<close>

section \<open>Gateway users\<close>

record gateway_user =
  gw_public_id :: string
  gw_port :: int

definition INSTANCE_PORTS :: "int list" where
  "INSTANCE_PORTS = [9101, 9102, 9103]"

definition make_gateway_user :: "string \<Rightarrow> int \<Rightarrow> gateway_user result" where
  "make_gateway_user public_id port =
     (if \<not> canonical_uuid public_id then Inl (ValueError ''instance identifier must be a canonical UUID'')
      else if port \<notin> set INSTANCE_PORTS
        then Inl (ValueError ''code-server port must be one of 9101, 9102, or 9103'')
      else Inr \<lparr>gw_public_id = public_id, gw_port = port\<rparr>)"

section \<open>The configuration\<close>

definition user_prefix :: "gateway_user \<Rightarrow> string" where
  "user_prefix u = ''/u/'' @ gw_public_id u"

definition user_block :: "gateway_user \<Rightarrow> string list" where
  "user_block u =
     [''    redir '' @ user_prefix u @ '' '' @ user_prefix u @ ''/ 308'',
      ''    handle '' @ user_prefix u @ ''/* {'',
      ''        forward_auth 127.0.0.1:9000 {'',
      ''            uri /api/auth/forward'',
      ''            copy_headers X-Remote-User'',
      ''        }'',
      ''        uri strip_prefix '' @ user_prefix u,
      ''        reverse_proxy 127.0.0.1:'' @ int_text (gw_port u),
      ''    }'',
      []]"

definition caddy_head :: "string list" where
  "caddy_head =
     [''{'', ''    admin off'', ''    auto_https off'', ''}'', [],
      ''127.0.0.1:9080 {'', ''    bind 127.0.0.1'']"

definition caddy_tail :: "string list" where
  "caddy_tail = [''    handle {'', ''        reverse_proxy 127.0.0.1:9000'', ''    }'', ''}'', []]"

definition caddy_lines :: "gateway_user list \<Rightarrow> string list" where
  "caddy_lines users = caddy_head @ concat (map user_block (sort_key gw_public_id users)) @ caddy_tail"

definition render_caddyfile :: "gateway_user list \<Rightarrow> string result" where
  "render_caddyfile users =
     (if \<not> distinct (map gw_public_id users) \<or> \<not> distinct (map gw_port users)
      then Inl (ValueError ''duplicate instance UUID or port'')
      else Inr (join_on nl (caddy_lines users)))"

section \<open>What the text routes\<close>

text \<open>
  A reader: a site is a \<open>handle\<close> block for a path; its requests go to the first \<open>reverse_proxy\<close> that
  follows, and \<open>guarded\<close> tells whether a \<open>forward_auth\<close> to the control plane comes before it.
\<close>

definition after :: "string \<Rightarrow> string \<Rightarrow> string option" where
  "after p s = (if starts_with s p then Some (drop (length p) s) else None)"

fun read_site :: "string \<Rightarrow> bool \<Rightarrow> string list \<Rightarrow> (string \<times> bool \<times> string) list" where
  "read_site path guarded [] = []"
| "read_site path guarded (line # lines) =
     (case after ''    handle '' line of
        Some p \<Rightarrow> read_site p False lines
      | None \<Rightarrow>
          (case after ''        reverse_proxy '' line of
             Some upstream \<Rightarrow> (path, guarded, upstream) # read_site path False lines
           | None \<Rightarrow> read_site path (guarded \<or> line = ''        forward_auth 127.0.0.1:9000 {'') lines))"

definition caddy_routes :: "string \<Rightarrow> (string \<times> bool \<times> string) list" where
  "caddy_routes text = read_site [] False (split_on nl text)"

definition user_route :: "gateway_user \<Rightarrow> string \<times> bool \<times> string" where
  "user_route u = (user_prefix u @ ''/* {'', True, ''127.0.0.1:'' @ int_text (gw_port u))"

lemma after_append [simp]: "after p (p @ s) = Some s"
  by (simp add: after_def)

lemma read_block: "read_site path guarded (user_block u @ rest) = user_route u # read_site (user_prefix u @ ''/* {'') False rest"
  by (simp add: user_block_def user_route_def after_def)

lemma read_blocks:
  "read_site path guarded (concat (map user_block us) @ caddy_tail)
     = map user_route us @ [(''{'', False, ''127.0.0.1:9000'')]"
proof (induction us arbitrary: path guarded)
  case Nil
  show ?case by (simp add: caddy_tail_def after_def)
next
  case (Cons u us)
  then show ?case by (simp add: read_block)
qed

text \<open>Users as \<open>make_gateway_user\<close> accepts them.\<close>

definition valid_user :: "gateway_user \<Rightarrow> bool" where
  "valid_user u \<longleftrightarrow> make_gateway_user (gw_public_id u) (gw_port u) = Inr u"

lemma valid_user_iff: "valid_user u \<longleftrightarrow> canonical_uuid (gw_public_id u) \<and> gw_port u \<in> set INSTANCE_PORTS"
  by (cases u) (simp add: valid_user_def make_gateway_user_def)

lemma dash_and_hex_plain: "c = CHR ''-'' \<or> lower_hex c \<Longrightarrow> c \<noteq> nl"
  by (auto simp: lower_hex_def)

lemma canonical_no_nl: "canonical_uuid v \<Longrightarrow> nl \<notin> set v"
  using canonical_uuid_chars dash_and_hex_plain by blast

lemma port_text_no_nl: "p \<in> set INSTANCE_PORTS \<Longrightarrow> nl \<notin> set (int_text p)"
proof
  assume "p \<in> set INSTANCE_PORTS" and "nl \<in> set (int_text p)"
  moreover from this have "0 \<le> p" by (auto simp: INSTANCE_PORTS_def)
  ultimately have "is_digit nl" by (blast intro: int_text_digits)
  then show False by (simp add: is_digit_def)
qed

lemma caddy_lines_no_nl:
  assumes "\<forall>u \<in> set users. valid_user u" and "line \<in> set (caddy_lines users)"
  shows "nl \<notin> set line"
proof -
  from assms(2) have "line \<in> set caddy_head \<or> line \<in> set caddy_tail \<or> (\<exists>u \<in> set users. line \<in> set (user_block u))"
    by (auto simp: caddy_lines_def)
  then show ?thesis
  proof (elim disjE bexE)
    fix u assume u: "u \<in> set users" and line: "line \<in> set (user_block u)"
    from assms(1) u have "nl \<notin> set (gw_public_id u)" "nl \<notin> set (int_text (gw_port u))"
      by (simp_all add: valid_user_iff canonical_no_nl port_text_no_nl)
    with line show ?thesis by (auto simp: user_block_def user_prefix_def)
  qed (auto simp: caddy_head_def caddy_tail_def)
qed

lemma caddy_lines_nonempty: "caddy_lines users \<noteq> []"
  by (simp add: caddy_lines_def caddy_head_def)

lemma read_head: "read_site path guarded (caddy_head @ rest) = read_site path guarded rest"
  by (simp add: caddy_head_def after_def)

lemma rendered_routes:
  assumes "\<forall>u \<in> set users. valid_user u" and "render_caddyfile users = Inr text"
  shows "caddy_routes text = map user_route (sort_key gw_public_id users) @ [(''{'', False, ''127.0.0.1:9000'')]"
proof -
  from assms(2) have "text = join_on nl (caddy_lines users)"
    by (simp add: render_caddyfile_def split: if_splits)
  with caddy_lines_no_nl [OF assms(1)] have "split_on nl text = caddy_lines users"
    by (simp add: split_join_on caddy_lines_nonempty)
  then show ?thesis
    by (simp add: caddy_routes_def caddy_lines_def read_head read_blocks)
qed

lemma user_route_inject:
  assumes "valid_user u" and "valid_user v" and "user_route u = user_route v"
  shows "u = v"
proof -
  from assms have "0 \<le> gw_port u" "0 \<le> gw_port v" by (auto simp: valid_user_iff INSTANCE_PORTS_def)
  with assms(3) have "gw_public_id u = gw_public_id v" "gw_port u = gw_port v"
    by (simp_all add: user_route_def user_prefix_def int_text_inject_pos)
  then show ?thesis by simp
qed

text \<open>What the rendered configuration routes: for every instance the requests below its prefix
  \<open>/u/<id>/\<close> go to the port of that instance, after the control plane has authorised them, and every other
  request goes to the control plane itself. There is no other route.\<close>

theorem caddyfile_routes:
  assumes "\<forall>u \<in> set users. valid_user u" and "render_caddyfile users = Inr text"
  shows "set (caddy_routes text) =
      {(''/u/'' @ gw_public_id u @ ''/* {'', True, ''127.0.0.1:'' @ int_text (gw_port u)) |u. u \<in> set users}
      \<union> {(''{'', False, ''127.0.0.1:9000'')}"
  unfolding rendered_routes [OF assms] by (auto simp: user_route_def user_prefix_def)

definition sample_user :: gateway_user where
  "sample_user = \<lparr>gw_public_id = ''00000000-0000-0000-0000-000000000000'', gw_port = 9101\<rparr>"

lemma sample_user_valid: "valid_user sample_user"
proof -
  have "canonical_uuid ''00000000-0000-0000-0000-000000000000''"
    by (rule canonical_shape_uuid) code_simp
  then show ?thesis by (simp add: valid_user_iff sample_user_def INSTANCE_PORTS_def)
qed

theorem caddyfile_routes_witness:
  "\<exists>text. render_caddyfile [sample_user] = Inr text
     \<and> (''/u/00000000-0000-0000-0000-000000000000/* {'', True, ''127.0.0.1:'' @ int_text 9101) \<in> set (caddy_routes text)"
proof -
  obtain t where t: "render_caddyfile [sample_user] = Inr t" by (simp add: render_caddyfile_def)
  from caddyfile_routes [OF _ t] sample_user_valid
  have "(''/u/00000000-0000-0000-0000-000000000000/* {'', True, ''127.0.0.1:'' @ int_text 9101) \<in> set (caddy_routes t)"
    by (simp add: sample_user_def)
  with t show ?thesis by blast
qed

text \<open>The configuration text determines the mapping of instances to ports and nothing else: two lists of
  valid users without duplicates are rendered to the same text exactly when they hold the same users, in
  whatever order. So comparing texts, as the bootstrap verification does, compares mappings.\<close>

theorem caddyfile_determines_mapping:
  assumes "\<forall>u \<in> set us. valid_user u" and "\<forall>v \<in> set vs. valid_user v"
    and "distinct (map gw_public_id us)" and "distinct (map gw_port us)"
    and "distinct (map gw_public_id vs)" and "distinct (map gw_port vs)"
  shows "render_caddyfile us = render_caddyfile vs \<longleftrightarrow> mset us = mset vs"
proof
  from assms obtain t where t: "render_caddyfile us = Inr t" by (simp add: render_caddyfile_def)
  assume same: "render_caddyfile us = render_caddyfile vs"
  have "map user_route (sort_key gw_public_id us) = map user_route (sort_key gw_public_id vs)"
    using rendered_routes [OF assms(1) t] rendered_routes [OF assms(2), of t] same t by simp
  moreover have "inj_on user_route (set us \<union> set vs)"
    using assms(1,2) user_route_inject by (auto intro!: inj_onI)
  ultimately have "sort_key gw_public_id us = sort_key gw_public_id vs"
    by (auto dest: map_inj_on simp: Un_commute)
  then show "mset us = mset vs" by (metis mset_sort)
next
  assume "mset us = mset vs"
  then have sets: "set us = set vs" by (rule mset_eq_setD)
  have "inj_on gw_public_id (set us)" using assms(3) by (simp add: distinct_map)
  then have "sort_key gw_public_id us = sort_key gw_public_id vs"
    using assms(3,5) sets
    by (intro map_sorted_distinct_set_unique [of gw_public_id]) (auto simp: distinct_map)
  with assms show "render_caddyfile us = render_caddyfile vs"
    by (simp add: render_caddyfile_def caddy_lines_def)
qed

definition second_user :: gateway_user where
  "second_user = \<lparr>gw_public_id = ''11111111-1111-1111-1111-111111111111'', gw_port = 9102\<rparr>"

theorem caddyfile_determines_mapping_witness:
  "render_caddyfile [sample_user, second_user] = render_caddyfile [second_user, sample_user]"
proof -
  have "canonical_uuid ''11111111-1111-1111-1111-111111111111''"
    by (rule canonical_shape_uuid) code_simp
  then have "valid_user second_user" by (simp add: valid_user_iff second_user_def INSTANCE_PORTS_def)
  with sample_user_valid show ?thesis
    using caddyfile_determines_mapping [of "[sample_user, second_user]" "[second_user, sample_user]"]
    by (simp add: add_mset_commute) (simp add: sample_user_def second_user_def)
qed

end
