(* ===== verification/Bootstrap.thy ===== *)
theory Bootstrap
  imports Effects Uuid Db_Accounts Workspace
begin

text \<open>
  The offline bootstrap of a managed instance (\<open>bootstrap_instance\<close> of \<open>cli.py\<close>): the account in the
  database and its credential file are published together, and a run that died half-way is completed by
  the next. The state is the database, the credential directory (entries in listing order) and the
  number of system calls made so far. Each call that changes something may fail (the call has no
  effect and raises), or the process may die just before it: \<open>bw_fault\<close> tells which. Reads do not fail
  otherwise than by what they find.
\<close>

section \<open>Files\<close>

datatype file_kind = Regular_File | Symlink | Special_File

record file_entry =
  fl_kind :: file_kind
  fl_owner :: int
  fl_mode :: int
  fl_text :: string

type_synonym directory = "(string \<times> file_entry) list"

definition entry :: "directory \<Rightarrow> string \<Rightarrow> file_entry option" where
  "entry = map_of"

definition put_text :: "string \<Rightarrow> string \<Rightarrow> directory \<Rightarrow> directory" where
  "put_text name content d = map (\<lambda>(n, f). (n, if n = name then f\<lparr>fl_text := content\<rparr> else f)) d"

definition remove_entry :: "string \<Rightarrow> directory \<Rightarrow> directory" where
  "remove_entry name d = filter (\<lambda>(n, _). n \<noteq> name) d"

section \<open>The process\<close>

text \<open>\<open>Preserved\<close> is an exception that leaves the staging file in place.\<close>

datatype stop =
    Exits string
  | Failed py_error
  | Preserved py_error
  | Killed

datatype fault = Kill | Fault py_error

record bootstrap_world =
  bw_roster :: "string option"
  bw_workspace_root :: string
  bw_image_kind :: "string \<Rightarrow> file_kind option"
  bw_euid :: int
  bw_pid :: int
  bw_token :: string
  bw_clock :: stamp
  bw_hash_password :: "string \<Rightarrow> string"
  bw_token_hash :: "string \<Rightarrow> string"
  bw_fault :: "nat \<Rightarrow> fault option"

record boot =
  bo_db :: db
  bo_files :: directory
  bo_calls :: nat

type_synonym 'a boot_action = "(boot, stop, 'a) effect"

definition looking :: "(boot \<Rightarrow> 'a) \<Rightarrow> 'a boot_action" where
  "looking f s = (Inr (f s), s)"

definition syscall :: "bootstrap_world \<Rightarrow> 'a boot_action \<Rightarrow> 'a boot_action" where
  "syscall w m s =
     (let s' = s\<lparr>bo_calls := Suc (bo_calls s)\<rparr>
      in case bw_fault w (bo_calls s) of
           None \<Rightarrow> m s'
         | Some Kill \<Rightarrow> (Inl Killed, s')
         | Some (Fault e) \<Rightarrow> (Inl (Failed e), s'))"

definition create_file :: "bootstrap_world \<Rightarrow> string \<Rightarrow> unit boot_action" where
  "create_file w name =
     syscall w (\<lambda>s.
       if entry (bo_files s) name \<noteq> None then (Inl (Failed (OsError ''File exists'')), s)
       else (Inr (), s\<lparr>bo_files := bo_files s @
              [(name, \<lparr>fl_kind = Regular_File, fl_owner = bw_euid w, fl_mode = 384, fl_text = []\<rparr>)]\<rparr>))"

definition write_file :: "bootstrap_world \<Rightarrow> string \<Rightarrow> string \<Rightarrow> unit boot_action" where
  "write_file w name content =
     syscall w (\<lambda>s. (Inr (), s\<lparr>bo_files := put_text name content (bo_files s)\<rparr>))"

definition fsync :: "bootstrap_world \<Rightarrow> unit boot_action" where
  "fsync w = syscall w (ret ())"

definition link_file :: "bootstrap_world \<Rightarrow> string \<Rightarrow> string \<Rightarrow> unit boot_action" where
  "link_file w source target =
     syscall w (\<lambda>s.
       case (entry (bo_files s) source, entry (bo_files s) target) of
         (Some f, None) \<Rightarrow> (Inr (), s\<lparr>bo_files := bo_files s @ [(target, f)]\<rparr>)
       | (None, _) \<Rightarrow> (Inl (Failed (OsError ''No such file or directory'')), s)
       | (Some _, Some _) \<Rightarrow> (Inl (Failed (OsError ''File exists'')), s))"

definition unlink :: "bootstrap_world \<Rightarrow> bool \<Rightarrow> string \<Rightarrow> unit boot_action" where
  "unlink w missing_ok name =
     syscall w (\<lambda>s.
       if entry (bo_files s) name = None \<and> \<not> missing_ok
       then (Inl (Failed (OsError ''No such file or directory'')), s)
       else (Inr (), s\<lparr>bo_files := remove_entry name (bo_files s)\<rparr>))"

definition committing :: "bootstrap_world \<Rightarrow> (db \<Rightarrow> ('a \<times> db) result) \<Rightarrow> 'a boot_action" where
  "committing w f =
     syscall w (\<lambda>s. case f (bo_db s) of
                      Inl e \<Rightarrow> (Inl (Failed e), s)
                    | Inr (x, d) \<Rightarrow> (Inr x, s\<lparr>bo_db := d\<rparr>))"

section \<open>Checks\<close>

definition release_instances :: "string option \<Rightarrow> stop + string list" where
  "release_instances roster =
     (case roster of
        None \<Rightarrow> Inl (Exits ''unable to read release instance roster'')
      | Some content \<Rightarrow>
          let instances = lines_of content
          in if \<not> (1 \<le> length instances \<and> length instances \<le> 3) \<or> \<not> distinct instances
             then Inl (Exits ''release instance roster must contain one to three unique UUIDs'')
             else if \<not> list_all canonical_uuid instances
             then Inl (Exits ''release instance roster contains a noncanonical UUID'')
             else Inr instances)"

definition read_safe_credential :: "bootstrap_world \<Rightarrow> string \<Rightarrow> string boot_action" where
  "read_safe_credential w name =
     andthen (looking (\<lambda>s. entry (bo_files s) name)) (\<lambda>found.
       case found of
         None \<Rightarrow> raise (Exits ''developer bootstrap credential is unreadable'')
       | Some f \<Rightarrow>
           if fl_kind f \<noteq> Regular_File \<or> fl_owner f \<noteq> bw_euid w \<or> fl_mode f \<notin> {256, 384}
           then raise (Exits ''developer bootstrap credential is unsafe'')
           else if fl_text f = [] then raise (Exits ''developer bootstrap credential is empty'')
           else ret (fl_text f))"

definition credential_name :: "string \<Rightarrow> string" where
  "credential_name public_id = public_id @ ''.token''"

definition staging_prefix :: "string \<Rightarrow> string" where
  "staging_prefix public_id = ''.'' @ public_id @ ''.token.''"

definition temporary_name :: "bootstrap_world \<Rightarrow> string \<Rightarrow> string" where
  "temporary_name w public_id = staging_prefix public_id @ int_text (bw_pid w)"

text \<open>\<open>credential_dir.glob(f".{public_id}.token.*")\<close>.\<close>

definition staged :: "string \<Rightarrow> directory \<Rightarrow> string list" where
  "staged public_id d = filter (\<lambda>n. starts_with n (staging_prefix public_id)) (map fst d)"

definition checked_token :: "bootstrap_world \<Rightarrow> user_row \<Rightarrow> string \<Rightarrow> string \<Rightarrow> unit boot_action" where
  "checked_token w user name message =
     andthen (read_safe_credential w name) (\<lambda>token.
       if Some (bw_token_hash w token) \<noteq> u_api_token_hash user then raise (Exits message) else ret ())"

section \<open>Completing an earlier run\<close>

definition recover_instance ::
    "bootstrap_world \<Rightarrow> string \<Rightarrow> user_row option \<Rightarrow> user_row option \<Rightarrow> string list \<Rightarrow> user_row boot_action" where
  "recover_instance w public_id existing_public existing_username stages =
     (case (existing_public, existing_username) of
        (Some user, Some named) \<Rightarrow>
          if u_id user \<noteq> u_id named
            \<or> u_workspace_path user \<noteq> Some (image_path (bw_workspace_root w) public_id)
          then raise (Exits ''developer is already configured inconsistently'')
          else if length stages > 1 then raise (Exits ''developer bootstrap recovery state is ambiguous'')
          else
            andthen (looking (\<lambda>s. entry (bo_files s) (credential_name public_id))) (\<lambda>credential.
              if credential \<noteq> None then
                followed
                  (checked_token w user (credential_name public_id)
                     ''developer bootstrap credential does not match database'')
                (followed
                  (case stages of
                     stage # _ \<Rightarrow>
                       followed
                         (checked_token w user stage
                            ''developer bootstrap recovery credential does not match database'')
                         (followed (unlink w False stage) (fsync w))
                   | [] \<Rightarrow> fsync w)
                  (ret user))
              else
                (case stages of
                   [stage] \<Rightarrow>
                     followed
                       (checked_token w user stage
                          ''developer bootstrap recovery credential does not match database'')
                     (followed (link_file w stage (credential_name public_id))
                     (followed (unlink w False stage)
                     (followed (fsync w) (ret user))))
                 | _ \<Rightarrow> raise (Exits ''developer bootstrap recovery state is ambiguous'')))
      | _ \<Rightarrow> raise (Exits ''developer is already configured inconsistently''))"

section \<open>A fresh bootstrap\<close>

definition discard_staging :: "bootstrap_world \<Rightarrow> string list \<Rightarrow> unit boot_action" where
  "discard_staging w stages =
     (case stages of
        [] \<Rightarrow> ret ()
      | [stage] \<Rightarrow>
          andthen (read_safe_credential w stage) (\<lambda>_. followed (unlink w False stage) (fsync w))
      | _ \<Rightarrow> raise (Exits ''orphaned developer bootstrap staging state is ambiguous''))"

text \<open>\<open>os.link(...); temporary.unlink()\<close> with its compensation.\<close>

definition publish_credential :: "bootstrap_world \<Rightarrow> string \<Rightarrow> user_row \<Rightarrow> unit boot_action" where
  "publish_credential w public_id user s =
     (case followed (link_file w (temporary_name w public_id) (credential_name public_id))
             (unlink w False (temporary_name w public_id)) s of
        (Inl (Failed e), s1) \<Rightarrow>
          (case committing w (\<lambda>d. map_sum id (Pair ()) (delete_unconfigured_developer (u_id user) public_id d)) s1 of
             (Inl Killed, s2) \<Rightarrow> (Inl Killed, s2)
           | (Inl _, s2) \<Rightarrow>
               (Inl (Preserved (RuntimeError ''credential publish and database compensation failed; recoverable staging was preserved'')), s2)
           | (Inr _, s2) \<Rightarrow> (Inl (Failed e), s2))
      | r \<Rightarrow> r)"

text \<open>\<open>finally: if not preserve_temporary: temporary.unlink(missing_ok=True)\<close>.\<close>

definition with_temporary :: "bootstrap_world \<Rightarrow> string \<Rightarrow> 'a boot_action \<Rightarrow> 'a boot_action" where
  "with_temporary w temporary m s =
     (case m s of
        (Inl Killed, s1) \<Rightarrow> (Inl Killed, s1)
      | (Inl (Preserved e), s1) \<Rightarrow> (Inl (Failed e), s1)
      | (r, s1) \<Rightarrow> (case unlink w True temporary s1 of (Inl e, s2) \<Rightarrow> (Inl e, s2) | (Inr _, s2) \<Rightarrow> (r, s2)))"

definition created_row :: "user_row option \<Rightarrow> user_row boot_action" where
  "created_row v =
     (case v of None \<Rightarrow> raise (Failed (TypeError '''NoneType' object is not subscriptable'')) | Some u \<Rightarrow> ret u)"

definition bootstrap_fresh :: "bootstrap_world \<Rightarrow> string \<Rightarrow> string \<Rightarrow> string \<Rightarrow> string list \<Rightarrow> user_row boot_action" where
  "bootstrap_fresh w public_id username password stages =
     andthen (looking (\<lambda>s. entry (bo_files s) (credential_name public_id))) (\<lambda>credential.
     if credential \<noteq> None
     then raise (Exits ''instance credential already exists without matching database state'')
     else
       followed (discard_staging w stages)
       (followed (create_file w (temporary_name w public_id))
       (with_temporary w (temporary_name w public_id)
         (followed (write_file w (temporary_name w public_id) (bw_token w))
         (followed (fsync w)
         (followed (fsync w)
         (andthen
           (committing w (create_developer (bw_hash_password w) (bw_token_hash w) public_id (bw_clock w)
              username password (bw_token w) (image_path (bw_workspace_root w) public_id) (Some public_id)))
         (\<lambda>row. andthen (created_row row) (\<lambda>user.
           followed (publish_credential w public_id user)
           (followed (fsync w) (ret user)))))))))))"

definition bootstrap_instance :: "bootstrap_world \<Rightarrow> string \<Rightarrow> string \<Rightarrow> string \<Rightarrow> user_row boot_action" where
  "bootstrap_instance w public_id username password =
     andthen (lift (release_instances (bw_roster w))) (\<lambda>instances.
     if public_id \<notin> set instances
     then raise (Exits ''instance UUID is not declared by the current release'')
     else if length password < 12 then raise (Exits ''developer password must be at least 12 characters'')
     else if bw_image_kind w (image_path (bw_workspace_root w) public_id) \<noteq> Some Regular_File
     then raise (Exits ''prepared workspace image is missing or unsafe'')
     else
       andthen (looking (\<lambda>s. get_user_by_public_id (bo_db s) public_id)) (\<lambda>existing_public.
       andthen (looking (\<lambda>s. get_user_by_username (bo_db s) username)) (\<lambda>existing_username.
       andthen (looking (\<lambda>s. staged public_id (bo_files s))) (\<lambda>stages.
         if existing_public \<noteq> None \<or> existing_username \<noteq> None
         then recover_instance w public_id existing_public existing_username stages
         else bootstrap_fresh w public_id username password stages))))"

section \<open>Directories and names\<close>

lemma entry_append [simp]:
  "entry (d @ d') n = (case entry d n of None \<Rightarrow> entry d' n | Some f \<Rightarrow> Some f)"
  by (auto simp: entry_def map_add_def split: option.splits)

lemma entry_Nil [simp]: "entry [] n = None"
  by (simp add: entry_def)

lemma entry_Cons [simp]: "entry ((m, f) # d) n = (if n = m then Some f else entry d n)"
  by (simp add: entry_def)

lemma entry_remove [simp]: "entry (remove_entry m d) n = (if n = m then None else entry d n)"
  by (induction d) (auto simp: remove_entry_def)

lemma remove_append [simp]: "remove_entry n (d @ d') = remove_entry n d @ remove_entry n d'"
  by (simp add: remove_entry_def)

lemma remove_absent: "entry d n = None \<Longrightarrow> remove_entry n d = d"
  by (induction d) (auto simp: remove_entry_def split: if_splits)

lemma remove_Cons [simp]:
  "remove_entry n ((m, f) # d) = (if m = n then remove_entry n d else (m, f) # remove_entry n d)"
  by (simp add: remove_entry_def)

lemma remove_Nil [simp]: "remove_entry n [] = []"
  by (simp add: remove_entry_def)

lemma put_append [simp]: "put_text n x (d @ d') = put_text n x d @ put_text n x d'"
  by (simp add: put_text_def)

lemma put_absent: "entry d n = None \<Longrightarrow> put_text n x d = d"
  by (induction d) (auto simp: put_text_def split: if_splits)

lemma put_single [simp]: "put_text n x [(n, f)] = [(n, f\<lparr>fl_text := x\<rparr>)]"
  by (simp add: put_text_def)

lemma staged_append [simp]: "staged pid (d @ d') = staged pid d @ staged pid d'"
  by (simp add: staged_def)

lemma staged_Nil [simp]: "staged pid [] = []"
  by (simp add: staged_def)

lemma staged_Cons [simp]:
  "staged pid ((n, f) # d) = (if starts_with n (staging_prefix pid) then n # staged pid d else staged pid d)"
  by (simp add: staged_def)

lemma staged_remove [simp]: "staged pid (remove_entry n d) = filter (\<lambda>m. m \<noteq> n) (staged pid d)"
  by (induction d) (auto simp: remove_entry_def split: if_splits prod.splits)

lemma temporary_staged [simp]: "starts_with (temporary_name w pid) (staging_prefix pid)"
  by (simp add: temporary_name_def)

lemma credential_not_staged [simp]: "\<not> starts_with (credential_name pid) (staging_prefix pid)"
proof
  assume "starts_with (credential_name pid) (staging_prefix pid)"
  then have "length (staging_prefix pid) \<le> length (credential_name pid)"
    by (auto simp: starts_with_iff)
  then show False by (simp add: staging_prefix_def credential_name_def)
qed

lemma credential_temporary [simp]:
  "credential_name pid \<noteq> temporary_name w pid" "temporary_name w pid \<noteq> credential_name pid"
  using credential_not_staged [of pid] temporary_staged [of w pid] by metis+

lemma unstaged_absent: "staged pid d = [] \<Longrightarrow> starts_with n (staging_prefix pid) \<Longrightarrow> entry d n = None"
  by (induction d) (auto split: if_splits)

lemma unstaged_temporary: "staged pid d = [] \<Longrightarrow> entry d (temporary_name w pid) = None"
  by (rule unstaged_absent) auto

lemma staged_prefix: "n \<in> set (staged pid d) \<Longrightarrow> starts_with n (staging_prefix pid)"
  by (auto simp: staged_def)

lemma staged_credential [simp]: "credential_name pid \<notin> set (staged pid d)"
  using staged_prefix by force

end
