(* ===== verification/Bootstrap_Recovery.thy ===== *)
theory Bootstrap_Recovery
  imports Bootstrap Account_Properties
begin

text \<open>
  Crash recovery of \<open>bootstrap_instance\<close>. The states that interrupted runs can leave behind
  (\<open>recoverable\<close>) are closed under further interrupted runs and every undisturbed run completes them;
  the exception, a death between the creation of the staging file and the writing of its token, is
  characterised by itself.
\<close>

section \<open>Runs\<close>

text \<open>Nothing goes wrong but the process may be killed.\<close>

definition kills_only :: "bootstrap_world \<Rightarrow> bool" where
  "kills_only w \<longleftrightarrow> (\<forall>k. bw_fault w k = None \<or> bw_fault w k = Some Kill)"

definition calm :: "bootstrap_world \<Rightarrow> bool" where
  "calm w \<longleftrightarrow> (\<forall>k. bw_fault w k = None)"

lemma syscall_kills:
  "kills_only w \<Longrightarrow> syscall w m s =
     (if bw_fault w (bo_calls s) = None then m (s\<lparr>bo_calls := Suc (bo_calls s)\<rparr>)
      else (Inl Killed, s\<lparr>bo_calls := Suc (bo_calls s)\<rparr>))"
  by (metis (mono_tags, lifting) fault.case(1) kills_only_def option.case(1) option.case(2) syscall_def)

lemma syscall_calm: "calm w \<Longrightarrow> syscall w m s = m (s\<lparr>bo_calls := Suc (bo_calls s)\<rparr>)"
  by (simp add: syscall_def calm_def Let_def)

lemma calm_kills: "calm w \<Longrightarrow> kills_only w"
  by (simp add: calm_def kills_only_def)

text \<open>The arguments pass the checks that precede the account.\<close>

definition admitted :: "bootstrap_world \<Rightarrow> string \<Rightarrow> string \<Rightarrow> bool" where
  "admitted w pid pw \<longleftrightarrow>
     (\<exists>instances. release_instances (bw_roster w) = Inr instances \<and> pid \<in> set instances)
     \<and> 12 \<le> length pw \<and> bw_image_kind w (image_path (bw_workspace_root w) pid) = Some Regular_File"

lemma admitted_uuid: "admitted w pid pw \<Longrightarrow> canonical_uuid pid"
  by (auto simp: admitted_def release_instances_def Let_def list_all_iff split: option.splits if_splits)

lemma bootstrap_admitted:
  assumes "admitted w pid pw"
  shows "bootstrap_instance w pid name pw s =
     (if get_user_by_public_id (bo_db s) pid \<noteq> None \<or> get_user_by_username (bo_db s) name \<noteq> None
      then recover_instance w pid (get_user_by_public_id (bo_db s) pid)
             (get_user_by_username (bo_db s) name) (staged pid (bo_files s)) s
      else bootstrap_fresh w pid name pw (staged pid (bo_files s)) s)"
  using assms
  by (auto simp: admitted_def bootstrap_instance_def andthen_def looking_def lift_def raise_def)

definition safe_credential :: "bootstrap_world \<Rightarrow> file_entry \<Rightarrow> bool" where
  "safe_credential w f \<longleftrightarrow>
     fl_kind f = Regular_File \<and> fl_owner f = bw_euid w \<and> fl_mode f \<in> {256, 384} \<and> fl_text f \<noteq> []"

lemma read_safe:
  "entry (bo_files s) n = Some f \<Longrightarrow> safe_credential w f \<Longrightarrow> read_safe_credential w n s = (Inr (fl_text f), s)"
  by (auto simp: read_safe_credential_def andthen_def looking_def safe_credential_def ret_def)

definition matches :: "bootstrap_world \<Rightarrow> user_row \<Rightarrow> file_entry \<Rightarrow> bool" where
  "matches w u f \<longleftrightarrow> safe_credential w f \<and> u_api_token_hash u = Some (bw_token_hash w (fl_text f))"

lemma checked_matches:
  "entry (bo_files s) n = Some f \<Longrightarrow> matches w u f \<Longrightarrow> checked_token w u n msg s = (Inr (), s)"
  by (simp add: checked_token_def matches_def andthen_def read_safe)

section \<open>The account\<close>

text \<open>The database after the developer was added to \<open>d\<close>.\<close>

definition developer_added :: "bootstrap_world \<Rightarrow> string \<Rightarrow> string \<Rightarrow> db \<Rightarrow> user_row \<Rightarrow> db \<Rightarrow> bool" where
  "developer_added w pid name d u d' \<longleftrightarrow>
     d' = d\<lparr>users := \<lparr>t_rows = t_rows (users d) @ [u], t_seq = t_seq (users d) + 1\<rparr>\<rparr>
     \<and> u_public_id u = pid \<and> u_username u = name \<and> u_role u = Developer \<and> u_status u = Active
     \<and> u_workspace_path u = Some (image_path (bw_workspace_root w) pid)"

text \<open>The database before: neither the instance nor the name is taken.\<close>

definition unclaimed :: "string \<Rightarrow> string \<Rightarrow> db \<Rightarrow> bool" where
  "unclaimed pid name d \<longleftrightarrow> accounts_inv d \<and>
     (\<forall>u \<in> set (t_rows (users d)). u_public_id u \<noteq> pid \<and> u_username u \<noteq> name)"

definition new_token :: "bootstrap_world \<Rightarrow> db \<Rightarrow> bool" where
  "new_token w d \<longleftrightarrow> bw_token w \<noteq> [] \<and>
     (\<forall>u \<in> set (t_rows (users d)). u_api_token_hash u \<noteq> Some (bw_token_hash w (bw_token w)))"

lemma unclaimed_lookup:
  "unclaimed pid name d \<Longrightarrow> get_user_by_public_id d pid = None"
  "unclaimed pid name d \<Longrightarrow> get_user_by_username d name = None"
  by (auto simp: unclaimed_def get_user_by_public_id_def get_user_by_username_def select_where_def
      filter_empty_conv)

lemma added_lookup:
  assumes "unclaimed pid name d" and "developer_added w pid name d u d'"
  shows "get_user_by_public_id d' pid = Some u" and "get_user_by_username d' name = Some u"
  using assms unclaimed_lookup [OF assms(1)]
  by (auto simp: developer_added_def get_user_by_public_id_def get_user_by_username_def select_where_def)

lemma create_developer_added:
  assumes "unclaimed pid name d" and "new_token w d" and "canonical_uuid pid"
  obtains u d' where
    "create_developer (bw_hash_password w) (bw_token_hash w) pid (bw_clock w) name pw (bw_token w)
       (image_path (bw_workspace_root w) pid) (Some pid) d = Inr (Some u, d')"
    and "developer_added w pid name d u d'" and "u_api_token_hash u = Some (bw_token_hash w (bw_token w))"
proof -
  let ?n = "t_seq (users d) + 1"
  have "filter (\<lambda>q. u_id q = ?n) (t_rows (users d)) = []"
    using assms(1) by (auto simp: unclaimed_def accounts_inv_def users_inv_def keys_ok_def filter_empty_conv)
  then show ?thesis
    using assms
    by (intro that [of "\<lparr>u_id = ?n, u_public_id = pid, u_username = name, u_role = Developer,
              u_password_hash = bw_hash_password w pw,
              u_api_token_hash = Some (bw_token_hash w (bw_token w)), u_status = Active,
              u_workspace_path = Some (image_path (bw_workspace_root w) pid),
              u_workspace_quota_mib = DEFAULT_WORKSPACE_QUOTA_MIB, u_created_at = bw_clock w,
              u_last_login_at = None\<rparr>"
          "d\<lparr>users := \<lparr>t_rows = t_rows (users d) @ [\<lparr>u_id = ?n, u_public_id = pid, u_username = name,
              u_role = Developer, u_password_hash = bw_hash_password w pw,
              u_api_token_hash = Some (bw_token_hash w (bw_token w)), u_status = Active,
              u_workspace_path = Some (image_path (bw_workspace_root w) pid),
              u_workspace_quota_mib = DEFAULT_WORKSPACE_QUOTA_MIB, u_created_at = bw_clock w,
              u_last_login_at = None\<rparr>], t_seq = ?n\<rparr>\<rparr>"])
      (auto simp: create_developer_def require_uuid_def insert_user_def unique_violation_def insert_row_def
        Let_def get_user_def select_where_def developer_added_def unclaimed_def new_token_def)
qed

section \<open>Recoverable states\<close>

text \<open>The credential is in place, next to the rest of an interrupted publication.\<close>

definition only_staged :: "(file_entry \<Rightarrow> bool) \<Rightarrow> string \<Rightarrow> directory \<Rightarrow> bool" where
  "only_staged P pid d \<longleftrightarrow> (\<exists>n f. staged pid d = [n] \<and> entry d n = Some f \<and> P f)"

definition published :: "bootstrap_world \<Rightarrow> string \<Rightarrow> user_row \<Rightarrow> directory \<Rightarrow> bool" where
  "published w pid u d \<longleftrightarrow>
     (\<exists>f. entry d (credential_name pid) = Some f \<and> matches w u f) \<and> staged pid d = []"

text \<open>No developer yet, and at most one abandoned staging file; or the developer, and his token either
  staged or published, or both.\<close>

definition before_account :: "bootstrap_world \<Rightarrow> string \<Rightarrow> db \<Rightarrow> boot \<Rightarrow> bool" where
  "before_account w pid d s \<longleftrightarrow> bo_db s = d \<and> entry (bo_files s) (credential_name pid) = None
     \<and> (staged pid (bo_files s) = [] \<or> only_staged (safe_credential w) pid (bo_files s))"

definition after_account :: "bootstrap_world \<Rightarrow> string \<Rightarrow> user_row \<Rightarrow> directory \<Rightarrow> bool" where
  "after_account w pid u d \<longleftrightarrow>
     (case entry d (credential_name pid) of
        None \<Rightarrow> only_staged (matches w u) pid d
      | Some f \<Rightarrow> matches w u f \<and> (staged pid d = [] \<or> only_staged (matches w u) pid d))"

definition recoverable :: "bootstrap_world \<Rightarrow> string \<Rightarrow> string \<Rightarrow> db \<Rightarrow> boot \<Rightarrow> bool" where
  "recoverable w pid name d s \<longleftrightarrow> before_account w pid d s
     \<or> (\<exists>u. developer_added w pid name d u (bo_db s) \<and> after_account w pid u (bo_files s))"

text \<open>The staging files a run leaves, an empty one apart.\<close>

definition empty_staging :: "string \<Rightarrow> directory \<Rightarrow> bool" where
  "empty_staging pid d \<longleftrightarrow>
     (\<exists>n \<in> set (staged pid d). \<exists>f. entry d n = Some f \<and> fl_text f = [])"

lemmas boot_action_defs = andthen_def looking_def ret_def raise_def

lemma recover_run:
  assumes "kills_only w" and "after_account w pid u (bo_files s)"
    and "u_workspace_path u = Some (image_path (bw_workspace_root w) pid)"
    and "recover_instance w pid (Some u) (Some u) (staged pid (bo_files s)) s = (r, s')"
  shows "bo_db s' = bo_db s \<and> after_account w pid u (bo_files s')
    \<and> (r = Inl Killed \<or> r = Inr u \<and> published w pid u (bo_files s')) \<and> (calm w \<longrightarrow> r = Inr u)"
proof (cases "entry (bo_files s) (credential_name pid)")
  case None
  then obtain n f where n: "staged pid (bo_files s) = [n]" "entry (bo_files s) n = Some f" "matches w u f"
    using assms(2) by (auto simp: after_account_def only_staged_def)
  then have "n \<noteq> credential_name pid" "starts_with n (staging_prefix pid)"
    using staged_credential [of pid "bo_files s"] staged_prefix [of n pid "bo_files s"] by auto
  with None n assms show ?thesis
    by (auto simp: recover_instance_def boot_action_defs checked_matches link_file_def unlink_def fsync_def
        syscall_kills after_account_def only_staged_def published_def calm_def split: if_splits)
next
  case (Some c)
  show ?thesis
  proof (cases "staged pid (bo_files s)")
    case Nil
    with Some assms show ?thesis
      by (auto simp: recover_instance_def boot_action_defs checked_matches fsync_def
          syscall_kills after_account_def only_staged_def published_def calm_def split: if_splits)
  next
    case (Cons n ns)
    then obtain f where n: "staged pid (bo_files s) = [n]" "entry (bo_files s) n = Some f" "matches w u f"
      using assms(2) Some by (auto simp: after_account_def only_staged_def)
    then have "n \<noteq> credential_name pid"
      using staged_credential [of pid "bo_files s"] by auto
    with Some n assms show ?thesis
      by (auto simp: recover_instance_def boot_action_defs checked_matches unlink_def fsync_def
          syscall_kills after_account_def only_staged_def published_def calm_def split: if_splits)
  qed
qed

lemma discard_run:
  assumes "kills_only w" and "before_account w pid d s"
    and "discard_staging w (staged pid (bo_files s)) s = (r, s')"
  shows "before_account w pid d s' \<and> (r = Inl Killed \<or> r = Inr () \<and> staged pid (bo_files s') = [])
    \<and> (calm w \<longrightarrow> r = Inr ())"
proof (cases "staged pid (bo_files s)")
  case Nil
  with assms show ?thesis by (auto simp: discard_staging_def)
next
  case (Cons n ns)
  then obtain f where n: "staged pid (bo_files s) = [n]" "entry (bo_files s) n = Some f" "safe_credential w f"
    using assms(2) by (auto simp: before_account_def only_staged_def)
  then have "n \<noteq> credential_name pid"
    using staged_credential [of pid "bo_files s"] by auto
  with n assms show ?thesis
    by (auto simp: discard_staging_def boot_action_defs read_safe unlink_def fsync_def syscall_kills
        before_account_def only_staged_def calm_def split: if_splits)
qed

text \<open>The part of a fresh bootstrap after the abandoned staging file is gone.\<close>

definition create_and_publish :: "bootstrap_world \<Rightarrow> string \<Rightarrow> string \<Rightarrow> string \<Rightarrow> user_row boot_action" where
  "create_and_publish w pid name pw =
     followed (create_file w (temporary_name w pid))
       (with_temporary w (temporary_name w pid)
         (followed (write_file w (temporary_name w pid) (bw_token w))
         (followed (fsync w)
         (followed (fsync w)
         (andthen
           (committing w (create_developer (bw_hash_password w) (bw_token_hash w) pid (bw_clock w)
              name pw (bw_token w) (image_path (bw_workspace_root w) pid) (Some pid)))
         (\<lambda>row. andthen (created_row row) (\<lambda>user.
           followed (publish_credential w pid user)
           (followed (fsync w) (ret user)))))))))"

lemma fresh_after_discard:
  "entry (bo_files s) (credential_name pid) = None \<Longrightarrow>
   bootstrap_fresh w pid name pw stages s =
     (case discard_staging w stages s of
        (Inl e, s') \<Rightarrow> (Inl e, s') | (Inr _, s') \<Rightarrow> create_and_publish w pid name pw s')"
  by (simp add: bootstrap_fresh_def create_and_publish_def andthen_def [of "looking f" for f]
      andthen_def [of "discard_staging w stages"] looking_def split: prod.split sum.split)

definition credential_file :: "bootstrap_world \<Rightarrow> file_entry" where
  "credential_file w =
     \<lparr>fl_kind = Regular_File, fl_owner = bw_euid w, fl_mode = 384, fl_text = bw_token w\<rparr>"

lemma credential_file_safe: "new_token w d \<Longrightarrow> safe_credential w (credential_file w)"
  by (simp add: safe_credential_def credential_file_def new_token_def)

lemma credential_file_matches:
  "new_token w d \<Longrightarrow> u_api_token_hash u = Some (bw_token_hash w (bw_token w)) \<Longrightarrow>
   matches w u (credential_file w)"
  by (simp add: matches_def credential_file_safe) (simp add: credential_file_def)

text \<open>Everything from the creation of the staging file on, killed at any of its calls or at none.\<close>

lemma create_and_publish_run:
  assumes kills: "kills_only w" and none: "staged pid (bo_files s) = []" "entry (bo_files s) (credential_name pid) = None"
    and create: "create_developer (bw_hash_password w) (bw_token_hash w) pid (bw_clock w) name pw (bw_token w)
       (image_path (bw_workspace_root w) pid) (Some pid) (bo_db s) = Inr (Some u, d')"
    and run: "create_and_publish w pid name pw s = (r, s')"
  shows "(calm w \<longrightarrow> r = Inr u) \<and>
    (r = Inl Killed \<and> bo_db s' = bo_db s \<and>
       (bo_files s' = bo_files s
        \<or> bo_files s' = bo_files s @ [(temporary_name w pid, (credential_file w)\<lparr>fl_text := []\<rparr>)]
        \<or> bo_files s' = bo_files s @ [(temporary_name w pid, credential_file w)])
    \<or> r = Inl Killed \<and> bo_db s' = d' \<and>
       (bo_files s' = bo_files s @ [(temporary_name w pid, credential_file w)]
        \<or> bo_files s' = bo_files s @ [(temporary_name w pid, credential_file w), (credential_name pid, credential_file w)])
    \<or> (r = Inl Killed \<or> r = Inr u) \<and> bo_db s' = d' \<and>
        bo_files s' = bo_files s @ [(credential_name pid, credential_file w)])"
proof -
  note tmp = unstaged_temporary [OF none(1), of w]
  note absent = put_absent [OF tmp] remove_absent [OF tmp]
  show ?thesis
    using run none create tmp absent
    by (auto simp: create_and_publish_def boot_action_defs create_file_def with_temporary_def write_file_def fsync_def
        committing_def created_row_def publish_credential_def link_file_def unlink_def syscall_kills [OF kills]
        credential_file_def calm_def split: if_splits)
qed

section \<open>Any number of interrupted runs\<close>

text \<open>The conditions of a run on the database \<open>d\<close> it first met.\<close>

definition run_ready :: "bootstrap_world \<Rightarrow> string \<Rightarrow> string \<Rightarrow> db \<Rightarrow> bool" where
  "run_ready w pid pw d \<longleftrightarrow> kills_only w \<and> admitted w pid pw \<and> new_token w d"

lemma bootstrap_run:
  assumes ready: "run_ready w pid pw d" and free: "unclaimed pid name d" and "recoverable w pid name d s"
    and run: "bootstrap_instance w pid name pw s = (r, s')"
    and fine: "calm w \<or> \<not> empty_staging pid (bo_files s')"
  shows "recoverable w pid name d s'
    \<and> (r = Inl Killed \<or> (\<exists>u. r = Inr u \<and> developer_added w pid name d u (bo_db s') \<and> published w pid u (bo_files s')))
    \<and> (calm w \<longrightarrow> r \<noteq> Inl Killed)"
proof (cases "before_account w pid d s")
  case True
  have kills: "kills_only w" and adm: "admitted w pid pw" and tok: "new_token w d"
    using ready by (simp_all add: run_ready_def)
  obtain u d' where create: "create_developer (bw_hash_password w) (bw_token_hash w) pid (bw_clock w) name pw
       (bw_token w) (image_path (bw_workspace_root w) pid) (Some pid) d = Inr (Some u, d')"
    and added: "developer_added w pid name d u d'" and hash: "u_api_token_hash u = Some (bw_token_hash w (bw_token w))"
    using create_developer_added [OF free tok admitted_uuid [OF adm]] by metis
  have none: "entry (bo_files s) (credential_name pid) = None" and db: "bo_db s = d"
    using True by (simp_all add: before_account_def)
  obtain r1 s1 where disc: "discard_staging w (staged pid (bo_files s)) s = (r1, s1)" by fastforce
  note d1 = discard_run [OF kills True disc]
  have run': "(r, s') = (case r1 of Inl e \<Rightarrow> (Inl e, s1) | Inr _ \<Rightarrow> create_and_publish w pid name pw s1)"
    using run unclaimed_lookup [OF free]
    by (simp add: bootstrap_admitted [OF adm] db fresh_after_discard [OF none] disc split: sum.splits)
  show ?thesis
  proof (cases r1)
    case (Inl e)
    then show ?thesis using run' d1 by (auto simp: recoverable_def)
  next
    case (Inr x)
    then have clear: "staged pid (bo_files s1) = []" "entry (bo_files s1) (credential_name pid) = None" "bo_db s1 = d"
      using d1 by (auto simp: before_account_def)
    have tmp: "entry (bo_files s1) (temporary_name w pid) = None" by (rule unstaged_temporary [OF clear(1)])
    have "create_and_publish w pid name pw s1 = (r, s')" using run' Inr by simp
    note cases = create_and_publish_run [OF kills clear(1,2) create [folded clear(3)] this]
    have safe: "safe_credential w (credential_file w)" "matches w u (credential_file w)"
      using tok hash by (simp_all add: credential_file_safe credential_file_matches)
    show ?thesis
      using cases clear tmp safe added fine
      by (auto simp: recoverable_def before_account_def after_account_def only_staged_def published_def
          empty_staging_def)
  qed
next
  case False
  then obtain u where u: "developer_added w pid name d u (bo_db s)" "after_account w pid u (bo_files s)"
    using assms(3) by (auto simp: recoverable_def)
  have kills: "kills_only w" and adm: "admitted w pid pw" using ready by (simp_all add: run_ready_def)
  have "recover_instance w pid (Some u) (Some u) (staged pid (bo_files s)) s = (r, s')"
    using run by (simp add: bootstrap_admitted [OF adm] added_lookup [OF free u(1)])
  from recover_run [OF kills u(2) _ this] u show ?thesis
    by (auto simp: recoverable_def developer_added_def)
qed

text \<open>Two runs of the same command: the host, the paths and the hash functions are the same, the
  process, its token, its clock and its faults are its own.\<close>

definition same_host :: "bootstrap_world \<Rightarrow> bootstrap_world \<Rightarrow> bool" where
  "same_host w v \<longleftrightarrow> bw_workspace_root w = bw_workspace_root v \<and> bw_euid w = bw_euid v
     \<and> bw_token_hash w = bw_token_hash v"

lemma same_host_recoverable:
  assumes "same_host w v"
  shows "recoverable w pid name d s = recoverable v pid name d s"
proof -
  have "safe_credential w = safe_credential v"
    using assms by (simp add: same_host_def safe_credential_def fun_eq_iff)
  moreover from this have "matches w = matches v"
    using assms by (simp add: same_host_def matches_def fun_eq_iff)
  ultimately show ?thesis
    using assms by (simp add: same_host_def recoverable_def before_account_def after_account_def
        developer_added_def split: option.split)
qed

text \<open>The states after any number of runs that were killed (or ended), none of them leaving an empty
  staging file.\<close>

inductive interrupted_runs :: "bootstrap_world \<Rightarrow> string \<Rightarrow> string \<Rightarrow> string \<Rightarrow> db \<Rightarrow> boot \<Rightarrow> boot \<Rightarrow> bool"
  for w pid name pw d s where
  no_run: "interrupted_runs w pid name pw d s s"
| one_more: "interrupted_runs w pid name pw d s s1 \<Longrightarrow> same_host w v \<Longrightarrow> run_ready v pid pw d \<Longrightarrow>
    bootstrap_instance v pid name pw s1 = (r, s2) \<Longrightarrow> \<not> empty_staging pid (bo_files s2) \<Longrightarrow>
    interrupted_runs w pid name pw d s s2"

lemma interrupted_recoverable:
  assumes "interrupted_runs w pid name pw d s s'" and "unclaimed pid name d" and "recoverable w pid name d s"
  shows "recoverable w pid name d s'"
  using assms
proof (induction rule: interrupted_runs.induct)
  case (one_more s1 v r s2)
  then show ?case
    using bootstrap_run [OF one_more.hyps(3) one_more.prems(1) _ one_more.hyps(4)] one_more.hyps(5)
      same_host_recoverable [OF one_more.hyps(2)] by blast
qed

text \<open>The directory and the tables before the first run.\<close>

definition untouched :: "string \<Rightarrow> string \<Rightarrow> boot \<Rightarrow> bool" where
  "untouched pid name s \<longleftrightarrow> unclaimed pid name (bo_db s) \<and> staged pid (bo_files s) = []
     \<and> entry (bo_files s) (credential_name pid) = None"


section \<open>Failures\<close>

text \<open>One system call fails, the \<open>k\<close>-th of the run.\<close>

definition fails_at :: "nat \<Rightarrow> py_error \<Rightarrow> bootstrap_world \<Rightarrow> boot \<Rightarrow> bool" where
  "fails_at k e w s \<longleftrightarrow> bw_fault w = (\<lambda>n. if n = bo_calls s + k then Some (Fault e) else None)"

definition dies_at :: "nat \<Rightarrow> bootstrap_world \<Rightarrow> boot \<Rightarrow> bool" where
  "dies_at k w s \<longleftrightarrow> bw_fault w = (\<lambda>n. if n = bo_calls s + k then Some Kill else None)"

lemma untouched_run:
  assumes "untouched pid name s" and "admitted w pid pw"
  shows "bootstrap_instance w pid name pw s = create_and_publish w pid name pw s"
  using assms unclaimed_lookup [of pid name "bo_db s"]
  by (simp add: untouched_def bootstrap_admitted fresh_after_discard discard_staging_def)

lemma created_deleted:
  assumes "unclaimed pid name d" and "user_refs d"
    and "create_developer hp th fresh now name pw tok path (Some pid) d = Inr (Some u, d')" and "u_public_id u = pid"
  shows "delete_unconfigured_developer (u_id u) pid d' = Inr (d\<lparr>users := (users d)\<lparr>t_seq := t_seq (users d) + 1\<rparr>\<rparr>)"
  using delete_created_developer [OF _ assms(2,3)] assms(1,4) by (auto simp: unclaimed_def)

lemmas publish_defs = create_and_publish_def boot_action_defs create_file_def with_temporary_def write_file_def
  fsync_def committing_def created_row_def publish_credential_def link_file_def unlink_def syscall_def Let_def

text \<open>A bootstrap that fails before its credential is published undoes itself. Whichever system call
  fails first, up to the one that links the credential into place, the error is reported, the credential
  directory is as before and so is every table; only the id counter of the users may have moved on.\<close>
theorem failed_bootstrap_restores:
  assumes "untouched pid name s" and "user_refs (bo_db s)" and "admitted w pid pw" and "new_token w (bo_db s)"
    and "fails_at k e w s" and "k \<le> 5"
  shows "\<exists>t n. bootstrap_instance w pid name pw s = (Inl (Failed e), t) \<and> bo_files t = bo_files s
    \<and> bo_db t = (bo_db s)\<lparr>users := (users (bo_db s))\<lparr>t_seq := n\<rparr>\<rparr>"
proof -
  have free: "unclaimed pid name (bo_db s)" and none: "staged pid (bo_files s) = []"
    "entry (bo_files s) (credential_name pid) = None" using assms(1) by (simp_all add: untouched_def)
  obtain u d' where create: "create_developer (bw_hash_password w) (bw_token_hash w) pid (bw_clock w) name pw
       (bw_token w) (image_path (bw_workspace_root w) pid) (Some pid) (bo_db s) = Inr (Some u, d')"
    and added: "developer_added w pid name (bo_db s) u d'"
    using create_developer_added [OF free assms(4) admitted_uuid [OF assms(3)]] by metis
  have "u_public_id u = pid" using added by (simp add: developer_added_def)
  note del = created_deleted [OF free assms(2) create this]
  note tmp = unstaged_temporary [OF none(1), of w]
  note absent = put_absent [OF tmp] remove_absent [OF tmp]
  consider "k = 0" | "k = 1" | "k = 2" | "k = 3" | "k = 4" | "k = 5" using assms(6) by linarith
  then show ?thesis
    by cases (use assms(5) none create del tmp absent in
      \<open>auto simp: untouched_run [OF assms(1,3)] fails_at_def publish_defs 
        intro!: exI [of _ "if k = 5 then t_seq (users (bo_db s)) + 1 else t_seq (users (bo_db s))"]\<close>)
qed

text \<open>C39: two failures block the instance for good. When the process dies between the creation of the staging
  file and the writing of the token (system call 1 of an untouched run), every later run, whatever
  happens to it, exits with "developer bootstrap credential is empty" and changes nothing. When the
  removal of the staging link fails after the credential was linked (system call 6), the developer is
  deleted again but his credential stays, and every later run exits with "instance credential already
  exists without matching database state".\<close>
theorem bootstrap_dead_ends:
  assumes "untouched pid name s" and "user_refs (bo_db s)" and "admitted w pid pw" and "new_token w (bo_db s)"
    and "bootstrap_instance w pid name pw s = (r, t)" and "same_host w v" and "admitted v pid pw"
  shows "(dies_at 1 w s \<longrightarrow> bootstrap_instance v pid name pw t
      = (Inl (Exits ''developer bootstrap credential is empty''), t))
    \<and> (fails_at 6 e w s \<longrightarrow> r = Inl (Failed e) \<and> bootstrap_instance v pid name pw t
      = (Inl (Exits ''instance credential already exists without matching database state''), t))"
proof -
  have free: "unclaimed pid name (bo_db s)" and none: "staged pid (bo_files s) = []"
    "entry (bo_files s) (credential_name pid) = None" using assms(1) by (simp_all add: untouched_def)
  obtain u d' where create: "create_developer (bw_hash_password w) (bw_token_hash w) pid (bw_clock w) name pw
       (bw_token w) (image_path (bw_workspace_root w) pid) (Some pid) (bo_db s) = Inr (Some u, d')"
    and added: "developer_added w pid name (bo_db s) u d'"
    using create_developer_added [OF free assms(4) admitted_uuid [OF assms(3)]] by metis
  have "u_public_id u = pid" using added by (simp add: developer_added_def)
  note del = created_deleted [OF free assms(2) create this]
  note tmp = unstaged_temporary [OF none(1), of w]
  note absent = put_absent [OF tmp] remove_absent [OF tmp]
  note lookup = unclaimed_lookup [OF free]
  have host: "bw_euid v = bw_euid w" using assms(6) by (simp add: same_host_def)
  have "bootstrap_instance v pid name pw t = (Inl (Exits ''developer bootstrap credential is empty''), t)"
    if "dies_at 1 w s"
  proof -
    from that have "bo_db t = bo_db s" "bo_files t = bo_files s @ [(temporary_name w pid, (credential_file w)\<lparr>fl_text := []\<rparr>)]"
      using assms(5) none tmp by (auto simp: untouched_run [OF assms(1,3)] dies_at_def publish_defs credential_file_def)
    then show ?thesis
      using none lookup tmp
      by (simp add: bootstrap_admitted [OF assms(7)] fresh_after_discard discard_staging_def
          read_safe_credential_def boot_action_defs host credential_file_def)
  qed
  moreover have "r = Inl (Failed e) \<and> bootstrap_instance v pid name pw t
      = (Inl (Exits ''instance credential already exists without matching database state''), t)"
    if "fails_at 6 e w s"
  proof -
    from that have t: "r = Inl (Failed e)" "bo_db t = (bo_db s)\<lparr>users := (users (bo_db s))\<lparr>t_seq := t_seq (users (bo_db s)) + 1\<rparr>\<rparr>"
      "bo_files t = bo_files s @ [(credential_name pid, credential_file w)]"
      using assms(5) none tmp create del absent
      by (auto simp: untouched_run [OF assms(1,3)] fails_at_def publish_defs credential_file_def)
    have "get_user_by_public_id (bo_db t) pid = None" "get_user_by_username (bo_db t) name = None"
      using lookup by (simp_all add: t get_user_by_public_id_def get_user_by_username_def select_where_def)
    then show ?thesis
      using none t by (simp add: bootstrap_admitted [OF assms(7)] bootstrap_fresh_def boot_action_defs)
  qed
  ultimately show ?thesis by blast
qed

section \<open>A sample host\<close>

definition sample_host :: "(nat \<Rightarrow> fault option) \<Rightarrow> bootstrap_world" where
  "sample_host faults =
     \<lparr>bw_roster = Some (one_uuid @ [nl]), bw_workspace_root = ''/w'',
      bw_image_kind = (\<lambda>_. Some Regular_File), bw_euid = 0, bw_pid = 7, bw_token = ''fresh'', bw_clock = 3,
      bw_hash_password = id, bw_token_hash = id, bw_fault = faults\<rparr>"

definition sample_boot :: boot where
  "sample_boot = \<lparr>bo_db = accounts_db, bo_files = [], bo_calls = 0\<rparr>"

definition only_at :: "nat \<Rightarrow> fault \<Rightarrow> nat \<Rightarrow> fault option" where
  "only_at k f n = (if n = k then Some f else None)"

lemma sample_roster: "release_instances (Some (one_uuid @ [nl])) = Inr [one_uuid]"
proof -
  have "lines_of (one_uuid @ [nl]) = [one_uuid]" by code_simp
  moreover have "canonical_uuid one_uuid" by (rule canonical_shape_uuid) code_simp
  ultimately show ?thesis by (simp add: release_instances_def Let_def)
qed

lemma sample_admitted: "admitted (sample_host f) one_uuid ''twelve chars''"
  by (simp add: admitted_def sample_host_def sample_roster)

lemma sample_untouched: "untouched one_uuid ''e'' sample_boot"
  using accounts_db_inv
  by (simp add: untouched_def unclaimed_def sample_boot_def)
    (simp add: accounts_db_def root_user_def dev_user_def zero_uuid_def one_uuid_def)

lemma sample_token: "new_token (sample_host f) accounts_db"
  by (simp add: new_token_def sample_host_def accounts_db_def root_user_def dev_user_def)

lemma sample_refs: "user_refs accounts_db"
  by (simp add: user_refs_def accounts_db_def empty_db_def)

lemma sample_same_host: "same_host (sample_host f) (sample_host g)"
  by (simp add: same_host_def sample_host_def)

theorem failed_bootstrap_restores_witness:
  "\<exists>t n. bootstrap_instance (sample_host (only_at 5 (Fault (OsError ''link'')))) one_uuid ''e'' ''twelve chars'' sample_boot
       = (Inl (Failed (OsError ''link'')), t) \<and> bo_files t = []
    \<and> bo_db t = accounts_db\<lparr>users := (users accounts_db)\<lparr>t_seq := n\<rparr>\<rparr>"
  using failed_bootstrap_restores [of one_uuid "''e''" sample_boot
      "sample_host (only_at 5 (Fault (OsError ''link'')))" "''twelve chars''" 5 "OsError ''link''"]
    sample_untouched sample_refs sample_admitted sample_token
  by (simp add: sample_boot_def fails_at_def sample_host_def only_at_def fun_eq_iff)

theorem bootstrap_dead_ends_witness:
  "\<exists>r t. bootstrap_instance (sample_host (only_at 1 Kill)) one_uuid ''e'' ''twelve chars'' sample_boot = (r, t)
    \<and> bootstrap_instance (sample_host Map.empty) one_uuid ''e'' ''twelve chars'' t
       = (Inl (Exits ''developer bootstrap credential is empty''), t)"
proof -
  obtain r t where run: "bootstrap_instance (sample_host (only_at 1 Kill)) one_uuid ''e'' ''twelve chars'' sample_boot = (r, t)"
    by fastforce
  have "dies_at 1 (sample_host (only_at 1 Kill)) sample_boot"
    by (simp add: dies_at_def sample_host_def sample_boot_def only_at_def fun_eq_iff)
  moreover have "bo_db sample_boot = accounts_db" by (simp add: sample_boot_def)
  ultimately show ?thesis
    using bootstrap_dead_ends [OF sample_untouched _ sample_admitted _ run sample_same_host sample_admitted]
      sample_refs sample_token run by auto
qed


end
