(* ===== verification/Verify_Bootstrap.thy ===== *)
theory Verify_Bootstrap
  imports Bootstrap Gateway Account_Properties
begin

text \<open>
  The release check of \<open>verify_bootstrap.py\<close>: the release roster, the developers of the database, the
  three directories of the instances and the Caddy configuration must agree. It only reads, so it is a
  function of what it finds; the directories are those of \<open>Bootstrap\<close>, a directory that cannot be listed
  is \<open>None\<close>.
\<close>

section \<open>What is checked\<close>

record deployment =
  dp_roster :: "string option"
  dp_workspace_root :: string
  dp_workspaces :: "directory option"
  dp_env :: "directory option"
  dp_credentials :: "directory option"
  dp_caddyfile :: "file_entry option"
  dp_caddy_name :: string
  dp_credential_owner :: int
  dp_config_owner :: int

definition roster_instances :: "string option \<Rightarrow> string list result" where
  "roster_instances roster =
     (case roster of
        None \<Rightarrow> Inl (OsError ''No such file or directory'')
      | Some content \<Rightarrow>
          let instances = lines_of content
          in if \<not> (1 \<le> length instances \<and> length instances \<le> 3) \<or> length instances \<noteq> card (set instances)
             then Inl (ValueError ''release roster must contain one to three unique instances'')
             else if \<not> list_all canonical_uuid instances
             then Inl (ValueError ''release roster has a noncanonical UUID'')
             else Inr instances)"

definition regular_file :: "file_entry option \<Rightarrow> string \<Rightarrow> string \<Rightarrow> file_entry result" where
  "regular_file found label name =
     (case found of
        None \<Rightarrow> Inl (ValueError (''missing '' @ label @ '': '' @ name))
      | Some f \<Rightarrow> if fl_kind f \<noteq> Regular_File then Inl (ValueError (''unsafe '' @ label @ '': '' @ name)) else Inr f)"

definition entry_set :: "directory option \<Rightarrow> string set result" where
  "entry_set d = (case d of None \<Rightarrow> Inl (ValueError ''unable to enumerate'') | Some es \<Rightarrow> Inr (set (map fst es)))"

definition require :: "bool \<Rightarrow> string \<Rightarrow> unit result" where
  "require b message = (if b then Inr () else Inl (ValueError message))"

definition env_line :: "int \<Rightarrow> string" where
  "env_line port = ''CODE_SERVER_PORT='' @ int_text port @ [nl]"

definition locked_names :: "string list" where
  "locked_names = [''locked-settings.json'', ''locked-keybindings.json'']"

definition check_locked :: "deployment \<Rightarrow> directory \<Rightarrow> string \<Rightarrow> unit result" where
  "check_locked dp envs name =
     bind_result (regular_file (entry envs name) ''locked configuration'' name) (\<lambda>f.
     require (fl_owner f = dp_config_owner dp \<and> fl_mode f = 420)
       (''unsafe locked configuration ownership or mode: '' @ name))"

text \<open>The rows of the developers, and \<open>{row["public_id"]: row for row in rows}\<close>: the last row of an id wins.\<close>

definition developer_rows :: "db \<Rightarrow> user_row list" where
  "developer_rows s = select_where (\<lambda>u. u_role u = Developer) (users s)"

definition row_of :: "db \<Rightarrow> string \<Rightarrow> user_row option" where
  "row_of s pid = fetchone (rev (filter (\<lambda>u. u_public_id u = pid) (developer_rows s)))"

text \<open>One turn of the loop over the instances.\<close>

definition check_instance ::
    "(string \<Rightarrow> string) \<Rightarrow> db \<Rightarrow> deployment \<Rightarrow> directory \<Rightarrow> directory \<Rightarrow> directory
     \<Rightarrow> nat \<times> string \<Rightarrow> gateway_user result" where
  "check_instance token_hash s dp images envs creds turn =
     (let (offset, pid) = turn;
          port = 9101 + int offset
      in bind_result (regular_file (entry images (pid @ ''.img'')) ''workspace image'' (pid @ ''.img'')) (\<lambda>_.
         bind_result (require
           (case row_of s pid of None \<Rightarrow> False | Some u \<Rightarrow> u_workspace_path u = Some (image_path (dp_workspace_root dp) pid))
           (''workspace path mismatch for '' @ pid)) (\<lambda>_.
         bind_result (regular_file (entry envs (pid @ ''.env'')) ''instance environment'' (pid @ ''.env'')) (\<lambda>env.
         bind_result (require (fl_owner env = dp_config_owner dp \<and> fl_mode env = 384)
           (''unsafe instance environment ownership or mode for '' @ pid)) (\<lambda>_.
         bind_result (require (fl_text env = env_line port) (''invalid instance port environment for '' @ pid)) (\<lambda>_.
         bind_result (make_gateway_user pid port) (\<lambda>user.
         bind_result (regular_file (entry creds (credential_name pid)) ''credential'' (credential_name pid)) (\<lambda>c.
         bind_result (require (fl_owner c = dp_credential_owner dp \<and> fl_mode c \<in> {256, 384})
           (''unsafe credential ownership or mode for '' @ pid)) (\<lambda>_.
         let token = strip (fl_text c);
             stored = (case row_of s pid of None \<Rightarrow> [] | Some u \<Rightarrow> (case u_api_token_hash u of None \<Rightarrow> [] | Some h \<Rightarrow> h))
         in bind_result (require (token \<noteq> [] \<and> token_hash token = stored)
              (''credential hash mismatch for '' @ pid)) (\<lambda>_. Inr user))))))))))"

definition check_caddyfile :: "deployment \<Rightarrow> gateway_user list \<Rightarrow> unit result" where
  "check_caddyfile dp pairs =
     bind_result (regular_file (dp_caddyfile dp) ''Caddy configuration'' (dp_caddy_name dp)) (\<lambda>f.
     bind_result (require (fl_owner f = dp_config_owner dp \<and> fl_mode f = 420)
       ''unsafe Caddy configuration ownership or mode'') (\<lambda>_.
     bind_result (render_caddyfile pairs) (\<lambda>expected.
     require (fl_text f = expected) ''Caddy routes differ from release port mapping'')))"

definition verify_bootstrap :: "(string \<Rightarrow> string) \<Rightarrow> db \<Rightarrow> deployment \<Rightarrow> (nat \<times> int list) result" where
  "verify_bootstrap token_hash s dp =
     bind_result (roster_instances (dp_roster dp)) (\<lambda>instances.
     bind_result (require (u_public_id ` set (developer_rows s) = set instances)
       ''database developer roster differs from release roster'') (\<lambda>_.
     bind_result (entry_set (dp_workspaces dp)) (\<lambda>images.
     bind_result (require (images = (\<lambda>v. v @ ''.img'') ` set instances)
       ''workspace image roster differs from release roster'') (\<lambda>_.
     bind_result (entry_set (dp_env dp)) (\<lambda>envs.
     bind_result (require (envs = set locked_names \<union> (\<lambda>v. v @ ''.env'') ` set instances)
       ''instance environment roster differs from release roster'') (\<lambda>_.
     bind_result (entry_set (dp_credentials dp)) (\<lambda>creds.
     bind_result (require (creds = credential_name ` set instances)
       ''credential roster differs from release roster'') (\<lambda>_.
     bind_result (map_result (check_locked dp (the (dp_env dp))) locked_names) (\<lambda>_.
     bind_result (map_result
         (check_instance token_hash s dp (the (dp_workspaces dp)) (the (dp_env dp)) (the (dp_credentials dp)))
         (enumerate 0 instances)) (\<lambda>pairs.
     bind_result (check_caddyfile dp pairs) (\<lambda>_.
     Inr (length instances, map gw_port pairs))))))))))))"

section \<open>What an accepted deployment is\<close>

lemma require_Inr [simp]: "require b m = Inr x \<longleftrightarrow> b"
  by (simp add: require_def)

lemma regular_file_Inr [simp]:
  "regular_file found label name = Inr f \<longleftrightarrow> found = Some f \<and> fl_kind f = Regular_File"
  by (auto simp: regular_file_def split: option.splits)

lemma entry_set_Inr: "entry_set d = Inr names \<longleftrightarrow> (\<exists>es. d = Some es \<and> names = set (map fst es))"
  by (auto simp: entry_set_def split: option.splits)

lemma map_result_nth:
  "map_result f xs = Inr ys \<Longrightarrow> i < length xs \<Longrightarrow> f (xs ! i) = Inr (ys ! i)"
  by (induction xs arbitrary: ys i) (auto simp: nth_Cons split: nat.splits)

lemma roster_instances_Inr:
  "roster_instances roster = Inr instances \<Longrightarrow> distinct instances \<and> 1 \<le> length instances
     \<and> length instances \<le> 3 \<and> list_all canonical_uuid instances"
  by (auto simp: roster_instances_def Let_def card_distinct split: option.splits if_splits)

lemma row_of_Some:
  "row_of s pid = Some u \<Longrightarrow> u \<in> set (t_rows (users s)) \<and> u_role u = Developer \<and> u_public_id u = pid"
  by (auto simp: row_of_def developer_rows_def select_where_def dest!: fetchone_in)

text \<open>The state of one instance: the account, its image, the port in its environment file and the
  credential that authenticates it.\<close>

definition instance_sound ::
    "(string \<Rightarrow> string) \<Rightarrow> db \<Rightarrow> deployment \<Rightarrow> nat \<Rightarrow> string \<Rightarrow> bool" where
  "instance_sound token_hash s dp i pid \<longleftrightarrow>
     (\<exists>u image env c images envs creds.
        dp_workspaces dp = Some images \<and> dp_env dp = Some envs \<and> dp_credentials dp = Some creds
      \<and> row_of s pid = Some u \<and> u_workspace_path u = Some (image_path (dp_workspace_root dp) pid)
      \<and> entry images (pid @ ''.img'') = Some image \<and> fl_kind image = Regular_File
      \<and> entry envs (pid @ ''.env'') = Some env \<and> fl_kind env = Regular_File
      \<and> fl_text env = env_line (9101 + int i)
      \<and> entry creds (credential_name pid) = Some c \<and> fl_kind c = Regular_File
      \<and> fl_owner c = dp_credential_owner dp \<and> fl_mode c \<in> {256, 384}
      \<and> u_api_token_hash u = Some (token_hash (strip (fl_text c))))"

lemma check_instance_sound:
  assumes "check_instance token_hash s dp (the (dp_workspaces dp)) (the (dp_env dp)) (the (dp_credentials dp)) (i, pid)
      = Inr user"
    and "dp_workspaces dp \<noteq> None" "dp_env dp \<noteq> None" "dp_credentials dp \<noteq> None" and "\<And>t. token_hash t \<noteq> []"
  shows "instance_sound token_hash s dp i pid \<and> user = \<lparr>gw_public_id = pid, gw_port = 9101 + int i\<rparr> \<and> valid_user user"
proof -
  have user: "make_gateway_user pid (9101 + int i) = Inr user"
    using assms(1) by (auto simp: check_instance_def Let_def)
  then have "user = \<lparr>gw_public_id = pid, gw_port = 9101 + int i\<rparr>"
    by (simp add: make_gateway_user_def split: if_splits)
  moreover have "instance_sound token_hash s dp i pid"
    using assms
    by (auto simp: check_instance_def Let_def instance_sound_def split: option.splits)
  ultimately show ?thesis using user by (simp add: valid_user_def)
qed

lemma verify_Inr:
  assumes "verify_bootstrap token_hash s dp = Inr (n, ports)" and "\<And>t. token_hash t \<noteq> []"
  obtains instances where "roster_instances (dp_roster dp) = Inr instances" and "n = length instances"
    and "ports = map (\<lambda>i. 9101 + int i) [0..<n]"
    and "u_public_id ` set (developer_rows s) = set instances"
    and "\<forall>i < n. instance_sound token_hash s dp i (instances ! i)"
    and "list_all valid_user (map (\<lambda>i. \<lparr>gw_public_id = instances ! i, gw_port = 9101 + int i\<rparr>) [0..<n])"
    and "check_caddyfile dp (map (\<lambda>i. \<lparr>gw_public_id = instances ! i, gw_port = 9101 + int i\<rparr>) [0..<n]) = Inr ()"
proof -
  from assms(1) obtain instances pairs where
    roster: "roster_instances (dp_roster dp) = Inr instances" and n: "n = length instances" and p: "ports = map gw_port pairs"
    and devs: "u_public_id ` set (developer_rows s) = set instances"
    and some: "dp_workspaces dp \<noteq> None" "dp_env dp \<noteq> None" "dp_credentials dp \<noteq> None"
    and loop: "map_result (check_instance token_hash s dp (the (dp_workspaces dp)) (the (dp_env dp)) (the (dp_credentials dp)))
         (enumerate 0 instances) = Inr pairs"
    and caddy: "check_caddyfile dp pairs = Inr ()"
    unfolding verify_bootstrap_def by (auto simp: entry_set_Inr)
  have turn: "instance_sound token_hash s dp i (instances ! i)
      \<and> pairs ! i = \<lparr>gw_public_id = instances ! i, gw_port = 9101 + int i\<rparr> \<and> valid_user (pairs ! i)" if "i < n" for i
    using map_result_nth [OF loop, of i] that
      check_instance_sound [OF _ some assms(2)] by (simp add: n nth_enumerate_eq)
  have "length pairs = n" using map_result_Inr_length [OF loop] by (simp add: n)
  then have pairs: "pairs = map (\<lambda>i. \<lparr>gw_public_id = instances ! i, gw_port = 9101 + int i\<rparr>) [0..<n]"
    using turn by (intro nth_equalityI) simp_all
  show ?thesis
  proof (rule that [OF roster n _ devs])
    show "ports = map (\<lambda>i. 9101 + int i) [0..<n]" by (simp add: p pairs comp_def)
    show "list_all valid_user (map (\<lambda>i. \<lparr>gw_public_id = instances ! i, gw_port = 9101 + int i\<rparr>) [0..<n])"
      using turn pairs by (auto simp: list_all_iff)
    show "check_caddyfile dp (map (\<lambda>i. \<lparr>gw_public_id = instances ! i, gw_port = 9101 + int i\<rparr>) [0..<n]) = Inr ()"
      using caddy by (simp add: pairs)
  qed (use turn in blast)
qed

lemma credential_logs_in:
  assumes "instance_sound token_hash s dp i pid" and "accounts_inv s" and "dp_credentials dp = Some creds"
  shows "\<exists>c. entry creds (credential_name pid) = Some c
    \<and> (\<forall>u. get_user_by_api_token token_hash s (strip (fl_text c)) = Some u \<longrightarrow> u_public_id u = pid)
    \<and> (\<forall>u. row_of s pid = Some u \<and> u_status u = Active \<longrightarrow>
        get_user_by_api_token token_hash s (strip (fl_text c)) = Some u)"
proof -
  from assms(1,3) obtain u c where u: "row_of s pid = Some u" and c: "entry creds (credential_name pid) = Some c"
    and hash: "u_api_token_hash u = Some (token_hash (strip (fl_text c)))"
    by (auto simp: instance_sound_def)
  have mem: "u \<in> set (t_rows (users s))" "u_public_id u = pid" using row_of_Some [OF u] by simp_all
  have same: "v = u" if "v \<in> set (t_rows (users s))" "u_api_token_hash v = Some (token_hash (strip (fl_text c)))" for v
  proof (rule ccontr)
    assume "v \<noteq> u"
    with that mem have "u_id v \<noteq> u_id u"
      using assms(2) by (auto simp: accounts_inv_def users_inv_def keys_ok_def distinct_map dest: inj_onD)
    with that(1) mem(1) have "clash_free v u"
      using assms(2) unfolding accounts_inv_def users_inv_def by blast
    with that(2) hash show False by (simp add: clash_free_def)
  qed
  have only: "v = u" if "get_user_by_api_token token_hash s (strip (fl_text c)) = Some v" for v
    using that same by (auto simp: get_user_by_api_token_def select_where_def dest!: fetchone_in)
  have found: "get_user_by_api_token token_hash s (strip (fl_text c)) = Some u" if "u_status u = Active"
  proof (cases "get_user_by_api_token token_hash s (strip (fl_text c))")
    case None
    then show ?thesis
      using mem hash that by (auto simp: get_user_by_api_token_def select_where_def filter_empty_conv)
  next
    case (Some v)
    then show ?thesis using only by simp
  qed
  show ?thesis
    by (intro exI [of _ c] conjI allI impI c) (use only found u mem(2) in auto)
qed

text \<open>C29: a deployment that passes the release check is coherent. Its developers are exactly the one to three
  instances of the release roster; the \<open>i\<close>-th instance has its own image, its port 9101 + i in its environment
  file, and a credential file whose token logs in its developer and nobody else; and the Caddy
  configuration sends the requests of that instance, authorised, to that same port, and every other request to the
  control plane.\<close>
theorem verified_release_coherent:
  assumes "verify_bootstrap token_hash s dp = Inr (n, ports)" and "accounts_inv s" and "\<forall>t. token_hash t \<noteq> []"
  shows "\<exists>instances caddy creds. lines_of (the (dp_roster dp)) = instances \<and> length instances = n \<and> n \<in> {1, 2, 3}
    \<and> ports = take n INSTANCE_PORTS \<and> distinct instances
    \<and> u_public_id ` set (developer_rows s) = set instances
    \<and> dp_caddyfile dp = Some caddy \<and> dp_credentials dp = Some creds
    \<and> set (caddy_routes (fl_text caddy)) =
        {(''/u/'' @ instances ! i @ ''/* {'', True, ''127.0.0.1:'' @ int_text (9101 + int i)) |i. i < n}
        \<union> {(''{'', False, ''127.0.0.1:9000'')}
    \<and> (\<forall>i < n. instance_sound token_hash s dp i (instances ! i))
    \<and> (\<forall>i < n. (\<exists>c. entry creds (credential_name (instances ! i)) = Some c
            \<and> (\<forall>u. get_user_by_api_token token_hash s (strip (fl_text c)) = Some u \<longrightarrow> u_public_id u = instances ! i)
            \<and> (\<forall>u. row_of s (instances ! i) = Some u \<and> u_status u = Active \<longrightarrow>
                get_user_by_api_token token_hash s (strip (fl_text c)) = Some u)))"
proof -
  have nonempty: "token_hash t \<noteq> []" for t using assms(3) by blast
  obtain instances where r: "roster_instances (dp_roster dp) = Inr instances" and n: "n = length instances"
    and ports: "ports = map (\<lambda>i. 9101 + int i) [0..<n]"
    and devs: "u_public_id ` set (developer_rows s) = set instances"
    and sound: "\<forall>i < n. instance_sound token_hash s dp i (instances ! i)"
    and valid: "list_all valid_user (map (\<lambda>i. \<lparr>gw_public_id = instances ! i, gw_port = 9101 + int i\<rparr>) [0..<n])"
    and caddy: "check_caddyfile dp (map (\<lambda>i. \<lparr>gw_public_id = instances ! i, gw_port = 9101 + int i\<rparr>) [0..<n]) = Inr ()"
    by (rule verify_Inr [OF assms(1) nonempty])
  have three: "n \<in> {1, 2, 3}" and dist: "distinct instances" using roster_instances_Inr [OF r] by (auto simp: n)
  have list: "lines_of (the (dp_roster dp)) = instances"
    using r by (auto simp: roster_instances_def Let_def split: option.splits if_splits)
  from caddy obtain f where f: "dp_caddyfile dp = Some f"
    "render_caddyfile (map (\<lambda>i. \<lparr>gw_public_id = instances ! i, gw_port = 9101 + int i\<rparr>) [0..<n]) = Inr (fl_text f)"
    by (auto simp: check_caddyfile_def)
  have routes: "set (caddy_routes (fl_text f)) =
        {(''/u/'' @ instances ! i @ ''/* {'', True, ''127.0.0.1:'' @ int_text (9101 + int i)) |i. i < n}
        \<union> {(''{'', False, ''127.0.0.1:9000'')}"
  proof -
    let ?user = "\<lambda>i. \<lparr>gw_public_id = instances ! i, gw_port = 9101 + int i\<rparr>"
    have "set (caddy_routes (fl_text f)) = user_route ` set (map ?user [0..<n]) \<union> {(''{'', False, ''127.0.0.1:9000'')}"
      using rendered_routes [OF _ f(2)] valid by (simp add: list_all_iff)
    also have "user_route ` set (map ?user [0..<n]) = {user_route (?user i) |i. i < n}" by auto
    finally show ?thesis by (simp add: user_route_def user_prefix_def)
  qed
  from three have "0 < n" by auto
  with sound have "instance_sound token_hash s dp 0 (instances ! 0)" by blast
  then obtain creds where creds: "dp_credentials dp = Some creds" by (auto simp: instance_sound_def)
  have login: "\<exists>c. entry creds (credential_name (instances ! i)) = Some c
      \<and> (\<forall>u. get_user_by_api_token token_hash s (strip (fl_text c)) = Some u \<longrightarrow> u_public_id u = instances ! i)
      \<and> (\<forall>u. row_of s (instances ! i) = Some u \<and> u_status u = Active \<longrightarrow>
          get_user_by_api_token token_hash s (strip (fl_text c)) = Some u)" if "i < n" for i
    using credential_logs_in [OF _ assms(2) creds] sound that by blast
  have "ports = take n INSTANCE_PORTS"
    using three by (auto simp: ports INSTANCE_PORTS_def numeral_2_eq_2 numeral_3_eq_3)
  show ?thesis
    by (rule exI [of _ instances], rule exI [of _ f], rule exI [of _ creds])
      (use list n three dist devs f(1) creds routes sound login \<open>ports = take n INSTANCE_PORTS\<close> in blast)
qed

definition deployed_db :: db where
  "deployed_db = accounts_db\<lparr>users := \<lparr>t_rows = [root_user,
     dev_user\<lparr>u_workspace_path := Some (image_path ''/w'' zero_uuid), u_api_token_hash := Some ''ht''\<rparr>], t_seq = 2\<rparr>\<rparr>"

definition plain_file :: "int \<Rightarrow> string \<Rightarrow> file_entry" where
  "plain_file mode content = \<lparr>fl_kind = Regular_File, fl_owner = 0, fl_mode = mode, fl_text = content\<rparr>"

definition sample_deployment :: deployment where
  "sample_deployment =
     \<lparr>dp_roster = Some (zero_uuid @ [nl]), dp_workspace_root = ''/w'',
      dp_workspaces = Some [(zero_uuid @ ''.img'', plain_file 384 [])],
      dp_env = Some [(''locked-settings.json'', plain_file 420 ''{}''), (''locked-keybindings.json'', plain_file 420 ''[]''),
                     (zero_uuid @ ''.env'', plain_file 384 (env_line 9101))],
      dp_credentials = Some [(credential_name zero_uuid, plain_file 384 (''t'' @ [nl]))],
      dp_caddyfile = Some (plain_file 420 (join_on nl (caddy_lines [sample_user]))),
      dp_caddy_name = ''Caddyfile'', dp_credential_owner = 0, dp_config_owner = 0\<rparr>"

lemma sample_deployment_verified:
  "verify_bootstrap (\<lambda>t. CHR ''h'' # t) deployed_db sample_deployment = Inr (1, [9101])"
proof -
  have lines: "lines_of (zero_uuid @ [nl]) = [zero_uuid]" by code_simp
  have strip: "strip (''t'' @ [nl]) = ''t''" by code_simp
  have roster: "roster_instances (Some (zero_uuid @ [nl])) = Inr [zero_uuid]"
    by (simp add: roster_instances_def lines zero_uuid_canonical)
  have rows: "developer_rows deployed_db =
      [dev_user\<lparr>u_workspace_path := Some (image_path ''/w'' zero_uuid), u_api_token_hash := Some ''ht''\<rparr>]"
    by (simp add: developer_rows_def deployed_db_def select_where_def dev_user_def root_user_def)
  have user: "make_gateway_user zero_uuid 9101 = Inr sample_user"
    by (simp add: make_gateway_user_def zero_uuid_canonical INSTANCE_PORTS_def)
      (simp add: sample_user_def zero_uuid_def)
  have row: "row_of deployed_db zero_uuid =
      Some (dev_user\<lparr>u_workspace_path := Some (image_path ''/w'' zero_uuid), u_api_token_hash := Some ''ht''\<rparr>)"
    by (simp add: row_of_def rows dev_user_def root_user_def)
  have turn: "check_instance (\<lambda>t. CHR ''h'' # t) deployed_db sample_deployment (the (dp_workspaces sample_deployment))
      (the (dp_env sample_deployment)) (the (dp_credentials sample_deployment)) (0, zero_uuid) = Inr sample_user"
    using strip
    by (simp add: check_instance_def Let_def sample_deployment_def row user regular_file_def require_def plain_file_def)
  have locked: "map_result (check_locked sample_deployment (the (dp_env sample_deployment))) locked_names = Inr [(), ()]"
    by (simp add: check_locked_def sample_deployment_def locked_names_def regular_file_def require_def plain_file_def)
  have caddy: "check_caddyfile sample_deployment [sample_user] = Inr ()"
    by (simp add: check_caddyfile_def sample_deployment_def regular_file_def require_def plain_file_def render_caddyfile_def)
  show ?thesis
    using turn locked caddy roster
    by (simp add: verify_bootstrap_def rows sample_deployment_def [THEN arg_cong [where f = dp_roster]]
        sample_deployment_def [THEN arg_cong [where f = dp_workspaces]]
        sample_deployment_def [THEN arg_cong [where f = dp_env]]
        sample_deployment_def [THEN arg_cong [where f = dp_credentials]]
        require_def entry_set_def locked_names_def enumerate_eq_zip)
      (simp add: dev_user_def sample_user_def insert_commute)
qed

theorem verified_release_coherent_witness:
  "\<exists>caddy creds c. dp_caddyfile sample_deployment = Some caddy \<and> dp_credentials sample_deployment = Some creds
     \<and> (''{'', False, ''127.0.0.1:9000'') \<in> set (caddy_routes (fl_text caddy))
     \<and> entry creds (credential_name zero_uuid) = Some c"
proof -
  have "accounts_inv deployed_db"
    using zero_uuid_canonical
    by (simp add: accounts_inv_def users_inv_def sessions_inv_def deployed_db_def accounts_db_def dev_user_def
        root_user_def empty_db_def keys_ok_def clash_free_def zero_uuid_def)
  from verified_release_coherent [OF sample_deployment_verified this] have
    "\<exists>caddy. dp_caddyfile sample_deployment = Some caddy
       \<and> (''{'', False, ''127.0.0.1:9000'') \<in> set (caddy_routes (fl_text caddy))"
    by auto
  then show ?thesis by (auto simp: sample_deployment_def)
qed

end
