(* ===== verification/Worker_Pool.thy ===== *)
theory Worker_Pool
  imports Worker_Runner
begin

text \<open>
  \<open>JobWorker.run_forever\<close>: a fixed number of slots, each a thread that claims, runs and reports one job
  after the other, while developers and administrators use the same database. The slots of the
  production runner share one semaphore for compiling (\<open>SandboxedCppRunner._compile_with_capacity\<close>). A step
  is one broker operation, one phase of the runner, or one operation of somebody else.
\<close>

section \<open>Slots\<close>

text \<open>Where a slot's thread is. An exception that leaves \<open>process_one\<close> ends the thread; \<open>Ended (Some i)\<close>
  is a thread that ended while the job \<open>i\<close> it had claimed was unreported.\<close>

datatype slot =
    Waiting
  | Holding wire_job
  | Building wire_job
  | Running_Cases wire_job
  | Reporting wire_job run_outcome
  | Ended "int option"

fun held :: "slot \<Rightarrow> int option" where
  "held Waiting = None"
| "held (Holding job) = Some (wj_id job)"
| "held (Building job) = Some (wj_id job)"
| "held (Running_Cases job) = Some (wj_id job)"
| "held (Reporting job out) = Some (wj_id job)"
| "held (Ended i) = i"

definition is_building :: "slot \<Rightarrow> bool" where
  "is_building x \<longleftrightarrow> (case x of Building _ \<Rightarrow> True | _ \<Rightarrow> False)"

definition has_ended :: "slot \<Rightarrow> bool" where
  "has_ended x \<longleftrightarrow> (case x of Ended _ \<Rightarrow> True | _ \<Rightarrow> False)"

definition DEFAULT_GLOBAL_COMPILE_SLOTS :: nat where "DEFAULT_GLOBAL_COMPILE_SLOTS = 1"
definition DEFAULT_GLOBAL_RUN_SLOTS :: nat where "DEFAULT_GLOBAL_RUN_SLOTS = 2"

record pool =
  wp_db :: db
  wp_slots :: "slot list"
  wp_permits :: nat
  wp_stop :: bool

definition start_pool :: "int \<Rightarrow> db \<Rightarrow> pool result" where
  "start_pool slots s =
     (if slots < 1 then Inl (ValueError ''slots must be positive'')
      else Inr \<lparr>wp_db = s, wp_slots = replicate (nat slots) Waiting,
                wp_permits = DEFAULT_GLOBAL_COMPILE_SLOTS, wp_stop = False\<rparr>)"

definition set_slot :: "nat \<Rightarrow> slot \<Rightarrow> pool \<Rightarrow> pool" where
  "set_slot i x p = p\<lparr>wp_slots := (wp_slots p)[i := x]\<rparr>"

text \<open>The loop of \<open>run_forever\<close> ends when no thread is alive; then \<open>cmd_worker\<close> returns 0.\<close>

definition worker_exit :: "pool \<Rightarrow> int option" where
  "worker_exit p = (if list_all has_ended (wp_slots p) then Some 0 else None)"

section \<open>Steps\<close>

text \<open>What others do to the queue.\<close>

inductive client_step :: "db \<Rightarrow> db \<Rightarrow> bool" where
  submit: "job_bounds jp \<Longrightarrow> create_job clk uid jp s = Inr (d, s') \<Longrightarrow> client_step s s'"
| cancel: "cancel_job now i uid s = (r, s') \<Longrightarrow> client_step s s'"
| cancel_admin: "cancel_job_admin now i s = (r, s') \<Longrightarrow> client_step s s'"
| grant: "grant_bounds gp \<Longrightarrow> create_grant clk uid actor gp s = Inr (g, s') \<Longrightarrow> client_step s s'"
| other: "jobs s' = jobs s \<Longrightarrow> job_cases s' = job_cases s \<Longrightarrow> quota_grants s' = quota_grants s
    \<Longrightarrow> client_step s s'"

text \<open>One step of the slot \<open>i\<close>, over the broker of the database. A call of the broker may raise before it has
  an effect (\<open>refused\<close>, \<open>unreported\<close>), and the reply to a claim may be lost after it had (\<open>claim_lost\<close>).\<close>

inductive slot_step :: "nat \<Rightarrow> pool \<Rightarrow> pool \<Rightarrow> bool" for i :: nat and p :: pool where
  claimed: "wp_slots p ! i = Waiting \<Longrightarrow> \<not> wp_stop p \<Longrightarrow>
    b_claim (database_broker clk) (wp_db p) = (Inr (Some job), s') \<Longrightarrow>
    slot_step i p (set_slot i (Holding job) (p\<lparr>wp_db := s'\<rparr>))"
| idle: "wp_slots p ! i = Waiting \<Longrightarrow> \<not> wp_stop p \<Longrightarrow>
    b_claim (database_broker clk) (wp_db p) = (Inr None, s') \<Longrightarrow> slot_step i p (p\<lparr>wp_db := s'\<rparr>)"
| refused: "wp_slots p ! i = Waiting \<Longrightarrow> \<not> wp_stop p \<Longrightarrow> slot_step i p (set_slot i (Ended None) p)"
| claim_lost: "wp_slots p ! i = Waiting \<Longrightarrow> \<not> wp_stop p \<Longrightarrow>
    b_claim (database_broker clk) (wp_db p) = (Inr (Some job), s') \<Longrightarrow>
    slot_step i p (set_slot i (Ended (Some (wj_id job))) (p\<lparr>wp_db := s'\<rparr>))"
| stopped: "wp_slots p ! i = Waiting \<Longrightarrow> wp_stop p \<Longrightarrow> slot_step i p (set_slot i (Ended None) p)"
| acquire: "wp_slots p ! i = Holding job \<Longrightarrow> 0 < wp_permits p \<Longrightarrow>
    slot_step i p (set_slot i (Building job) (p\<lparr>wp_permits := wp_permits p - 1\<rparr>))"
| not_compiled: "wp_slots p ! i = Holding job \<Longrightarrow> slot_step i p (set_slot i (Reporting job (Inl m)) p)"
| built: "wp_slots p ! i = Building job \<Longrightarrow>
    slot_step i p (set_slot i (Running_Cases job) (p\<lparr>wp_permits := wp_permits p + 1\<rparr>))"
| build_raised: "wp_slots p ! i = Building job \<Longrightarrow>
    slot_step i p (set_slot i (Reporting job (Inl m)) (p\<lparr>wp_permits := wp_permits p + 1\<rparr>))"
| executed: "wp_slots p ! i = Running_Cases job \<Longrightarrow> terminal (ex_status ex) \<Longrightarrow>
    slot_step i p (set_slot i (Reporting job (Inr ex)) p)"
| raised: "wp_slots p ! i = Running_Cases job \<Longrightarrow> slot_step i p (set_slot i (Reporting job (Inl m)) p)"
| finished: "wp_slots p ! i = Reporting job (Inr ex) \<Longrightarrow>
    b_finish (database_broker clk) (wj_id job) ex (wp_db p) = (Inr (), s') \<Longrightarrow>
    slot_step i p (set_slot i Waiting (p\<lparr>wp_db := s'\<rparr>))"
| not_finished: "wp_slots p ! i = Reporting job (Inr ex) \<Longrightarrow>
    slot_step i p (set_slot i (Reporting job (Inl m)) p)"
| failed: "wp_slots p ! i = Reporting job (Inl m) \<Longrightarrow>
    b_mark_error (database_broker clk) (wj_id job) m (wp_db p) = (Inr (), s') \<Longrightarrow>
    slot_step i p (set_slot i Waiting (p\<lparr>wp_db := s'\<rparr>))"
| unreported: "wp_slots p ! i = Reporting job (Inl m) \<Longrightarrow>
    slot_step i p (set_slot i (Ended (Some (wj_id job))) p)"

inductive pool_step :: "pool \<Rightarrow> pool \<Rightarrow> bool" where
  slot: "i < length (wp_slots p) \<Longrightarrow> slot_step i p p' \<Longrightarrow> pool_step p p'"
| client: "client_step (wp_db p) s' \<Longrightarrow> pool_step p (p\<lparr>wp_db := s'\<rparr>)"
| stop: "pool_step p (p\<lparr>wp_stop := True\<rparr>)"

inductive_cases client_stepE: "client_step s s'"
inductive_cases slot_stepE: "slot_step i p p'"
inductive_cases pool_stepE: "pool_step p p'"

section \<open>The jobs in execution\<close>

definition active_ids :: "db \<Rightarrow> int set" where
  "active_ids s = {j_id j |j. j \<in> set (t_rows (jobs s)) \<and> active (j_status j)}"

lemma active_states [simp]:
  "active Compiling" "\<not> active Queued" "\<not> active Cancelled" "\<not> active SystemError"
  by (simp_all add: active_def)

lemma terminal_inactive [simp]: "terminal st \<Longrightarrow> \<not> active st"
  by (auto simp: terminal_iff dest: active_unfinished)

lemma active_ids_cong: "jobs s' = jobs s \<Longrightarrow> active_ids s' = active_ids s"
  by (simp add: active_ids_def)

lemma in_active_ids: "i \<in> active_ids s \<longleftrightarrow> (\<exists>q \<in> set (t_rows (jobs s)). j_id q = i \<and> active (j_status q))"
  by (auto simp: active_ids_def)

lemma active_ids_updated:
  assumes "jobs s' = update_where P f (jobs s)" and "\<And>j. j_id (f j) = j_id j"
  shows "i \<in> active_ids s' \<longleftrightarrow>
    (\<exists>q \<in> set (t_rows (jobs s)). j_id q = i \<and> active (j_status (if P q then f q else q)))"
proof -
  have id: "j_id (if P q then f q else q) = j_id q" for q using assms(2) by simp
  have "i \<in> active_ids s' \<longleftrightarrow>
      (\<exists>q \<in> set (t_rows (jobs s)). j_id (if P q then f q else q) = i \<and> active (j_status (if P q then f q else q)))"
    unfolding active_ids_def assms(1) in_update_where by blast
  then show ?thesis by (simp only: id)
qed

text \<open>An update that neither activates a job nor ends an active one.\<close>

lemma active_ids_update:
  assumes "jobs s' = update_where P f (jobs s)" and "\<And>j. j_id (f j) = j_id j"
    and "\<And>j. j \<in> set (t_rows (jobs s)) \<Longrightarrow> P j \<Longrightarrow> active (j_status (f j)) = active (j_status j)"
  shows "active_ids s' = active_ids s"
  by (rule set_eqI) (use assms(3) in \<open>auto simp only: active_ids_updated [OF assms(1,2)] in_active_ids [of _ s] split: if_splits\<close>)

lemma active_ids_finish:
  assumes "jobs s' = update_where (\<lambda>j. j_id j = i) f (jobs s)" and "\<And>j. j_id (f j) = j_id j"
    and "\<And>j. \<not> active (j_status (f j))"
  shows "active_ids s' = active_ids s - {i}"
proof (rule set_eqI)
  fix k show "k \<in> active_ids s' \<longleftrightarrow> k \<in> active_ids s - {i}"
    using assms(3) by (auto simp only: active_ids_updated [OF assms(1,2)] in_active_ids [of _ s] Diff_iff singleton_iff split: if_splits)
qed

lemma active_ids_finish_job: "terminal (ex_status ex) \<Longrightarrow> active_ids (finish_job now i ex s) = active_ids s - {i}"
  by (rule active_ids_finish [where f = "finish_row now ex"]) (simp_all add: finish_job_def finish_row_def)

lemma active_ids_mark_error: "active_ids (mark_job_system_error now i m s) = active_ids s - {i}"
  by (rule active_ids_finish [where f = "\<lambda>j. j\<lparr>j_status := SystemError, j_finished_at := Some now,
      j_compile_status := Some SystemError, j_compile_stderr := take 16384 m\<rparr>"])
    (simp_all add: mark_job_system_error_def)

lemma active_ids_row:
  assumes "keys_ok j_id (jobs s)" and "row \<in> set (t_rows (jobs s))"
  shows "j_id row \<in> active_ids s \<longleftrightarrow> active (j_status row)"
  using assms keys_ok_unique by (fastforce simp: active_ids_def)

lemma active_ids_claim:
  assumes "claim_next_job clk s = (Some c, s')" and "keys_ok j_id (jobs s)"
  shows "active_ids s' = insert (j_id (cj_job c)) (active_ids s) \<and> j_id (cj_job c) \<notin> active_ids s"
proof -
  from assms(1) obtain row where row: "row \<in> set (t_rows (jobs s))" "is_eligible s (clk 0) row"
    "cj_job c = row\<lparr>j_status := Compiling\<rparr>"
    "jobs s' = update_where (\<lambda>j. j_id j = j_id row \<and> j_status j = Queued) (start_row (clk 2)) (jobs s)"
    by (rule claim_started)
  have queued: "j_status row = Queued" using row(2) by (simp add: is_eligible_def)
  have new: "j_id row \<notin> active_ids s" using active_ids_row [OF assms(2) row(1)] queued by simp
  have started: "j_id q = j_id row \<and> j_status q = Queued \<or> active (j_status q) \<longleftrightarrow>
      active (j_status (if j_id q = j_id row \<and> j_status q = Queued then start_row (clk 2) q else q))" for q
    by (auto simp: start_row_def)
  have "i \<in> active_ids s' \<longleftrightarrow> i = j_id row \<or> i \<in> active_ids s" for i
  proof -
    have "i \<in> active_ids s' \<longleftrightarrow> (\<exists>q \<in> set (t_rows (jobs s)). j_id q = i
        \<and> (j_id q = j_id row \<and> j_status q = Queued \<or> active (j_status q)))"
      unfolding started by (rule active_ids_updated [OF row(4)]) (simp add: start_row_def)
    then show ?thesis using row(1) queued by (auto simp: in_active_ids)
  qed
  then show ?thesis using new row(3) by auto
qed

lemma active_ids_no_claim:
  assumes "claim_next_job clk s = (None, s')" and "keys_ok j_id (jobs s)"
  shows "active_ids s' = active_ids s"
  using assms(1)
proof (cases rule: claim_cases)
  case (expired row gid)
  note row = next_candidate_eligible [OF expired(1)]
  have "j_status j = Queued" if "j \<in> set (t_rows (jobs s))" "j_id j = j_id row" for j
    using keys_ok_unique [OF assms(2) that(1) row(1) that(2)] row(2) by (simp add: is_eligible_def)
  then show ?thesis
    using expired by (intro active_ids_update [where P = "\<lambda>j. j_id j = j_id row"
          and f = "\<lambda>j. j\<lparr>j_status := Cancelled, j_finished_at := Some (clk 2)\<rparr>"])
      (auto simp: cancel_expired_def)
qed simp_all

lemma request_cancel_active: "active_ids (request_cancel i s) = active_ids s"
  by (rule active_ids_update [where P = "\<lambda>j. j_id j = i" and f = "\<lambda>j. j\<lparr>j_cancel_requested := True\<rparr>"])
    (simp_all add: request_cancel_def)

lemma cancel_row_active:
  assumes "keys_ok j_id (jobs s)" and "row \<in> set (t_rows (jobs s))" and "j_id row = i" and "j_status row = Queued"
    and "jobs s' = update_where (\<lambda>j. j_id j = i) (cancel_row now) (jobs s)"
  shows "active_ids s' = active_ids s"
proof (rule active_ids_update [OF assms(5)])
  fix j assume "j \<in> set (t_rows (jobs s))" and "j_id j = i"
  then have "j = row" using keys_ok_unique [OF assms(1) _ assms(2)] assms(3) by simp
  then show "active (j_status (cancel_row now j)) = active (j_status j)" using assms(4) by (simp add: cancel_row_def)
qed (simp add: cancel_row_def)

lemma active_ids_client: "client_step s s' \<Longrightarrow> keys_ok j_id (jobs s) \<Longrightarrow> active_ids s' = active_ids s"
proof (induction rule: client_step.induct)
  case (submit jp clk uid s d s')
  then obtain grant where s': "s' = snd (insert_job (clk 2) uid jp grant s)"
    by (auto simp: create_job_Inr submission_insert_Inr)
  have "j_status (new_job (clk 2) uid jp grant) = Queued" by (simp add: new_job_def)
  then show ?case by (auto simp: in_active_ids s' insert_job_tables insert_row_def Let_def)
next
  case (cancel now i uid s r s')
  show ?case
  proof (cases "fetchone (select_where (\<lambda>j. j_id j = i \<and> j_user_id j = uid) (jobs s))")
    case (Some row)
    then have "row \<in> set (t_rows (jobs s))" "j_id row = i" by (auto simp: select_where_def dest!: fetchone_in)
    then show ?thesis
      using cancel Some cancel_row_active [of s row i _ now]
      by (auto simp: cancel_job_def Let_def request_cancel_active split: if_splits)
  qed (use cancel in \<open>simp add: cancel_job_def\<close>)
next
  case (cancel_admin now i s r s')
  show ?case
  proof (cases "fetchone (select_where (\<lambda>j. j_id j = i) (jobs s))")
    case (Some row)
    then have "row \<in> set (t_rows (jobs s))" "j_id row = i" by (auto simp: select_where_def dest!: fetchone_in)
    then show ?thesis
      using cancel_admin Some cancel_row_active [of s row i _ now]
      by (auto simp: cancel_job_admin_def Let_def request_cancel_active split: if_splits)
  qed (use cancel_admin in \<open>simp add: cancel_job_admin_def\<close>)
next
  case (grant gp clk uid actor s g s')
  then show ?case by (intro active_ids_cong) (auto simp: create_grant_def Let_def split: if_splits prod.splits)
next
  case (other s' s)
  then show ?case by (intro active_ids_cong)
qed

lemma client_queue_step: "client_step s s' \<Longrightarrow> queue_step s s'"
  by (induction rule: client_step.induct) (auto intro: queue_step.intros)

section \<open>The invariant of the pool\<close>

definition held_ids :: "slot list \<Rightarrow> int set" where
  "held_ids xs = {j. \<exists>i < length xs. held (xs ! i) = Some j}"

definition held_once :: "slot list \<Rightarrow> bool" where
  "held_once xs \<longleftrightarrow> (\<forall>i < length xs. \<forall>k < length xs. i \<noteq> k \<longrightarrow> held (xs ! i) \<noteq> None \<longrightarrow> held (xs ! i) \<noteq> held (xs ! k))"

definition building_count :: "slot list \<Rightarrow> nat" where
  "building_count xs = length (filter is_building xs)"

text \<open>\<open>A\<close> are the jobs an earlier worker left in execution.\<close>

definition pool_inv :: "nat \<Rightarrow> int set \<Rightarrow> pool \<Rightarrow> bool" where
  "pool_inv n A p \<longleftrightarrow>
     reachable (wp_db p) \<and> length (wp_slots p) = n \<and> held_once (wp_slots p)
     \<and> active_ids (wp_db p) = held_ids (wp_slots p) \<union> A \<and> held_ids (wp_slots p) \<inter> A = {}
     \<and> wp_permits p + building_count (wp_slots p) = DEFAULT_GLOBAL_COMPILE_SLOTS"

lemma held_ids_set: "held_ids xs = {j. \<exists>x \<in> set xs. held x = Some j}"
  by (force simp: held_ids_def in_set_conv_nth)

lemma held_ids_keep: "i < length xs \<Longrightarrow> held x = held (xs ! i) \<Longrightarrow> held_ids (xs[i := x]) = held_ids xs"
  by (auto simp: held_ids_def nth_list_update)

lemma held_ids_take:
  "i < length xs \<Longrightarrow> held (xs ! i) = None \<Longrightarrow> held x = Some j \<Longrightarrow> held_ids (xs[i := x]) = insert j (held_ids xs)"
  by (auto simp: held_ids_def nth_list_update) (metis option.distinct(1))

lemma held_ids_drop:
  "i < length xs \<Longrightarrow> held_once xs \<Longrightarrow> held (xs ! i) = Some j \<Longrightarrow> held x = None \<Longrightarrow>
   held_ids (xs[i := x]) = held_ids xs - {j}"
  unfolding held_ids_def held_once_def by (auto simp: nth_list_update) (metis option.distinct(1) option.inject)+

lemma held_once_keep: "i < length xs \<Longrightarrow> held_once xs \<Longrightarrow> held x = held (xs ! i) \<Longrightarrow> held_once (xs[i := x])"
  by (simp add: held_once_def nth_list_update)

lemma held_once_drop: "i < length xs \<Longrightarrow> held_once xs \<Longrightarrow> held x = None \<Longrightarrow> held_once (xs[i := x])"
  by (auto simp: held_once_def nth_list_update)

lemma held_once_take:
  "i < length xs \<Longrightarrow> held_once xs \<Longrightarrow> held x = Some j \<Longrightarrow> j \<notin> held_ids xs \<Longrightarrow> held_once (xs[i := x])"
  by (auto simp: held_once_def held_ids_def nth_list_update)

lemma count_update:
  "i < length xs \<Longrightarrow>
   length (filter P (xs[i := x])) + of_bool (P (xs ! i)) = length (filter P xs) + of_bool (P x)"
proof (induction xs arbitrary: i)
  case (Cons y ys)
  show ?case
  proof (cases i)
    case (Suc k)
    with Cons.IH [of k] Cons.prems show ?thesis by simp
  qed simp
qed simp

lemmas building_update = count_update [where P = is_building, folded building_count_def]

lemma building_keep:
  "i < length xs \<Longrightarrow> \<not> is_building (xs ! i) \<Longrightarrow> \<not> is_building x \<Longrightarrow> building_count (xs[i := x]) = building_count xs"
  using building_update [of i xs x] by simp

lemma is_building_simps [simp]:
  "\<not> is_building Waiting" "\<not> is_building (Holding job)" "is_building (Building job)"
  "\<not> is_building (Running_Cases job)" "\<not> is_building (Reporting job out)" "\<not> is_building (Ended r)"
  by (simp_all add: is_building_def)

text \<open>A step that changes neither the database nor the held job of its slot.\<close>

lemma pool_inv_phase:
  assumes "pool_inv n A p" and "i < length (wp_slots p)" and "held x = held (wp_slots p ! i)"
    and "k + of_bool (is_building x) = wp_permits p + of_bool (is_building (wp_slots p ! i))"
  shows "pool_inv n A (set_slot i x (p\<lparr>wp_permits := k\<rparr>))"
  using assms building_update [OF assms(2), of x]
  by (simp add: pool_inv_def set_slot_def held_ids_keep held_once_keep)

lemma pool_inv_same:
  assumes "pool_inv n A p" and "i < length (wp_slots p)" and "held x = held (wp_slots p ! i)"
    and "is_building x = is_building (wp_slots p ! i)"
  shows "pool_inv n A (set_slot i x p)"
  using pool_inv_phase [OF assms(1,2,3), of "wp_permits p"] assms(4) by simp

lemma held_ids_card: "card (held_ids xs) \<le> length xs"
proof -
  have "held_ids xs \<subseteq> (\<lambda>i. the (held (xs ! i))) ` {..<length xs}" by (force simp: held_ids_def)
  then have "card (held_ids xs) \<le> card {..<length xs}" by (meson surj_card_le finite_lessThan)
  then show ?thesis by simp
qed

text \<open>A step that takes a job, and one that reports it.\<close>

lemma pool_inv_take:
  assumes inv: "pool_inv n A p" and i: "i < length (wp_slots p)" and slot: "wp_slots p ! i = Waiting"
    and claim: "claim_next_job clk (wp_db p) = (Some c, s')" and x: "held x = Some (j_id (cj_job c))" "\<not> is_building x"
  shows "pool_inv n A (set_slot i x (p\<lparr>wp_db := s'\<rparr>))"
proof -
  have reach: "reachable (wp_db p)" using inv by (simp add: pool_inv_def)
  have "reachable s'" by (rule reachable.step [OF reach queue_step.claim [OF claim]])
  moreover have new: "active_ids s' = insert (j_id (cj_job c)) (active_ids (wp_db p))"
    "j_id (cj_job c) \<notin> active_ids (wp_db p)"
    using active_ids_claim [OF claim reachable_keys [OF reach]] by simp_all
  moreover have "held_ids ((wp_slots p)[i := x]) = insert (j_id (cj_job c)) (held_ids (wp_slots p))"
    by (rule held_ids_take [OF i _ x(1)]) (simp add: slot)
  moreover have "held_once ((wp_slots p)[i := x])"
    by (rule held_once_take [OF i _ x(1)]) (use inv new(2) in \<open>auto simp: pool_inv_def\<close>)
  moreover have "building_count ((wp_slots p)[i := x]) = building_count (wp_slots p)"
    by (rule building_keep [OF i _ x(2)]) (simp add: slot)
  ultimately show ?thesis using inv by (auto simp: pool_inv_def set_slot_def)
qed

lemma pool_inv_report:
  assumes inv: "pool_inv n A p" and i: "i < length (wp_slots p)" and slot: "wp_slots p ! i = Reporting job out"
    and "queue_step (wp_db p) s'" and "active_ids s' = active_ids (wp_db p) - {wj_id job}"
  shows "pool_inv n A (set_slot i Waiting (p\<lparr>wp_db := s'\<rparr>))"
proof -
  have held: "held (wp_slots p ! i) = Some (wj_id job)" by (simp add: slot)
  have once: "held_once (wp_slots p)" and "reachable (wp_db p)" using inv by (simp_all add: pool_inv_def)
  then have "reachable s'" using assms(4) reachable.step by blast
  moreover have "wj_id job \<notin> A" using inv held i by (auto simp: pool_inv_def held_ids_def)
  moreover have "held_ids ((wp_slots p)[i := Waiting]) = held_ids (wp_slots p) - {wj_id job}"
    by (rule held_ids_drop [OF i once held]) simp
  moreover have "building_count ((wp_slots p)[i := Waiting]) = building_count (wp_slots p)"
    by (rule building_keep [OF i]) (simp_all add: slot)
  ultimately show ?thesis
    using inv assms(5) i once by (auto simp: pool_inv_def set_slot_def held_once_drop)
qed

lemma claim_call:
  "b_claim (database_broker clk) s = (Inr (Some job), s') \<Longrightarrow>
   \<exists>c. claim_next_job clk s = (Some c, s') \<and> wj_id job = j_id (cj_job c)"
  "b_claim (database_broker clk) s = (Inr None, s') \<Longrightarrow> claim_next_job clk s = (None, s')"
  by (auto simp: database_broker_def Let_def job_view_def split: prod.splits)

text \<open>In the interface of the slots every value that is reported is terminal.\<close>

definition reports_terminal :: "slot list \<Rightarrow> bool" where
  "reports_terminal xs \<longleftrightarrow>
     (\<forall>job ex. Reporting job (Inr ex) \<in> set xs \<longrightarrow> terminal (ex_status ex))"

lemma reports_terminal_update:
  "reports_terminal xs \<Longrightarrow> (\<And>job ex. x = Reporting job (Inr ex) \<Longrightarrow> terminal (ex_status ex)) \<Longrightarrow>
   reports_terminal (xs[i := x])"
  unfolding reports_terminal_def using set_update_subset_insert [of xs i x] by blast

lemma slot_step_reports:
  "slot_step i p p' \<Longrightarrow> reports_terminal (wp_slots p) \<Longrightarrow> reports_terminal (wp_slots p')"
  by (erule slot_step.cases) (auto simp: set_slot_def intro!: reports_terminal_update)

lemma slot_step_inv:
  assumes step: "slot_step i p p'" and i: "i < length (wp_slots p)" and inv: "pool_inv n A p"
    and reports: "reports_terminal (wp_slots p)"
  shows "pool_inv n A p'"
  using step
proof cases
  case (claimed clk job s')
  from claim_call(1) [OF claimed(4)] obtain c where
    "claim_next_job clk (wp_db p) = (Some c, s')" "wj_id job = j_id (cj_job c)" by blast
  then show ?thesis unfolding claimed(1) by (intro pool_inv_take [OF inv i claimed(2)]) simp_all
next
  case (claim_lost clk job s')
  from claim_call(1) [OF claim_lost(4)] obtain c where
    "claim_next_job clk (wp_db p) = (Some c, s')" "wj_id job = j_id (cj_job c)" by blast
  then show ?thesis unfolding claim_lost(1) by (intro pool_inv_take [OF inv i claim_lost(2)]) simp_all
next
  case (idle clk s')
  have reach: "reachable (wp_db p)" using inv by (simp add: pool_inv_def)
  note none = claim_call(2) [OF idle(4)]
  have "reachable s'" by (rule reachable.step [OF reach queue_step.claim [OF none]])
  then show ?thesis
    using inv active_ids_no_claim [OF none reachable_keys [OF reach]] by (simp add: pool_inv_def idle(1))
next
  case (finished job ex clk s')
  have "terminal (ex_status ex)"
    using reports nth_mem [OF i] finished(2) unfolding reports_terminal_def by metis
  moreover have "s' = finish_job (clk 3) (wj_id job) ex (wp_db p)"
    using finished(3) by (simp add: database_broker_def)
  ultimately show ?thesis
    unfolding finished(1)
    by (intro pool_inv_report [OF inv i finished(2)]) (simp_all add: active_ids_finish_job queue_step.finish)
next
  case (failed job m clk s')
  have "s' = mark_job_system_error (clk 4) (wj_id job) m (wp_db p)"
    using failed(3) by (simp add: database_broker_def)
  then show ?thesis
    unfolding failed(1)
    by (intro pool_inv_report [OF inv i failed(2)]) (simp_all add: active_ids_mark_error queue_step.fail)
next
  case (acquire job)
  then show ?thesis using pool_inv_phase [OF inv i, of "Building job" "wp_permits p - 1"] by simp
next
  case (built job)
  then show ?thesis using pool_inv_phase [OF inv i, of "Running_Cases job" "wp_permits p + 1"] by simp
next
  case (build_raised job m)
  then show ?thesis using pool_inv_phase [OF inv i, of "Reporting job (Inl m)" "wp_permits p + 1"] by simp
qed (use inv i in \<open>auto intro!: pool_inv_same\<close>)

lemma pool_step_inv:
  assumes "pool_step p p'" and "pool_inv n A p" and "reports_terminal (wp_slots p)"
  shows "pool_inv n A p' \<and> reports_terminal (wp_slots p')"
  using assms(1)
proof cases
  case (slot i)
  with assms show ?thesis using slot_step_inv slot_step_reports by blast
next
  case (client s')
  have reach: "reachable (wp_db p)" using assms(2) by (simp add: pool_inv_def)
  have "reachable s'" by (rule reachable.step [OF reach client_queue_step [OF client(2)]])
  then show ?thesis
    using assms(2,3) active_ids_client [OF client(2) reachable_keys [OF reach]] by (simp add: pool_inv_def client(1))
qed (use assms(2,3) in \<open>simp add: pool_inv_def\<close>)

lemma pool_steps_inv:
  assumes "pool_step\<^sup>*\<^sup>* p p'" and "pool_inv n A p" and "reports_terminal (wp_slots p)"
  shows "pool_inv n A p' \<and> reports_terminal (wp_slots p')"
  using assms by (induction rule: rtranclp_induct) (auto dest: pool_step_inv)

lemma start_pool_inv:
  assumes "start_pool n s = Inr p" and "reachable s"
  shows "pool_inv (nat n) (active_ids s) p \<and> reports_terminal (wp_slots p)"
  using assms by (auto simp: start_pool_def pool_inv_def held_once_def held_ids_def building_count_def
      reports_terminal_def split: if_splits)

section \<open>Properties\<close>


lemma outage_drains:
  assumes "set (wp_slots p) \<subseteq> {Waiting, Ended None}" and "\<not> wp_stop p"
    and "length (filter (\<lambda>x. x = Waiting) (wp_slots p)) = k"
  shows "\<exists>p'. pool_step\<^sup>*\<^sup>* p p' \<and> list_all has_ended (wp_slots p') \<and> \<not> wp_stop p' \<and> wp_db p' = wp_db p"
  using assms
proof (induction k arbitrary: p)
  case 0
  then have "wp_slots p ! i \<noteq> Waiting" if "i < length (wp_slots p)" for i
    using that by (auto simp: filter_empty_conv)
  with 0 have "list_all has_ended (wp_slots p)"
    by (auto simp: list_all_iff has_ended_def filter_empty_conv)
  with 0 show ?case by blast
next
  case (Suc k)
  then have "Waiting \<in> set (wp_slots p)" by (metis (mono_tags, lifting) Zero_not_Suc filter_False list.size(3))
  then obtain i where i: "i < length (wp_slots p)" "wp_slots p ! i = Waiting" by (auto simp: in_set_conv_nth)
  let ?q = "set_slot i (Ended None) p"
  have step: "pool_step p ?q" by (rule pool_step.slot [OF i(1) slot_step.refused]) (use i Suc.prems in simp_all)
  have "set (wp_slots ?q) \<subseteq> {Waiting, Ended None}"
    using Suc.prems(1) set_update_subset_insert [of "wp_slots p" i "Ended None"] by (auto simp: set_slot_def)
  moreover have "length (filter (\<lambda>x. x = Waiting) (wp_slots ?q)) = k"
    using count_update [OF i(1), of "\<lambda>x. x = Waiting" "Ended None"] i(2) Suc.prems(3) by (simp add: set_slot_def)
  moreover have "\<not> wp_stop ?q" "wp_db ?q = wp_db p" using Suc.prems(2) by (simp_all add: set_slot_def)
  ultimately obtain p' where "pool_step\<^sup>*\<^sup>* ?q p'" "list_all has_ended (wp_slots p')" "\<not> wp_stop p'" "wp_db p' = wp_db p"
    using Suc.IH [of ?q] by auto
  with step show ?case by (metis converse_rtranclp_into_rtranclp)
qed

text \<open>An outage of the broker ends the worker for good. When no slot has a job and the next call of each
  raises, every thread ends although nobody asked the worker to stop; \<open>run_forever\<close> then returns
  normally and the process exits with status 0, which the supervisor (\<open>Restart=on-failure\<close>) takes for
  success.\<close>
theorem outage_ends_worker:
  assumes "set (wp_slots p) \<subseteq> {Waiting}" and "\<not> wp_stop p"
  shows "\<exists>p'. pool_step\<^sup>*\<^sup>* p p' \<and> worker_exit p' = Some 0 \<and> \<not> wp_stop p' \<and> wp_db p' = wp_db p"
proof -
  have "set (wp_slots p) \<subseteq> {Waiting, Ended None}" using assms(1) by blast
  from outage_drains [OF this assms(2) refl] show ?thesis by (auto simp: worker_exit_def)
qed

section \<open>A sample pool\<close>


theorem outage_ends_worker_witness:
  "\<exists>p p'. start_pool 2 (worker_db 64) = Inr p \<and> pool_step\<^sup>*\<^sup>* p p' \<and> worker_exit p' = Some 0"
proof -
  obtain p where p: "start_pool 2 (worker_db 64) = Inr p" by (simp add: start_pool_def)
  then have "set (wp_slots p) \<subseteq> {Waiting}" "\<not> wp_stop p" by (auto simp: start_pool_def)
  from outage_ends_worker [OF this] p show ?thesis by blast
qed

end
