(* ===== verification/Cgroup_Host.thy ===== *)
theory Cgroup_Host
  imports Cgroup_Laws Runner_Laws Runner_Sample
begin

text \<open>
  The production side of \<open>cgroup_v2.py\<close>: \<open>RealCgroupFilesystem\<close> on the host and the discovery of the worker's
  delegated root. What the kernel shows in a control file, what it refuses and when a group still
  counts processes is not in the repository: it is the parameter \<open>kernel\<close>. The operations satisfy the
  laws of \<open>cgroup_files\<close> for every kernel, so the guarantees of the manager hold on the host as well;
  what the in-memory file system promises beyond them (no operation fails, a group can always be
  removed) does not.
\<close>

section \<open>RealCgroupFilesystem\<close>

record host =
  hs_dirs :: "string set"
  hs_written :: "string \<rightharpoonup> string"
  hs_signals :: "(int \<times> int) list"

record kernel =
  kn_text :: "host \<Rightarrow> string \<Rightarrow> string option"
  kn_mkdir :: "host \<Rightarrow> string \<Rightarrow> py_error option"
  kn_write :: "host \<Rightarrow> string \<Rightarrow> string \<Rightarrow> py_error option"
  kn_kill :: "host \<Rightarrow> int \<Rightarrow> py_error option"
  kn_gone :: "host \<Rightarrow> int \<Rightarrow> bool"
  kn_busy :: "host \<Rightarrow> string \<Rightarrow> bool"

text \<open>\<open>mkdir(parents=True, exist_ok=True)\<close> creates the missing directories from the top.\<close>

fun make_dirs :: "kernel \<Rightarrow> string list \<Rightarrow> (host, unit) action" where
  "make_dirs k [] = ret ()"
| "make_dirs k (p # ps) =
     followed
       (\<lambda>h. if p \<in> hs_dirs h then (Inr (), h)
            else case kn_mkdir k h p of
                   Some e \<Rightarrow> (Inl e, h)
                 | None \<Rightarrow> (Inr (), h\<lparr>hs_dirs := insert p (hs_dirs h)\<rparr>))
       (make_dirs k ps)"

definition real_mkdir :: "kernel \<Rightarrow> string \<Rightarrow> (host, unit) action" where
  "real_mkdir k p = make_dirs k (rev (path_and_parents p))"

definition real_write :: "kernel \<Rightarrow> string \<Rightarrow> string \<Rightarrow> (host, unit) action" where
  "real_write k p v h =
     (case kn_write k h p v of
        Some e \<Rightarrow> (Inl e, h)
      | None \<Rightarrow> (Inr (), h\<lparr>hs_written := (hs_written h)(p \<mapsto> v)\<rparr>))"

definition real_exists :: "kernel \<Rightarrow> string \<Rightarrow> host \<Rightarrow> bool" where
  "real_exists k p h \<longleftrightarrow> p \<in> hs_dirs h \<or> kn_text k h p \<noteq> None"

definition real_read :: "kernel \<Rightarrow> string \<Rightarrow> host \<Rightarrow> string result" where
  "real_read k p h =
     (case kn_text k h p of None \<Rightarrow> Inl (OsError ''No such file or directory'') | Some t \<Rightarrow> Inr t)"

text \<open>The kernel prints process ids in decimal, one per line.\<close>

definition real_members :: "kernel \<Rightarrow> string \<Rightarrow> host \<Rightarrow> int list" where
  "real_members k p h =
     (case kn_text k h (p @ ''/cgroup.procs'') of
        None \<Rightarrow> []
      | Some t \<Rightarrow> map (\<lambda>w. int (digits_value w)) (words_of t))"

definition real_kill :: "kernel \<Rightarrow> int \<Rightarrow> int \<Rightarrow> (host, unit) action" where
  "real_kill k pid sig h =
     (if kn_gone k h pid then (Inr (), h)
      else case kn_kill k h pid of
             Some e \<Rightarrow> (Inl e, h)
           | None \<Rightarrow> (Inr (), h\<lparr>hs_signals := hs_signals h @ [(pid, sig)]\<rparr>))"

text \<open>\<open>rmdir\<close> fails on a missing directory and on a group that still counts processes; the code
  ignores both.\<close>

definition real_rmdir :: "kernel \<Rightarrow> string \<Rightarrow> (host, unit) action" where
  "real_rmdir k p h =
     (Inr (), if p \<in> hs_dirs h \<and> \<not> kn_busy k h p then h\<lparr>hs_dirs := hs_dirs h - {p}\<rparr> else h)"

definition real_cgroups :: "kernel \<Rightarrow> host cgroup_fs" where
  "real_cgroups k =
     \<lparr>fs_mkdir = real_mkdir k, fs_write = real_write k, fs_exists = real_exists k, fs_read = real_read k,
      fs_members = real_members k, fs_kill = real_kill k, fs_rmdir = real_rmdir k\<rparr>"

lemmas real_fs_defs = real_cgroups_def real_mkdir_def real_write_def real_exists_def real_read_def
  real_members_def real_kill_def real_rmdir_def

section \<open>It keeps the laws\<close>

lemma make_dirs_keeps:
  "make_dirs k ps h = (r, h') \<Longrightarrow> hs_written h' = hs_written h \<and> hs_dirs h \<subseteq> hs_dirs h'"
proof (induction ps arbitrary: h)
  case (Cons p ps)
  then show ?case
    by (fastforce simp: andthen_def split: if_splits option.splits)
qed simp

lemma make_dirs_makes: "make_dirs k ps h = (Inr (), h') \<Longrightarrow> set ps \<subseteq> hs_dirs h'"
proof (induction ps arbitrary: h)
  case (Cons p ps)
  then obtain h1 where "make_dirs k ps h1 = (Inr (), h')" and "p \<in> hs_dirs h1"
    by (fastforce split: if_splits option.splits)
  with Cons.IH make_dirs_keeps show ?case by fastforce
qed simp

context cgroup_files begin

lemma activate_effect:
  assumes "activate fs root pid h = (Inr (), h')"
  shows "is_dir h' (root @ ''/manager'') \<and> last_write h' (root @ ''/manager/cgroup.procs'') = Some (int_text pid)
    \<and> last_write h' (root @ ''/cgroup.subtree_control'') = Some ''+memory +pids''"
proof -
  from assms obtain h1 h2 where "fs_mkdir fs (root @ ''/manager'') h = (Inr (), h1)"
    and "fs_write fs (root @ ''/manager/cgroup.procs'') (int_text pid) h1 = (Inr (), h2)"
    and "fs_write fs (root @ ''/cgroup.subtree_control'') ''+memory +pids'' h2 = (Inr (), h')"
    by (auto simp: activate_def enable_controllers_def)
  from mkdir_makes [OF this(1)] write_dirs [OF this(2)] write_dirs [OF this(3)] write_file [OF this(2)] write_file [OF this(3)]
  show ?thesis by simp
qed

end

interpretation real: cgroup_files "real_cgroups k" hs_written "\<lambda>h p. p \<in> hs_dirs h" for k
proof
  fix p :: string and h h' :: host assume "fs_mkdir (real_cgroups k) p h = (Inr (), h')"
  then show "p \<in> hs_dirs h'"
    using make_dirs_makes path_and_parents_self [of p] by (fastforce simp: real_fs_defs)
qed (auto simp: real_fs_defs dest: make_dirs_keeps split: option.splits if_splits)

section \<open>Discovery\<close>

definition lstrip_slashes :: "string \<Rightarrow> string" where
  "lstrip_slashes s = dropWhile (\<lambda>c. c = CHR ''/'') s"

fun unified_path :: "string list \<Rightarrow> string option" where
  "unified_path [] = None"
| "unified_path (line # lines) =
     (if starts_with line ''0::'' then Some (lstrip_slashes (drop 3 line)) else unified_path lines)"

text \<open>\<open>Path(mount) / relative\<close>, for a relative path without dots.\<close>

definition join_path :: "string \<Rightarrow> string \<Rightarrow> string" where
  "join_path mount relative = (if relative = [] then mount else mount @ ''/'' @ relative)"

definition discover :: "(string \<Rightarrow> bool) \<Rightarrow> string \<Rightarrow> string \<Rightarrow> string result" where
  "discover file_exists mount self_cgroup =
     (case unified_path (lines_of self_cgroup) of
        None \<Rightarrow> Inl (RuntimeError ''process is not running in a cgroup v2 hierarchy'')
      | Some relative \<Rightarrow>
          let root = join_path mount relative
          in if file_exists (root @ ''/cgroup.controllers'') then Inr root
             else Inl (RuntimeError ''worker cgroup is not delegated''))"

text \<open>On a host with the unified hierarchy only, the root is the worker's own group.\<close>

lemma discover_unified:
  assumes "\<forall>c \<in> set path. \<not> is_line_break c" and "lstrip_slashes path = path"
    and "file_exists (join_path mount path @ ''/cgroup.controllers'')"
  shows "discover file_exists mount (''0::/'' @ path @ [nl]) = Inr (join_path mount path)"
proof -
  have "lines_of ((''0::/'' @ path) @ nl # []) = [''0::/'' @ path]"
    using assms(1) by (subst lines_of_line) (auto simp: is_line_break_def)
  moreover have "lstrip_slashes (CHR ''/'' # path) = path"
    using assms(2) by (simp add: lstrip_slashes_def)
  ultimately show ?thesis using assms(3) by (simp add: discover_def)
qed

section \<open>Properties\<close>

text \<open>On the host, whatever the kernel refuses, a case runs under its own memory limit and under its
  user's. When \<open>run_group\<close> returns, the group is the one of that owner, job and position; the case's memory
  limit in bytes, no swap and 8 processes were written to its control files; the aggregate limit, no
  swap and 32 processes to those of the owner's group above it; the case fits into the aggregate; and no
  control file outside these two groups and the delegation files on the way was written.\<close>
theorem host_case_group_limits:
  assumes "run_group (real_cgroups k) root owner job_id position memory_mib aggregate_mib h = (Inr g, h')"
  shows "g = run_group_path root owner job_id position \<and> g \<in> hs_dirs h' \<and> memory_mib \<le> aggregate_mib
    \<and> hs_written h' (g @ ''/memory.max'') = Some (int_text (memory_mib * 1024 * 1024))
    \<and> hs_written h' (g @ ''/memory.swap.max'') = Some ''0'' \<and> hs_written h' (g @ ''/pids.max'') = Some ''8''
    \<and> hs_written h' (owner_path root owner @ ''/memory.max'') = Some (int_text (aggregate_mib * 1024 * 1024))
    \<and> hs_written h' (owner_path root owner @ ''/memory.swap.max'') = Some ''0''
    \<and> hs_written h' (owner_path root owner @ ''/pids.max'') = Some ''32''
    \<and> (\<forall>q. \<not> starts_with q (owner_path root owner) \<and> q \<noteq> root @ ''/users/cgroup.subtree_control''
         \<longrightarrow> hs_written h' q = hs_written h q)"
  using assms by (rule real.run_group_effect)


section \<open>A kernel that refuses nothing\<close>

definition calm_kernel :: kernel where
  "calm_kernel =
     \<lparr>kn_text = (\<lambda>_ _. None), kn_mkdir = (\<lambda>_ _. None), kn_write = (\<lambda>_ _ _. None), kn_kill = (\<lambda>_ _. None),
      kn_gone = (\<lambda>_ _. False), kn_busy = (\<lambda>_ _. False)\<rparr>"

lemma allowed_make_dirs: "kn_mkdir k = (\<lambda>_ _. None) \<Longrightarrow> \<exists>h'. make_dirs k ps h = (Inr (), h')"
  by (induction ps arbitrary: h) simp_all

lemma calm_make_dirs: "\<exists>h'. make_dirs calm_kernel ps h = (Inr (), h')"
  by (rule allowed_make_dirs) (simp add: calm_kernel_def)

interpretation calm: reliable_cgroup_files "real_cgroups calm_kernel" hs_written "\<lambda>h p. p \<in> hs_dirs h"
  by unfold_locales (simp_all add: real_fs_defs calm_make_dirs, auto simp: calm_kernel_def)

definition bare_host :: host where
  "bare_host = \<lparr>hs_dirs = {}, hs_written = Map.empty, hs_signals = []\<rparr>"

definition host_view :: "host run_view" where
  "host_view =
     \<lparr>rv_input = Inr (), rv_started = 0, rv_spawn = ret (), rv_polls = sample_poll 2 (Inr False), rv_kernel = id,
      rv_return_code = 0, rv_ended = 20000000, rv_rss_after = None, rv_stdout = ''42'', rv_stderr = []\<rparr>"

theorem host_case_group_limits_witness:
  "\<exists>h'. run_group (real_cgroups calm_kernel) ''/r'' sample_owner 7 1 64 256 bare_host
      = (Inr (''/r/users/00000000-0000-0000-0000-000000000000/job-7-case-1''), h')
    \<and> hs_written h' (''/r/users/00000000-0000-0000-0000-000000000000/job-7-case-1/memory.max'') = Some ''67108864''"
proof -
  obtain h' where run: "run_group (real_cgroups calm_kernel) ''/r'' sample_owner 7 1 64 256 bare_host
      = (Inr (run_group_path ''/r'' sample_owner 7 1), h')"
    using calm.run_group_ok [of sample_owner 7 1 64 256] sample_owner_canonical by auto
  have texts: "run_group_path ''/r'' sample_owner 7 1 = ''/r/users/00000000-0000-0000-0000-000000000000/job-7-case-1''"
    "int_text (64 * 1024 * 1024) = ''67108864''" by code_simp+
  from host_case_group_limits [OF run] run show ?thesis unfolding texts by (intro exI [of _ h']) simp
qed


end
