(* ===== verification/Broker_Server.thy ===== *)
theory Broker_Server
  imports Broker_Properties Effects "HOL-Library.Word"
begin

text \<open>
  The server end of \<open>broker.py\<close> around a connection: whom it serves (\<open>linux_peer_identity\<close>,
  \<open>AllowedUidAuthorizer\<close>) and the life cycle of \<open>UnixJobBrokerServer\<close> on its socket path. The bytes of the peer
  credentials come from the kernel, as the three 32-bit integers of \<open>struct ucred\<close> in little-endian
  order; the system calls of \<open>start\<close> may fail, as \<open>faults\<close> tells.
\<close>

section \<open>Peers\<close>

type_synonym byte = "8 word"

record peer =
  pr_pid :: int
  pr_uid :: int
  pr_gid :: int

text \<open>\<open>struct.unpack("3i", raw)\<close>: three signed integers, or \<open>struct.error\<close>.\<close>

definition signed_int :: "byte list \<Rightarrow> int" where
  "signed_int bs = sint (word_rcat (rev bs) :: 32 word)"

definition unpack_ints :: "byte list \<Rightarrow> (int \<times> int \<times> int) option" where
  "unpack_ints raw =
     (if length raw = 12
      then Some (signed_int (take 4 raw), signed_int (take 4 (drop 4 raw)), signed_int (drop 8 raw))
      else None)"

definition linux_peer_identity :: "byte list \<Rightarrow> peer option" where
  "linux_peer_identity raw =
     map_option (\<lambda>(pid, uid, gid). \<lparr>pr_pid = pid, pr_uid = uid, pr_gid = gid\<rparr>) (unpack_ints raw)"

definition allowed_uid :: "int list \<Rightarrow> peer \<Rightarrow> bool" where
  "allowed_uid allowed peer \<longleftrightarrow> pr_uid peer \<in> set allowed"

text \<open>The constructor: the message limit and the uids served, by default the server's own.\<close>

record server =
  sv_maximum :: nat
  sv_allowed :: "int list"

definition new_server :: "int \<Rightarrow> int \<Rightarrow> int list option \<Rightarrow> server result" where
  "new_server own_uid maximum allowed =
     (if maximum < 64 then Inl (ValueError ''max_message_bytes must be at least 64'')
      else Inr \<lparr>sv_maximum = nat maximum,
                sv_allowed = (case allowed of None \<Rightarrow> [own_uid] | Some uids \<Rightarrow> uids)\<rparr>)"

text \<open>\<open>set(args.worker_uid or [os.getuid()])\<close> of the \<open>serve\<close> command.\<close>

definition worker_uids :: "int \<Rightarrow> int list \<Rightarrow> int list" where
  "worker_uids own_uid uids = (if uids = [] then [own_uid] else uids)"

text \<open>\<open>handle\<close> from the first line on. An exception of the credentials is answered like any other.\<close>

definition serve_peer ::
    "(string \<Rightarrow> json option) \<Rightarrow> server \<Rightarrow> byte list \<Rightarrow> 's broker \<Rightarrow> string list \<Rightarrow> 's \<Rightarrow> json option \<times> 's" where
  "serve_peer loads sv raw b chunks s =
     (case linux_peer_identity raw of
        None \<Rightarrow>
          (let r = error_reply ''internal_error'' in if wire_size r > sv_maximum sv then None else Some r, s)
      | Some peer \<Rightarrow> serve_connection loads (sv_maximum sv) (allowed_uid (sv_allowed sv) peer) b chunks s)"

section \<open>The socket path\<close>

text \<open>What the path names; sockets are numbered in the order of their binding. A \<open>site\<close> is the path, the sockets
  somebody answers, and the socket each server object of the process has started, if any.\<close>

datatype node = Socket nat | Plain_File | Directory | Link

record site =
  si_node :: "node option"
  si_mode :: int
  si_answered :: "nat set"
  si_bound :: nat
  si_server :: "nat \<Rightarrow> nat option"

record faults =
  fa_mkdir :: "py_error option"
  fa_unlink :: "py_error option"
  fa_bind :: "py_error option"
  fa_chmod :: "py_error option"
  fa_mode :: int

definition failing :: "py_error option \<Rightarrow> (site, unit) action" where
  "failing f = (case f of None \<Rightarrow> ret () | Some e \<Rightarrow> raise e)"

definition clear_path :: "string \<Rightarrow> faults \<Rightarrow> (site, unit) action" where
  "clear_path path fa s =
     (case si_node s of
        None \<Rightarrow> (Inr (), s)
      | Some (Socket _) \<Rightarrow> followed (failing (fa_unlink fa)) (\<lambda>s. (Inr (), s\<lparr>si_node := None\<rparr>)) s
      | Some _ \<Rightarrow> (Inl (RuntimeError (''refusing to replace non-socket path: '' @ path)), s))"

definition bind_socket :: "faults \<Rightarrow> (site, nat) action" where
  "bind_socket fa =
     followed (failing (fa_bind fa))
       (\<lambda>s. if si_node s \<noteq> None then (Inl (OsError ''Address already in use''), s)
            else (Inr (si_bound s),
                  s\<lparr>si_node := Some (Socket (si_bound s)), si_mode := fa_mode fa, si_bound := si_bound s + 1\<rparr>))"

definition start_server :: "string \<Rightarrow> faults \<Rightarrow> nat \<Rightarrow> (site, unit) action" where
  "start_server path fa me s =
     (if si_server s me \<noteq> None then (Inl (RuntimeError ''broker server already started''), s)
      else followed (failing (fa_mkdir fa))
        (followed (clear_path path fa)
        (andthen (bind_socket fa) (\<lambda>n.
         followed (failing (fa_chmod fa))
        (\<lambda>s. (Inr (), s\<lparr>si_mode := 432, si_server := (si_server s)(me \<mapsto> n),
                        si_answered := insert n (si_answered s)\<rparr>))))) s)"

definition close_server :: "nat \<Rightarrow> (site, unit) action" where
  "close_server me s =
     (case si_server s me of
        None \<Rightarrow> (Inr (), s)
      | Some n \<Rightarrow>
          let s1 = s\<lparr>si_answered := si_answered s - {n}, si_server := (si_server s)(me := None)\<rparr>
          in if si_node s1 = Some Directory then (Inl (OsError ''Is a directory''), s1)
             else (Inr (), s1\<lparr>si_node := None\<rparr>))"

text \<open>\<open>with UnixJobBrokerServer(...)\<close> around the body of \<open>cmd_serve\<close>.\<close>

definition with_server :: "string \<Rightarrow> faults \<Rightarrow> nat \<Rightarrow> (site, 'a) action \<Rightarrow> (site, 'a) action" where
  "with_server path fa me body =
     followed (start_server path fa me)
       (\<lambda>s. case body s of (r, s1) \<Rightarrow>
          (case close_server me s1 of (Inl e, s2) \<Rightarrow> (Inl e, s2) | (Inr _, s2) \<Rightarrow> (r, s2)))"

text \<open>The socket a client reaches: connecting fails, or is never answered, otherwise.\<close>

definition reached :: "site \<Rightarrow> nat option" where
  "reached s = (case si_node s of Some (Socket n) \<Rightarrow> if n \<in> si_answered s then Some n else None | _ \<Rightarrow> None)"

section \<open>Reading the credentials\<close>

text \<open>The bytes of a C integer, lowest first.\<close>

fun le_bytes :: "nat \<Rightarrow> int \<Rightarrow> byte list" where
  "le_bytes 0 n = []"
| "le_bytes (Suc k) n = word_of_int n # le_bytes k (n div 256)"

definition ucred :: "int \<Rightarrow> int \<Rightarrow> int \<Rightarrow> byte list" where
  "ucred pid uid gid = le_bytes 4 pid @ le_bytes 4 uid @ le_bytes 4 gid"

lemma le_bytes_length [simp]: "length (le_bytes k n) = k"
  by (induction k arbitrary: n) simp_all

lemma le_bytes_value: "horner_sum uint 256 (le_bytes k n) = n mod 256 ^ k"
proof (induction k arbitrary: n)
  case (Suc k)
  have "n mod (256 * 256 ^ k) = 256 * (n div 256 mod 256 ^ k) + n mod 256"
    by (rule zmod_zmult2_eq) simp
  with Suc show ?case by (simp add: uint_word_of_int)
qed simp

lemma signed_int_word: "signed_int (le_bytes 4 n) = sint (word_of_int n :: 32 word)"
proof -
  have "(word_of_int (n mod 256 ^ 4) :: 32 word) = word_of_int n"
    by (simp add: word_of_int_eq_iff take_bit_eq_mod)
  then show ?thesis by (simp add: signed_int_def word_rcat_def le_bytes_value)
qed

lemma signed_int_value:
  assumes "0 \<le> n" and "n < 2 ^ 32"
  shows "signed_int (le_bytes 4 n) = (if n < 2 ^ 31 then n else n - 2 ^ 32)"
proof -
  have "sint (word_of_int m :: 32 word) = m" if "- (2 ^ 31) \<le> m" "m < 2 ^ 31" for m
    using that by (simp add: sint_sbintrunc' signed_take_bit_int_eq_self)
  moreover have "(word_of_int (n - 2 ^ 32) :: 32 word) = word_of_int n"
    by (simp add: word_of_int_eq_iff take_bit_eq_mod)
  ultimately have "signed_int (le_bytes 4 n) = m" if "m = n \<or> m = n - 2 ^ 32" "- (2 ^ 31) \<le> m" "m < 2 ^ 31" for m
    using that unfolding signed_int_word by metis
  then show ?thesis using assms by simp
qed

lemma peer_of_ucred:
  "linux_peer_identity (ucred pid uid gid) =
     Some \<lparr>pr_pid = signed_int (le_bytes 4 pid), pr_uid = signed_int (le_bytes 4 uid),
           pr_gid = signed_int (le_bytes 4 gid)\<rparr>"
  by (simp add: linux_peer_identity_def unpack_ints_def ucred_def)

section \<open>Life cycle\<close>

lemma failing_cases: "failing f s = (r, s') \<Longrightarrow> s' = s \<and> (r = Inr () \<longleftrightarrow> f = None)"
  by (auto simp: failing_def split: option.splits)

lemma failing_simps [simp]: "failing None s = (Inr (), s)" "failing (Some e) s = (Inl e, s)"
  by (simp_all add: failing_def)

definition replaceable :: "site \<Rightarrow> bool" where
  "replaceable s \<longleftrightarrow> (case si_node s of None \<Rightarrow> True | Some (Socket _) \<Rightarrow> True | Some _ \<Rightarrow> False)"

text \<open>What \<open>start\<close> has done when it returns, and when it raises.\<close>

lemma start_server_Inr:
  assumes "start_server path fa me s = (Inr (), s')"
  shows "si_server s me = None \<and> replaceable s
    \<and> s' = s\<lparr>si_node := Some (Socket (si_bound s)), si_mode := 432, si_bound := si_bound s + 1,
             si_server := (si_server s)(me \<mapsto> si_bound s), si_answered := insert (si_bound s) (si_answered s)\<rparr>"
  using assms
  by (auto simp: start_server_def clear_path_def bind_socket_def replaceable_def
      split: if_splits option.splits node.splits dest!: failing_cases)

lemma start_server_Inl:
  assumes "start_server path fa me s = (Inl e, s')"
  shows "si_server s' = si_server s \<and> si_answered s' = si_answered s
    \<and> (\<not> replaceable s \<or> si_server s me \<noteq> None \<longrightarrow> s' = s)"
  using assms
  by (auto simp: start_server_def clear_path_def bind_socket_def replaceable_def andthen_def failing_def
      split: if_splits option.splits node.splits)

inductive server_step :: "string \<Rightarrow> nat \<Rightarrow> site \<Rightarrow> site \<Rightarrow> bool" for path :: string and me :: nat where
  start: "start_server path fa me s = (r, s') \<Longrightarrow> server_step path me s s'"
| close: "close_server me s = (r, s') \<Longrightarrow> server_step path me s s'"

inductive_cases server_stepE: "server_step path me s s'"

definition server_inv :: "nat \<Rightarrow> site \<Rightarrow> bool" where
  "server_inv me s \<longleftrightarrow>
     (case si_server s me of
        None \<Rightarrow> si_answered s = {}
      | Some n \<Rightarrow> si_answered s = {n} \<and> si_node s = Some (Socket n) \<and> si_mode s = 432)"

lemma close_server_eq:
  "server_inv me s \<Longrightarrow> close_server me s =
     (Inr (), if si_server s me = None then s
              else s\<lparr>si_answered := {}, si_server := (si_server s)(me := None), si_node := None\<rparr>)"
  by (auto simp: close_server_def server_inv_def split: option.splits)

lemma server_step_inv: "server_step path me s s' \<Longrightarrow> server_inv me s \<Longrightarrow> server_inv me s'"
proof (erule server_stepE)
  fix fa r assume start: "start_server path fa me s = (r, s')" and inv: "server_inv me s"
  show "server_inv me s'"
  proof (cases r)
    case (Inl e)
    with start inv start_server_Inl [of path fa me s e s'] show ?thesis
      by (cases "si_server s me") (auto simp: server_inv_def)
  next
    case (Inr u)
    with start inv start_server_Inr [of path fa me s s'] show ?thesis by (auto simp: server_inv_def)
  qed
next
  fix r assume "close_server me s = (r, s')" and "server_inv me s"
  then show "server_inv me s'" by (auto simp: close_server_eq) (simp add: server_inv_def)
qed

lemma server_steps_inv: "(server_step path me)\<^sup>*\<^sup>* s s' \<Longrightarrow> server_inv me s \<Longrightarrow> server_inv me s'"
  by (induction rule: rtranclp_induct) (auto intro: server_step_inv)

lemma server_steps_spare:
  assumes "(server_step path me)\<^sup>*\<^sup>* s s'" and "\<not> replaceable s" and "si_server s me = None"
  shows "s' = s"
  using assms
proof (induction rule: rtranclp_induct)
  case (step t u)
  then have "server_step path me s u" by simp
  then show ?case
  proof (rule server_stepE)
    fix fa r assume "start_server path fa me s = (r, u)"
    then show ?thesis
      using step.prems start_server_Inr [of path fa me s u] start_server_Inl [of path fa me s _ u] by (cases r) auto
  qed (use step.prems in \<open>simp add: close_server_def\<close>)
qed simp

lemma reached_inv: "server_inv me s \<Longrightarrow> reached s = si_server s me"
  by (auto simp: server_inv_def reached_def split: option.splits node.splits)

lemma start_succeeds:
  assumes "si_server s me = None" and "replaceable s"
    and "fa_mkdir fa = None" "fa_unlink fa = None" "fa_bind fa = None" "fa_chmod fa = None"
  shows "fst (start_server path fa me s) = Inr ()"
  using assms
  by (auto simp: start_server_def clear_path_def bind_socket_def replaceable_def andthen_run
      split: option.splits node.splits)

section \<open>Properties\<close>

text \<open>C35: the worker socket serves the configured uids only. For the credentials the kernel gives of a peer
  whose process id is below 2^31 and whose uid and gid are 32-bit, with nonnegative uids configured, the
  peer is identified and served exactly when its uid is configured and below 2^31; any other peer is
  answered \<open>unauthorized_peer\<close> and changes nothing. A uid of 2^31 or more is read as a negative number, so
  it is refused even where it is configured.\<close>
theorem peer_authorised_iff:
  assumes "0 \<le> pid" "pid < 2 ^ 31" "0 \<le> uid" "uid < 2 ^ 32" "0 \<le> gid" "gid < 2 ^ 32"
    and "\<forall>u \<in> set (sv_allowed sv). 0 \<le> u" and "64 \<le> sv_maximum sv"
  shows "\<exists>peer. linux_peer_identity (ucred pid uid gid) = Some peer \<and> pr_pid peer = pid
    \<and> (allowed_uid (sv_allowed sv) peer \<longleftrightarrow> uid \<in> set (sv_allowed sv) \<and> uid < 2 ^ 31)
    \<and> serve_peer loads sv (ucred pid uid gid) b chunks s =
        (if uid \<in> set (sv_allowed sv) \<and> uid < 2 ^ 31
         then serve_connection loads (sv_maximum sv) True b chunks s
         else (Some (error_reply ''unauthorized_peer''), s))"
proof -
  let ?peer = "\<lparr>pr_pid = pid, pr_uid = signed_int (le_bytes 4 uid), pr_gid = signed_int (le_bytes 4 gid)\<rparr>"
  have peer: "linux_peer_identity (ucred pid uid gid) = Some ?peer"
    using assms(1,2) by (simp add: peer_of_ucred signed_int_value)
  have uid: "allowed_uid (sv_allowed sv) ?peer \<longleftrightarrow> uid \<in> set (sv_allowed sv) \<and> uid < 2 ^ 31"
    using assms(3,4,7) by (auto simp: allowed_uid_def signed_int_value split: if_splits)
  have "wire_size (error_reply ''unauthorized_peer'') = 40" by code_simp
  with assms(8) have refused: "serve_connection loads (sv_maximum sv) False b chunks s
      = (Some (error_reply ''unauthorized_peer''), s)"
    by (simp add: serve_connection_def Let_def)
  show ?thesis
    using peer uid refused
    by (cases "uid \<in> set (sv_allowed sv) \<and> uid < 2 ^ 31") (simp_all add: serve_peer_def, auto)
qed


text \<open>Two servers on one path. Starting the second while the first runs takes the path over without a
  word to either: the first stays started and is no longer reached; closing it removes the socket of the
  second, which then stays started, unreachable and unable to start again.\<close>
theorem takeover_strands_server:
  assumes "start_server path fa a s = (Inr (), s1)" and "start_server path fb b s1 = (Inr (), s2)"
    and "close_server a s2 = (r, s3)" and "a \<noteq> b"
  shows "reached s2 = si_server s2 b \<and> si_server s2 b \<noteq> si_server s2 a \<and> si_server s2 a \<noteq> None
    \<and> reached s3 = None \<and> si_server s3 b \<noteq> None
    \<and> start_server path fb b s3 = (Inl (RuntimeError ''broker server already started''), s3)"
  using start_server_Inr [OF assms(1)] start_server_Inr [OF assms(2)] assms(3,4)
  by (auto simp: close_server_def reached_def start_server_def)

definition no_faults :: faults where
  "no_faults = \<lparr>fa_mkdir = None, fa_unlink = None, fa_bind = None, fa_chmod = None, fa_mode = 509\<rparr>"

definition bare_site :: site where
  "bare_site = \<lparr>si_node = None, si_mode = 0, si_answered = {}, si_bound = 0, si_server = Map.empty\<rparr>"

theorem peer_authorised_iff_witness:
  "serve_peer (\<lambda>_. None) \<lparr>sv_maximum = 64, sv_allowed = [3000000000]\<rparr> (ucred 7 3000000000 0) (database_broker (at 0))
     [] sample_db = (Some (error_reply ''unauthorized_peer''), sample_db)"
  using peer_authorised_iff [of 7 3000000000 0 "\<lparr>sv_maximum = 64, sv_allowed = [3000000000]\<rparr>" "\<lambda>_. None"
      "database_broker (at 0)" "[]" sample_db]
  by auto


theorem takeover_strands_server_witness:
  "\<exists>s1 s2 s3. start_server ''/run/w.sock'' no_faults 0 bare_site = (Inr (), s1)
    \<and> start_server ''/run/w.sock'' no_faults 1 s1 = (Inr (), s2) \<and> close_server 0 s2 = (Inr (), s3)
    \<and> reached s3 = None \<and> si_server s3 1 = Some 1"
proof -
  obtain s1 s2 s3 where
    runs: "start_server ''/run/w.sock'' no_faults 0 bare_site = (Inr (), s1)"
      "start_server ''/run/w.sock'' no_faults 1 s1 = (Inr (), s2)" "close_server 0 s2 = (Inr (), s3)"
    and one: "si_server s3 1 = Some 1"
    by (auto simp: start_server_def clear_path_def bind_socket_def close_server_def andthen_def bare_site_def
        no_faults_def)
  from takeover_strands_server [OF runs] one runs show ?thesis by auto
qed

end
