(* ===== verification/Db_Migration.thy ===== *)
theory Db_Migration
  imports Account_Properties Effects
begin

text \<open>
  \<open>Database.initialize\<close>: opening a database of an earlier schema, whose users have no public id yet, and
  the default header policy. Every start of the control plane runs it.
\<close>

section \<open>The users of an earlier schema\<close>

text \<open>A row of the users table with its \<open>public_id\<close> column apart: \<open>None\<close> is SQL's \<open>NULL\<close>. The table may lack
  the column.\<close>

record old_users =
  ou_has_public_id :: bool
  ou_rows :: "(string option \<times> user_row) list"
  ou_seq :: int

definition lacks_id :: "string option \<Rightarrow> bool" where
  "lacks_id pid \<longleftrightarrow> pid = None \<or> pid = Some []"

text \<open>The loop of \<open>_migrate_user_public_ids\<close>; \<open>uuid k\<close> is the \<open>k\<close>-th value of \<open>uuid.uuid4()\<close>.\<close>

fun backfill :: "(nat \<Rightarrow> string) \<Rightarrow> nat \<Rightarrow> (string option \<times> user_row) list \<Rightarrow> user_row list" where
  "backfill uuid k [] = []"
| "backfill uuid k ((pid, u) # rows) =
     (if lacks_id pid then u\<lparr>u_public_id := uuid k\<rparr> # backfill uuid (Suc k) rows
      else u\<lparr>u_public_id := the pid\<rparr> # backfill uuid k rows)"

definition add_column :: "old_users \<Rightarrow> (string option \<times> user_row) list" where
  "add_column t = (if ou_has_public_id t then ou_rows t else map (\<lambda>(_, u). (None, u)) (ou_rows t))"

definition migrate_user_public_ids :: "(nat \<Rightarrow> string) \<Rightarrow> old_users \<Rightarrow> user_row table result" where
  "migrate_user_public_ids uuid t =
     (let rows = backfill uuid 0 (add_column t)
      in if distinct (map u_public_id rows) then Inr \<lparr>t_rows = rows, t_seq = ou_seq t\<rparr>
         else Inl (IntegrityError ''UNIQUE constraint failed: users.public_id''))"

definition initialize :: "(nat \<Rightarrow> string) \<Rightarrow> stamp \<Rightarrow> old_users \<Rightarrow> db \<Rightarrow> db result" where
  "initialize uuid now t s =
     bind_result (migrate_user_public_ids uuid t) (\<lambda>us. Inr (initialize_headers now (s\<lparr>users := us\<rparr>)))"

text \<open>A database of the current schema, seen by the same code.\<close>

definition current_users :: "db \<Rightarrow> old_users" where
  "current_users s = \<lparr>ou_has_public_id = True,
     ou_rows = map (\<lambda>u. (Some (u_public_id u), u)) (t_rows (users s)), ou_seq = t_seq (users s)\<rparr>"

section \<open>Backfilling\<close>

lemma backfill_complete:
  "\<forall>u \<in> set us. u_public_id u \<noteq> [] \<Longrightarrow> backfill uuid k (map (\<lambda>u. (Some (u_public_id u), u)) us) = us"
  by (induction us) (auto simp: lacks_id_def)

lemma backfill_other_columns:
  "map (u_public_id_update (\<lambda>_. [])) (backfill uuid k rows) = map (u_public_id_update (\<lambda>_. []) \<circ> snd) rows"
  by (induction uuid k rows rule: backfill.induct) auto

lemma backfill_keeps:
  "(pid, u) \<in> set rows \<Longrightarrow> \<not> lacks_id pid \<Longrightarrow> u\<lparr>u_public_id := the pid\<rparr> \<in> set (backfill uuid k rows)"
  by (induction uuid k rows rule: backfill.induct) auto

lemma backfill_ids:
  "v \<in> set (map u_public_id (backfill uuid k rows)) \<Longrightarrow>
   (\<exists>u. (Some v, u) \<in> set rows \<and> v \<noteq> []) \<or> (\<exists>i \<ge> k. v = uuid i)"
proof (induction uuid k rows rule: backfill.induct)
  case (2 uuid k pid u rows)
  then show ?case by (fastforce simp: lacks_id_def split: if_splits dest: Suc_leD)
qed simp

text \<open>The ids in use, and a source of ids that avoids them.\<close>

definition ids_in_use :: "(string option \<times> user_row) list \<Rightarrow> string list" where
  "ids_in_use rows = map (\<lambda>(pid, _). the pid) (filter (\<lambda>(pid, _). \<not> lacks_id pid) rows)"

definition fresh_ids :: "(nat \<Rightarrow> string) \<Rightarrow> string list \<Rightarrow> bool" where
  "fresh_ids uuid used \<longleftrightarrow> inj uuid \<and> (\<forall>k. uuid k \<noteq> [] \<and> uuid k \<notin> set used)"

lemma ids_in_use_Some: "(Some v, u) \<in> set rows \<Longrightarrow> v \<noteq> [] \<Longrightarrow> v \<in> set (ids_in_use rows)"
  by (force simp: ids_in_use_def lacks_id_def)

lemma backfill_distinct:
  "distinct (ids_in_use rows) \<Longrightarrow> fresh_ids uuid (ids_in_use rows) \<Longrightarrow>
   distinct (map u_public_id (backfill uuid k rows))"
proof (induction uuid k rows rule: backfill.induct)
  case (2 uuid k pid u rows)
  show ?case
  proof (cases "lacks_id pid")
    case True
    then have same: "ids_in_use ((pid, u) # rows) = ids_in_use rows" by (simp add: ids_in_use_def)
    have "uuid k \<notin> set (map u_public_id (backfill uuid (Suc k) rows))"
    proof
      assume "uuid k \<in> set (map u_public_id (backfill uuid (Suc k) rows))"
      from backfill_ids [OF this] show False
        using "2.prems"(2) ids_in_use_Some [of "uuid k"] by (auto simp: same fresh_ids_def dest: injD)
    qed
    with 2 True same show ?thesis by simp
  next
    case False
    then have ids: "ids_in_use ((pid, u) # rows) = the pid # ids_in_use rows" by (simp add: ids_in_use_def)
    have "the pid \<notin> set (map u_public_id (backfill uuid k rows))"
    proof
      assume "the pid \<in> set (map u_public_id (backfill uuid k rows))"
      from backfill_ids [OF this] show False
        using "2.prems" ids_in_use_Some [of "the pid"] by (auto simp: ids fresh_ids_def)
    qed
    with 2 False ids show ?thesis by (simp add: fresh_ids_def)
  qed
qed simp

lemma headers_complete: "set ns \<subseteq> set (map h_name hs) \<Longrightarrow> insert_or_ignore now ns hs = hs"
  by (induction now ns hs rule: insert_or_ignore.induct) auto

lemma headers_inserted: "set (map h_name (insert_or_ignore now ns hs)) = set ns \<union> set (map h_name hs)"
  by (induction now ns hs rule: insert_or_ignore.induct) auto

lemma headers_prefix: "\<exists>new. insert_or_ignore now ns hs = hs @ new"
  by (induction now ns hs rule: insert_or_ignore.induct) auto

lemma initialize_current:
  assumes "\<forall>u \<in> set (t_rows (users s)). u_public_id u \<noteq> []" and "distinct (map u_public_id (t_rows (users s)))"
    and "set DEFAULT_HEADERS \<subseteq> set (map h_name (header_policy s))"
  shows "initialize uuid now (current_users s) s = Inr s"
proof -
  have "backfill uuid 0 (map (\<lambda>u. (Some (u_public_id u), u)) (t_rows (users s))) = t_rows (users s)"
    by (rule backfill_complete) (use assms(1) in auto)
  moreover have "insert_or_ignore now (sort DEFAULT_HEADERS) (header_policy s) = header_policy s"
    by (rule headers_complete) (use assms(3) in simp)
  ultimately show ?thesis
    using assms(2)
    by (simp add: initialize_def migrate_user_public_ids_def add_column_def current_users_def initialize_headers_def)
qed

section \<open>Properties\<close>


text \<open>Two users of a table without the column.\<close>

definition legacy_users :: old_users where
  "legacy_users = \<lparr>ou_has_public_id = False, ou_rows = [(None, root_user), (None, dev_user)], ou_seq = 2\<rparr>"

definition numbered :: "nat \<Rightarrow> string" where
  "numbered k = CHR ''i'' # nat_text k"


end
