(* ===== verification/Command_Line.thy ===== *)
theory Command_Line
  imports Bootstrap Gateway Sandbox_Command Db_Migration
begin

text \<open>
  The one-shot commands of \<open>cli.py\<close>: \<open>init-admin\<close>, which creates an administrator once,
  \<open>bootstrap-instance\<close>, which opens the database and bootstraps one instance, and \<open>render-gateway\<close>, which reads pairs of instance and port and prints the Caddy configuration. A
  command exits with a message (\<open>SystemExit\<close>) or fails with an exception; \<open>repr\<close> is Python's, for the
  values quoted in messages.
\<close>

section \<open>init-admin\<close>

definition cmd_init_admin ::
    "(string \<Rightarrow> string) \<Rightarrow> (string \<Rightarrow> string) \<Rightarrow> (nat \<Rightarrow> string) \<Rightarrow> string \<Rightarrow> stamp \<Rightarrow> string \<Rightarrow> string
     \<Rightarrow> db \<Rightarrow> (stop + unit) \<times> db" where
  "cmd_init_admin repr hash_password uuid new_id now username password s =
     (case initialize uuid now (current_users s) s of
        Inl e \<Rightarrow> (Inl (Failed e), s)
      | Inr s1 \<Rightarrow>
          if get_user_by_username s1 username \<noteq> None
          then (Inl (Exits (''administrator '' @ repr username @ '' already exists'')), s1)
          else if length password < 12
          then (Inl (Exits ''administrator password must be at least 12 characters''), s1)
          else
            (case create_admin hash_password (uuid 0) now username password s1 of
               Inl e \<Rightarrow> (Inl (Failed e), s1)
             | Inr (_, s2) \<Rightarrow> (Inr (), s2)))"

section \<open>bootstrap-instance\<close>

definition cmd_bootstrap_instance ::
    "bootstrap_world \<Rightarrow> (nat \<Rightarrow> string) \<Rightarrow> stamp \<Rightarrow> string \<Rightarrow> string \<Rightarrow> string \<Rightarrow> string boot_action" where
  "cmd_bootstrap_instance w uuid now public_id username password st =
     (case initialize uuid now (current_users (bo_db st)) (bo_db st) of
        Inl e \<Rightarrow> (Inl (Failed e), st)
      | Inr s \<Rightarrow>
          andthen (bootstrap_instance w public_id username password)
            (\<lambda>user. ret (''bootstrapped developer instance: '' @ u_public_id user)) (st\<lparr>bo_db := s\<rparr>))"

section \<open>render-gateway\<close>

text \<open>\<open>value.rsplit(sep, 1)\<close>, when it gives two parts.\<close>

definition rsplit_once :: "char \<Rightarrow> string \<Rightarrow> (string \<times> string) option" where
  "rsplit_once c s =
     (case dropWhile (\<lambda>x. x \<noteq> c) (rev s) of
        [] \<Rightarrow> None
      | _ # before \<Rightarrow> Some (rev before, rev (takeWhile (\<lambda>x. x \<noteq> c) (rev s))))"

definition parse_user :: "string \<Rightarrow> gateway_user result" where
  "parse_user value =
     (case rsplit_once (CHR '':'') value of
        None \<Rightarrow> Inl (ValueError ''not enough values to unpack (expected 2, got 1)'')
      | Some (public_id, raw_port) \<Rightarrow> bind_result (py_int raw_port) (make_gateway_user public_id))"

fun parse_users :: "(string \<Rightarrow> string) \<Rightarrow> string list \<Rightarrow> stop + gateway_user list" where
  "parse_users repr [] = Inr []"
| "parse_users repr (value # rest) =
     (case parse_user value of
        Inl _ \<Rightarrow> Inl (Exits (''invalid --user '' @ repr value @ ''; expected UUID:port''))
      | Inr u \<Rightarrow> map_sum id (Cons u) (parse_users repr rest))"

definition cmd_render_gateway :: "(string \<Rightarrow> string) \<Rightarrow> string list \<Rightarrow> stop + string" where
  "cmd_render_gateway repr arguments =
     (case parse_users repr arguments of
        Inl e \<Rightarrow> Inl e
      | Inr pairs \<Rightarrow> map_sum Failed id (render_caddyfile pairs))"

section \<open>Reading an argument\<close>

definition user_argument :: "gateway_user \<Rightarrow> string" where
  "user_argument u = gw_public_id u @ '':'' @ int_text (gw_port u)"

lemma rsplit_once_last:
  assumes "c \<notin> set t"
  shows "rsplit_once c (s @ c # t) = Some (s, t)"
proof -
  have others: "\<And>x. x \<in> set (rev t) \<Longrightarrow> x \<noteq> c" using assms by auto
  have "dropWhile (\<lambda>x. x \<noteq> c) (rev t @ c # rev s) = c # rev s"
    by (subst dropWhile_append2) (use others in simp_all)
  moreover have "takeWhile (\<lambda>x. x \<noteq> c) (rev t @ c # rev s) = rev t"
    by (subst takeWhile_append2) (use others in simp_all)
  moreover have "rev (s @ c # t) = rev t @ c # rev s" by simp
  ultimately show ?thesis unfolding rsplit_once_def by (simp only: list.case rev_rev_ident)
qed

lemma port_round_trip: "p \<in> set INSTANCE_PORTS \<Longrightarrow> py_int (int_text p) = Inr p"
proof -
  have "py_int (int_text 9101) = Inr 9101" "py_int (int_text 9102) = Inr 9102" "py_int (int_text 9103) = Inr 9103"
    by code_simp+
  then show "p \<in> set INSTANCE_PORTS \<Longrightarrow> py_int (int_text p) = Inr p" by (auto simp: INSTANCE_PORTS_def)
qed

lemma port_no_colon: "p \<in> set INSTANCE_PORTS \<Longrightarrow> CHR '':'' \<notin> set (int_text p)"
  using int_text_digits [of p "CHR '':''"] by (auto simp: INSTANCE_PORTS_def is_digit_def)

lemma parse_user_argument: "valid_user u \<Longrightarrow> parse_user (user_argument u) = Inr u"
  by (simp add: parse_user_def user_argument_def rsplit_once_last valid_user_iff port_no_colon port_round_trip)
    (simp add: make_gateway_user_def)

lemma parse_user_valid: "parse_user value = Inr u \<Longrightarrow> valid_user u"
  by (auto simp: parse_user_def valid_user_def make_gateway_user_def split: option.splits if_splits)

lemma parse_users_arguments:
  "\<forall>u \<in> set us. valid_user u \<Longrightarrow> parse_users repr (map user_argument us) = Inr us"
  by (induction us) (simp_all add: parse_user_argument)

lemma parse_users_valid: "parse_users repr arguments = Inr us \<Longrightarrow> \<forall>u \<in> set us. valid_user u"
  by (induction repr arguments arbitrary: us rule: parse_users.induct)
    (auto split: sum.splits simp: parse_user_valid map_sum_def)

section \<open>Properties\<close>

text \<open>C37: the gateway command prints what it is told. For valid pairs, written as \<open>UUID:port\<close>, it prints the
  configuration of exactly these pairs; and whatever arguments it accepts, every instance the printed
  configuration routes to is valid and authorised, and everything else goes to the control plane.\<close>
theorem render_gateway_round_trip:
  shows "(\<forall>us. (\<forall>u \<in> set us. valid_user u) \<longrightarrow>
      cmd_render_gateway repr (map user_argument us) = map_sum Failed id (render_caddyfile us))
    \<and> (\<forall>arguments text. cmd_render_gateway repr arguments = Inr text \<longrightarrow>
        (\<exists>us. (\<forall>u \<in> set us. valid_user u) \<and> parse_users repr arguments = Inr us
          \<and> set (caddy_routes text) = user_route ` set us \<union> {(''{'', False, ''127.0.0.1:9000'')}))"
proof (intro conjI allI impI)
  fix us :: "gateway_user list" assume "\<forall>u \<in> set us. valid_user u"
  then show "cmd_render_gateway repr (map user_argument us) = map_sum Failed id (render_caddyfile us)"
    by (simp add: cmd_render_gateway_def parse_users_arguments)
next
  fix arguments printed assume "cmd_render_gateway repr arguments = Inr printed"
  then obtain us where us: "parse_users repr arguments = Inr us" "render_caddyfile us = Inr printed"
    by (auto simp: cmd_render_gateway_def map_sum_def split: sum.splits)
  have valid: "\<forall>u \<in> set us. valid_user u" by (rule parse_users_valid [OF us(1)])
  then show "\<exists>us. (\<forall>u \<in> set us. valid_user u) \<and> parse_users repr arguments = Inr us
      \<and> set (caddy_routes printed) = user_route ` set us \<union> {(''{'', False, ''127.0.0.1:9000'')}"
    using rendered_routes [OF valid us(2)] us(1) by (intro exI [of _ us]) simp
qed

theorem render_gateway_round_trip_witness:
  "\<exists>text. cmd_render_gateway id [user_argument sample_user, user_argument second_user] = Inr text"
proof -
  have "canonical_uuid ''11111111-1111-1111-1111-111111111111''"
    by (rule canonical_shape_uuid) code_simp
  then have "valid_user second_user" by (simp add: valid_user_iff second_user_def INSTANCE_PORTS_def)
  moreover have "is_ok (render_caddyfile [sample_user, second_user])"
    by (simp add: render_caddyfile_def sample_user_def second_user_def)
  ultimately show ?thesis
    using render_gateway_round_trip [where repr = id, THEN conjunct1, THEN spec [of _ "[sample_user, second_user]"]] sample_user_valid
    by (auto split: sum.splits)
qed

text \<open>An administrator is created once.\<close>

lemma init_admin_once:
  assumes "cmd_init_admin repr hp uuid new_id now name pw s = (Inr (), s')"
    and "initialize uuid' now' (current_users s') s' = Inr s'"
  shows "\<exists>u. get_user_by_username s' name = Some u \<and> u_role u = Admin
    \<and> cmd_init_admin repr hp uuid' new_id' now' name pw' s'
        = (Inl (Exits (''administrator '' @ repr name @ '' already exists'')), s')"
proof -
  from assms(1) obtain s1 uid row where s1: "get_user_by_username s1 name = None"
    and ins: "insert_user row s1 = Inr (uid, s')" and row: "u_username row = name" "u_role row = Admin"
    by (auto simp: cmd_init_admin_def create_admin_def split: sum.splits if_splits)
  then have none: "filter (\<lambda>u. u_username u = name) (t_rows (users s1)) = []"
    by (simp add: get_user_by_username_def select_where_def)
  have "get_user_by_username s' name = Some (row\<lparr>u_id := t_seq (users s1) + 1\<rparr>)"
    using ins none row by (auto simp: insert_user_Inr get_user_by_username_def select_where_def insert_row_def Let_def)
  then show ?thesis using assms(2) row by (simp add: cmd_init_admin_def)
qed

end
