(* ===== verification/Start_Up.thy ===== *)
theory Start_Up
  imports Worker_Pool Cgroup_Host Broker_Server Db_Migration App_Histories
begin

text \<open>
  The two services of \<open>cli.py\<close>, up to the point where they run: \<open>cmd_serve\<close> opens the database, configures the
  application and the broker server; \<open>cmd_worker\<close> builds the runner. Arguments are those of the parsers
  after their defaults; an option that was not given is \<open>None\<close>. Paths are in the normal form \<open>pathlib\<close> gives
  them. What \<open>/proc/self/cgroup\<close> holds, the resolution of links and which files are executable are parameters.
\<close>

section \<open>Paths\<close>

text \<open>An argument counts unless it is missing or empty; a variable counts even when it is empty, which
  \<open>Path\<close> reads as the current directory.\<close>

definition given :: "string option \<Rightarrow> bool" where
  "given argument \<longleftrightarrow> argument \<noteq> None \<and> argument \<noteq> Some []"

definition base_path :: "string option \<Rightarrow> string option \<Rightarrow> string \<Rightarrow> string" where
  "base_path argument variable fallback =
     (if given argument then the argument
      else case variable of None \<Rightarrow> fallback | Some v \<Rightarrow> if v = [] then ''.'' else v)"

definition data_path :: "string option \<Rightarrow> string option \<Rightarrow> string" where
  "data_path argument variable = base_path argument variable ''/var/lib/remote-dev''"

definition workspace_path :: "string option \<Rightarrow> string option \<Rightarrow> string" where
  "workspace_path argument variable = base_path argument variable ''/var/lib/remote-dev/workspaces''"

definition beneath :: "string \<Rightarrow> string \<Rightarrow> string" where
  "beneath directory name = (if directory = ''.'' then name else directory @ ''/'' @ name)"

definition socket_path :: "string option \<Rightarrow> string \<Rightarrow> string" where
  "socket_path argument data = (if given argument then the argument else beneath data ''control-worker.sock'')"

section \<open>serve\<close>

record serve_args =
  sa_data_dir :: "string option"
  sa_workspace_root :: "string option"
  sa_insecure_cookie :: bool
  sa_broker_socket :: "string option"
  sa_worker_uid :: "int list"

record environment =
  en_data :: "string option"
  en_workspaces :: "string option"
  en_uid :: int
  en_pid :: int

record service =
  sv_db :: db
  sv_config :: app_config
  sv_socket :: string
  sv_server :: server

text \<open>\<open>cmd_serve\<close> up to its \<open>with\<close> statement; \<open>cfg\<close> holds what \<open>create_app\<close> takes from elsewhere. The statement
  itself is \<open>with_server\<close>.\<close>

definition cmd_serve ::
    "environment \<Rightarrow> (nat \<Rightarrow> string) \<Rightarrow> stamp \<Rightarrow> app_config \<Rightarrow> serve_args \<Rightarrow> db \<Rightarrow> service result" where
  "cmd_serve en uuid now cfg args s =
     (let data = data_path (sa_data_dir args) (en_data en);
          workspaces = workspace_path (sa_workspace_root args) (en_workspaces en)
      in bind_result (initialize uuid now (current_users s) s) (\<lambda>s'.
           bind_result
             (new_server (en_uid en) (int default_max_message_bytes)
                (Some (worker_uids (en_uid en) (sa_worker_uid args))))
             (\<lambda>server. Inr
                \<lparr>sv_db = s',
                 sv_config = cfg\<lparr>cf_workspace_root := workspaces, cf_workspace_size_mib := 1024,
                   cf_secure_cookies := \<not> sa_insecure_cookie args, cf_managed_mode := True\<rparr>,
                 sv_socket = socket_path (sa_broker_socket args) data, sv_server = server\<rparr>)))"

section \<open>worker\<close>

record worker_args =
  wa_data_dir :: "string option"
  wa_broker_socket :: "string option"
  wa_sandbox_exec :: string
  wa_unsafe_local_runner :: bool

datatype 'h worker_runner =
    Local_Runner string runner_limits
  | Sandboxed_Runner string runner_limits string string "'h manager"

record 'h worker_service =
  ws_socket :: string
  ws_runner :: "'h worker_runner"

definition worker_limits :: runner_limits where
  "worker_limits =
     \<lparr>rl_compile_wall_ms = 30000, rl_compile_memory_mib = 512, rl_stdout_limit_bytes = 1048576,
      rl_stderr_limit_bytes = 524288, rl_total_wall_ms = 180000\<rparr>"

text \<open>The constructor of the sandboxed runner: bubblewrap first, then the launcher.\<close>

definition sandboxed_runner ::
    "(string \<Rightarrow> string) \<Rightarrow> (string \<Rightarrow> bool) \<Rightarrow> string \<Rightarrow> runner_limits \<Rightarrow> string \<Rightarrow> 'h manager
     \<Rightarrow> 'h worker_runner result" where
  "sandboxed_runner resolve executable work_root limits sandbox_exec m =
     (let launcher = resolve sandbox_exec; bwrap = resolve ''/usr/bin/bwrap''
      in case find (\<lambda>f. \<not> executable f) [bwrap, launcher] of
           Some f \<Rightarrow> Inl (OsError (''sandbox dependency is not executable: '' @ f))
         | None \<Rightarrow> Inr (Sandboxed_Runner work_root limits bwrap launcher m))"

definition cmd_worker ::
    "environment \<Rightarrow> kernel \<Rightarrow> (string \<Rightarrow> string) \<Rightarrow> (string \<Rightarrow> bool) \<Rightarrow> string result \<Rightarrow> worker_args
     \<Rightarrow> (host, host worker_service) action" where
  "cmd_worker en k resolve executable self_cgroup args h =
     (let data = data_path (wa_data_dir args) (en_data en);
          work_root = beneath data ''runner'';
          socket = socket_path (wa_broker_socket args) data
      in if wa_unsafe_local_runner args
         then (Inr \<lparr>ws_socket = socket, ws_runner = Local_Runner work_root worker_limits\<rparr>, h)
         else andthen
           (lift (bind_result self_cgroup (discover (\<lambda>p. real_exists k p h) ''/sys/fs/cgroup'')))
           (\<lambda>root. followed (activate (real_cgroups k) root (en_pid en))
             (andthen
               (lift (sandboxed_runner resolve executable work_root worker_limits (wa_sandbox_exec args)
                        \<lparr>cm_fs = real_cgroups k, cm_root = root\<rparr>))
               (\<lambda>runner. ret \<lparr>ws_socket = socket, ws_runner = runner\<rparr>))) h)"

section \<open>Properties\<close>

lemma cmd_worker_sandboxed:
  assumes "cmd_worker en k resolve executable self_cgroup args h = (Inr w, h')" and "\<not> wa_unsafe_local_runner args"
  obtains root content where "self_cgroup = Inr content"
    and "discover (\<lambda>p. real_exists k p h) ''/sys/fs/cgroup'' content = Inr root"
    and "activate (real_cgroups k) root (en_pid en) h = (Inr (), h')"
    and "executable (resolve ''/usr/bin/bwrap'')" and "executable (resolve (wa_sandbox_exec args))"
    and "ws_runner w = Sandboxed_Runner (beneath (data_path (wa_data_dir args) (en_data en)) ''runner'') worker_limits
      (resolve ''/usr/bin/bwrap'') (resolve (wa_sandbox_exec args)) \<lparr>cm_fs = real_cgroups k, cm_root = root\<rparr>"
  using assms
  by (auto simp: cmd_worker_def Let_def sandboxed_runner_def lift_def split: if_splits)



section \<open>A host with a delegated group\<close>

definition delegated_kernel :: kernel where
  "delegated_kernel =
     calm_kernel\<lparr>kn_text := (\<lambda>_ p. if p = ''/sys/fs/cgroup/w/cgroup.controllers'' then Some ''memory pids'' else None)\<rparr>"

definition sample_environment :: environment where
  "sample_environment = \<lparr>en_data = None, en_workspaces = Some [], en_uid = 990, en_pid = 77\<rparr>"

definition sample_worker_args :: worker_args where
  "sample_worker_args = \<lparr>wa_data_dir = None, wa_broker_socket = None,
     wa_sandbox_exec = ''/usr/libexec/remote-dev/sandbox-exec'', wa_unsafe_local_runner = False\<rparr>"

lemma delegated_activation: "\<exists>h'. activate (real_cgroups delegated_kernel) root pid h = (Inr (), h')"
  using allowed_make_dirs [of delegated_kernel "rev (path_and_parents (root @ ''/manager''))" h]
  by (auto simp: activate_def enable_controllers_def real_fs_defs delegated_kernel_def calm_kernel_def)



end
