(* ===== verification/Results_Shown.thy ===== *)
theory Results_Shown
  imports Worker_Runner App_Outcomes
begin

text \<open>
  From the submission of a job to its results, across the HTTP interface, the queue, the worker and the runner: what
  the developer reads back is what the runner produced.
\<close>

section \<open>Reading a job back\<close>

text \<open>A case of an answer, as the result it shows.\<close>

definition shown_result :: "public_case \<Rightarrow> case_result" where
  "shown_result c =
     \<lparr>ca_position = pc_position c, ca_status = pc_status c, ca_stdout = pc_stdout c, ca_stderr = pc_stderr c,
      ca_exit_code = pc_exit_code c, ca_term_signal = pc_term_signal c, ca_wall_time_ms = pc_wall_time_ms c,
      ca_peak_memory_kib = pc_peak_memory_kib c, ca_output_truncated = pc_output_truncated c\<rparr>"

lemma shown_stored: "shown_result (public_case c) = stored_result c"
  by (simp add: shown_result_def public_case_def stored_result_def)

lemma get_job_of_owner:
  assumes "keys_ok j_id (jobs s)" and "row \<in> set (t_rows (jobs s))" and "j_id row = i"
  shows "get_job s i (Some (j_user_id row)) =
    Some \<lparr>jd_job = row, jd_cases = sort_key c_position (case_rows s i),
          jd_case_count = length (sort_key c_position (case_rows s i))\<rparr>"
proof -
  let ?own = "\<lambda>j. j_id j = i \<and> j_user_id j = j_user_id row"
  have "find ?own (t_rows (jobs s)) \<noteq> None" using assms(2,3) by (auto simp: find_None_iff)
  then obtain x where x: "find ?own (t_rows (jobs s)) = Some x" by blast
  from find_Some_filter [OF x] have "x \<in> set (t_rows (jobs s))" and "j_id x = j_id row" using assms(3) by simp_all
  then have "x = row" by (intro keys_ok_unique [OF assms(1) _ assms(2)])
  with x have "fetchone (select_where ?own (jobs s)) = Some row"
    unfolding select_where_def fetchone_filter by blast
  then show ?thesis unfolding get_job_def case_rows_def Let_def option.case by (simp only: option.case)
qed

lemma finished_row:
  "row \<in> set (t_rows (jobs s)) \<Longrightarrow> j_id row = i \<Longrightarrow> finish_row now ex row \<in> set (t_rows (jobs (finish_job now i ex s)))"
  by (force simp: finish_job_def)

lemma rows_in_order:
  assumes "map stored_result cs = rs" and "map ca_position rs = map (\<lambda>k. 1 + int k) [0..<n]"
  shows "sort_key c_position cs = cs"
proof (rule sort_key_id_if_sorted)
  have "map c_position cs = map ca_position (map stored_result cs)" by (simp add: stored_result_def)
  also have "\<dots> = map (\<lambda>k. 1 + int k) [0..<n]" using assms by simp
  finally show "sorted (map c_position cs)" by (simp add: sorted_iff_nth_mono)
qed

section \<open>Property\<close>


text \<open>The round of \<open>worker_db\<close>, while its developer's API token is rotated.\<close>

definition rotated_users :: "user_row table" where
  "rotated_users = \<lparr>t_rows = [(sample_user 1 ''a'')\<lparr>u_api_token_hash := Some ''t''\<rparr>], t_seq = 2\<rparr>"

lemma rotated_developer:
  assumes "users (pl_db p) = rotated_users"
  shows "developer_user sample_config (developer_request r) p = (Inr ((sample_user 1 ''a'')\<lparr>u_api_token_hash := Some ''t''\<rparr>), p)"
proof -
  have "strip (drop 7 ''Bearer t'') = ''t''" by code_simp
  then show ?thesis
    using assms by (simp add: developer_user_def developer_request_def sample_config_def get_user_by_api_token_def
        select_where_def rotated_users_def sample_user_def)
qed


end
