(* ===== verification/Round_Robin.thy ===== *)
theory Round_Robin
  imports Queue_Properties
begin

text \<open>
  The scheduler of \<open>claim_next_job\<close> against an abstract one. The abstract scheduler keeps the users in a list,
  serves the first user of the list who has a runnable job, with that user's oldest job, and moves the
  user to the end. The SQL query knows no list: it orders users by the latest start of one of their jobs.
  \<open>turns\<close> reads the list off a database; the query implements the abstract scheduler on it, and a waiting user
  is served after at most as many others as stand before him.
\<close>

section \<open>The abstract scheduler\<close>

definition rr_pick :: "(int \<Rightarrow> job_row list) \<Rightarrow> int list \<Rightarrow> job_row option" where
  "rr_pick waiting_jobs us =
     (case find (\<lambda>u. waiting_jobs u \<noteq> []) us of
        None \<Rightarrow> None
      | Some u \<Rightarrow> first_by (\<lambda>j. (j_created_at j, j_id j)) (waiting_jobs u))"

definition rr_rotate :: "int \<Rightarrow> int list \<Rightarrow> int list" where
  "rr_rotate u us = filter (\<lambda>v. v \<noteq> u) us @ [u]"

definition places_before :: "int \<Rightarrow> int list \<Rightarrow> nat" where
  "places_before u us = length (takeWhile (\<lambda>v. v \<noteq> u) us)"

text \<open>The list of a database, and the runnable jobs of a user.\<close>

definition turns :: "db \<Rightarrow> int list" where
  "turns s = sort_key (\<lambda>u. (last_claimed_at s u, u)) (map u_id (t_rows (users s)))"

definition runnable :: "db \<Rightarrow> stamp \<Rightarrow> int \<Rightarrow> job_row list" where
  "runnable s now u = filter (\<lambda>j. j_user_id j = u) (eligible s now)"

text \<open>The clock has moved on since the last claim.\<close>

definition on_time :: "clock \<Rightarrow> db \<Rightarrow> bool" where
  "on_time clk s \<longleftrightarrow> (\<forall>j \<in> set (t_rows (jobs s)). \<forall>t. j_started_at j = Some t \<longrightarrow> t < clk 2)"

section \<open>Lists in turn\<close>

lemma find_sort_key:
  assumes "find P (sort_key f xs) = Some x"
  shows "x \<in> set xs" and "P x" and "\<And>y. y \<in> set xs \<Longrightarrow> P y \<Longrightarrow> f x \<le> f y"
proof -
  have "first_by f (filter P xs) = Some x"
    using assms unfolding first_by_def fetchone_filter [symmetric] filter_sort .
  from first_by_least [OF this] show "x \<in> set xs" "P x" "\<And>y. y \<in> set xs \<Longrightarrow> P y \<Longrightarrow> f x \<le> f y" by auto
qed

lemma sort_key_last:
  fixes f f' :: "int \<Rightarrow> 'k::linorder"
  assumes "distinct xs" and "u \<in> set xs" and "inj f'"
    and "\<And>v. v \<noteq> u \<Longrightarrow> f' v = f v" and "\<And>v. v \<in> set xs \<Longrightarrow> v \<noteq> u \<Longrightarrow> f' v < f' u"
  shows "sort_key f' xs = rr_rotate u (sort_key f xs)"
proof (rule map_sorted_distinct_set_unique [where f = f'])
  have inj: "inj_on f' A" for A using assms(3) by (rule inj_on_subset) simp
  then show "inj_on f' (set (sort_key f' xs) \<union> set (rr_rotate u (sort_key f xs)))" .
  show "sorted (map f' (sort_key f' xs))" by simp
  show "distinct (map f' (sort_key f' xs))" "distinct (map f' (rr_rotate u (sort_key f xs)))"
    using assms(1,3) inj by (simp_all add: distinct_map rr_rotate_def inj_image_mem_iff)
  have same: "map f' (filter (\<lambda>v. v \<noteq> u) (sort_key f xs)) = map f (filter (\<lambda>v. v \<noteq> u) (sort_key f xs))"
    by (rule map_cong) (simp_all add: assms(4))
  have "sorted (map f (filter (\<lambda>v. v \<noteq> u) (sort_key f xs)))" by (simp add: filter_sort)
  then have "sorted (map f' (filter (\<lambda>v. v \<noteq> u) (sort_key f xs)))" unfolding same .
  then show "sorted (map f' (rr_rotate u (sort_key f xs)))"
    using assms(5) by (auto simp: rr_rotate_def sorted_append less_imp_le)
  show "set (sort_key f' xs) = set (rr_rotate u (sort_key f xs))"
    using assms(2) by (auto simp: rr_rotate_def)
qed

lemma places_rotate:
  assumes "distinct us" and "w \<in> set (takeWhile (\<lambda>v. v \<noteq> u) us)" and "u \<in> set us"
  shows "Suc (places_before u (rr_rotate w us)) = places_before u us"
  using assms
proof (induction us)
  case (Cons a us)
  have "u \<noteq> w" using Cons.prems(2) by (auto dest: set_takeWhileD)
  show ?case
  proof (cases "a = w")
    case True
    with Cons.prems \<open>u \<noteq> w\<close> have "w \<notin> set us" "u \<in> set us" by auto
    then have "filter (\<lambda>v. v \<noteq> w) us = us" by (intro filter_True) auto
    with True \<open>u \<noteq> w\<close> \<open>u \<in> set us\<close> show ?thesis
      by (simp add: places_before_def rr_rotate_def takeWhile_append1 [where x = u])
  next
    case False
    with Cons have "Suc (places_before u (rr_rotate w us)) = places_before u us" by (auto split: if_splits)
    with False Cons.prems \<open>u \<noteq> w\<close> show ?thesis
      by (cases "a = u") (auto simp: places_before_def rr_rotate_def)
  qed
qed simp

lemma places_before_less: "u \<in> set us \<Longrightarrow> places_before u us < length us"
  by (induction us) (auto simp: places_before_def)

lemma find_before:
  assumes "find P us = Some w" and "P u" and "u \<in> set us" and "w \<noteq> u"
  shows "w \<in> set (takeWhile (\<lambda>v. v \<noteq> u) us)"
  using assms by (induction us) (auto split: if_splits)

section \<open>When a user was last served\<close>

definition start_times :: "db \<Rightarrow> int \<Rightarrow> stamp set" where
  "start_times s u = {t. \<exists>j \<in> set (t_rows (jobs s)). j_user_id j = u \<and> j_started_at j = Some t}"

lemma start_times_list:
  "set (List.map_filter j_started_at (select_where (\<lambda>j. j_user_id j = u) (jobs s))) = start_times s u"
  by (auto simp: start_times_def in_map_filter select_where_def)

lemma last_claimed_None: "last_claimed_at s u = None \<longleftrightarrow> start_times s u = {}"
  unfolding last_claimed_at_def sql_max_None start_times_list [symmetric] by simp

lemma last_claimed_Some:
  "last_claimed_at s u = Some m \<longleftrightarrow> m \<in> start_times s u \<and> (\<forall>t \<in> start_times s u. t \<le> m)"
proof
  assume m: "last_claimed_at s u = Some m"
  from sql_max_in [OF m [unfolded last_claimed_at_def]] sql_max_upper [OF m [unfolded last_claimed_at_def]]
  show "m \<in> start_times s u \<and> (\<forall>t \<in> start_times s u. t \<le> m)" unfolding start_times_list by blast
next
  assume m: "m \<in> start_times s u \<and> (\<forall>t \<in> start_times s u. t \<le> m)"
  then obtain n where n: "last_claimed_at s u = Some n" using last_claimed_None [of s u] by (cases "last_claimed_at s u") auto
  from sql_max_in [OF n [unfolded last_claimed_at_def]] sql_max_upper [OF n [unfolded last_claimed_at_def]] m
  show "last_claimed_at s u = Some m" unfolding start_times_list n by (simp add: order_antisym)
qed

lemma last_claimed_cong:
  assumes "start_times s' u = start_times s u"
  shows "last_claimed_at s' u = last_claimed_at s u"
proof (cases "last_claimed_at s u")
  case None
  with assms show ?thesis by (metis last_claimed_None)
next
  case (Some m)
  then have "last_claimed_at s' u = Some m" unfolding last_claimed_Some assms .
  with Some show ?thesis by simp
qed

lemma turns_cong:
  assumes "map u_id (t_rows (users s')) = map u_id (t_rows (users s))" and "\<And>u. start_times s' u = start_times s u"
  shows "turns s' = turns s"
  unfolding turns_def assms(1) last_claimed_cong [OF assms(2)] ..

section \<open>The query picks by turns\<close>

lemma runnable_iff: "j \<in> set (runnable s now u) \<longleftrightarrow> j \<in> set (t_rows (jobs s)) \<and> is_eligible s now j \<and> j_user_id j = u"
  by (auto simp: runnable_def eligible_def select_where_def)

lemma user_exists_turns: "user_exists s u \<longleftrightarrow> u \<in> set (turns s)"
  by (auto simp: user_exists_def turns_def find_None_iff)

lemma pick_turns:
  assumes "keys_ok j_id (jobs s)"
  shows "next_candidate s now = rr_pick (runnable s now) (turns s)"
proof (cases "next_candidate s now")
  case None
  then have "runnable s now u = []" for u
    using next_candidate_None [of s now] by (auto simp: runnable_def eligible_def select_where_def filter_empty_conv)
  moreover have "find (\<lambda>u. False) (turns s) = None" by (simp add: find_None_iff)
  ultimately show ?thesis using None by (simp add: rr_pick_def)
next
  case (Some row)
  note row = next_candidate_eligible [OF Some]
  let ?key = "\<lambda>u. (last_claimed_at s u, u)" and ?u = "j_user_id row"
  have mine: "row \<in> set (runnable s now ?u)" using row by (simp add: runnable_iff)
  have here: "?u \<in> set (turns s)" using row(2) by (simp add: is_eligible_def flip: user_exists_turns)
  then obtain w where w: "find (\<lambda>u. runnable s now u \<noteq> []) (turns s) = Some w"
    using mine by (cases "find (\<lambda>u. runnable s now u \<noteq> []) (turns s)") (auto simp: find_None_iff)
  note least = find_sort_key [OF w [unfolded turns_def]]
  from least(2) obtain k where k: "k \<in> set (runnable s now w)" by (cases "runnable s now w") auto
  have "?key ?u \<le> ?key w"
    using next_candidate_least(1) [OF Some, of k] k by (simp add: runnable_iff)
  moreover have "?key w \<le> ?key ?u"
  proof (rule least(3))
    show "?u \<in> set (map u_id (t_rows (users s)))" using here by (simp add: turns_def)
    show "runnable s now ?u \<noteq> []" using mine by auto
  qed
  ultimately have same: "w = ?u" using order_antisym by blast
  obtain h where h: "first_by (\<lambda>j. (j_created_at j, j_id j)) (runnable s now ?u) = Some h"
    using mine by (cases "first_by (\<lambda>j. (j_created_at j, j_id j)) (runnable s now ?u)") auto
  note oldest = first_by_least [OF h]
  have "(j_created_at row, j_id row) \<le> (j_created_at h, j_id h)"
    using next_candidate_least(2) [OF Some, of h] oldest(1) by (simp add: runnable_iff)
  with oldest(2) [OF mine] have "j_id h = j_id row" by (meson order_antisym prod.inject)
  moreover have "h \<in> set (t_rows (jobs s))" using oldest(1) by (simp add: runnable_iff)
  ultimately have "h = row" using keys_ok_unique [OF assms _ row(1)] by blast
  with Some w same h show ?thesis by (simp add: rr_pick_def)
qed

section \<open>A claim moves the user to the end\<close>

lemma queued_unstarted:
  assumes "reachable s" and "j \<in> set (t_rows (jobs s))" and "j_status j = Queued"
  shows "j_started_at j = None"
  using reachable_inv [OF assms(1)] assms(2,3) by (simp add: queue_inv_defs job_ok_def)

lemma claim_start_times:
  assumes "keys_ok j_id (jobs s)" and "row \<in> set (t_rows (jobs s))" and "j_started_at row = None" and "j_status row = Queued"
    and "jobs s' = update_where (\<lambda>j. j_id j = j_id row \<and> j_status j = Queued) (start_row now) (jobs s)"
  shows "start_times s' u = (if u = j_user_id row then insert now (start_times s u) else start_times s u)"
proof (rule set_eqI)
  fix t
  have one: "j_id j = j_id row \<and> j_status j = Queued \<longleftrightarrow> j = row" if "j \<in> set (t_rows (jobs s))" for j
    using keys_ok_unique [OF assms(1) that assms(2)] assms(4) by blast
  let ?g = "\<lambda>j. if j_id j = j_id row \<and> j_status j = Queued then start_row now j else j"
  have "t \<in> start_times s' u \<longleftrightarrow> (\<exists>j \<in> set (t_rows (jobs s)). j_user_id (?g j) = u \<and> j_started_at (?g j) = Some t)"
    unfolding start_times_def Bex_def assms(5) in_update_where by blast
  also have "\<dots> \<longleftrightarrow> (\<exists>j \<in> set (t_rows (jobs s)).
      if j = row then j_user_id row = u \<and> t = now else j_user_id j = u \<and> j_started_at j = Some t)"
    by (rule bex_cong [OF refl]) (auto simp: one start_row_def)
  also have "\<dots> \<longleftrightarrow> j_user_id row = u \<and> t = now \<or> t \<in> start_times s u"
    using assms(2,3) by (auto simp: start_times_def split: if_splits)
  finally show "t \<in> start_times s' u \<longleftrightarrow> t \<in> (if u = j_user_id row then insert now (start_times s u) else start_times s u)"
    by auto
qed

lemma claimed_turns:
  assumes "distinct (map u_id (t_rows (users s)))" and "reachable s" and "on_time clk s" and "claim_next_job clk s = (Some c, s')"
  shows "turns s' = rr_rotate (j_user_id (cj_job c)) (turns s)"
proof -
  have keys: "keys_ok j_id (jobs s)" by (rule reachable_keys [OF assms(2)])
  from assms(4) have users: "users s' = users s" by (cases rule: claim_cases) auto
  obtain row where "next_candidate s (clk 0) = Some row" and row: "row \<in> set (t_rows (jobs s))" "is_eligible s (clk 0) row"
      "cj_job c = row\<lparr>j_status := Compiling\<rparr>"
      "jobs s' = update_where (\<lambda>j. j_id j = j_id row \<and> j_status j = Queued) (start_row (clk 2)) (jobs s)"
    and "start_row (clk 2) row \<in> set (t_rows (jobs s'))"
    using claim_started [OF assms(4)] .
  let ?u = "j_user_id row"
  have queued: "j_status row = Queued" using row(2) by (simp add: is_eligible_def)
  have fresh: "j_started_at row = None" using queued_unstarted [OF assms(2) row(1) queued] .
  note times = claim_start_times [OF keys row(1) fresh queued row(4)]
  have past: "t < clk 2" if "t \<in> start_times s v" for t v
    using assms(3) that by (auto simp: start_times_def on_time_def)
  have "start_times s' ?u = insert (clk 2) (start_times s ?u)" using times by simp
  with past have new: "last_claimed_at s' ?u = Some (clk 2)"
    unfolding last_claimed_Some by (auto intro: less_imp_le)
  have old: "last_claimed_at s' v = last_claimed_at s v" if "v \<noteq> ?u" for v
    by (rule last_claimed_cong) (simp add: times that)
  have before: "last_claimed_at s v < Some (clk 2)" for v
  proof (cases "last_claimed_at s v")
    case (Some m)
    with past [of m v] show ?thesis using last_claimed_Some [THEN iffD1, OF Some] by simp
  qed simp
  have "turns s' = rr_rotate ?u (turns s)"
    unfolding turns_def users
  proof (rule sort_key_last)
    show "distinct (map u_id (t_rows (users s)))" using assms(1) .
    show "?u \<in> set (map u_id (t_rows (users s)))"
      using row(2) by (auto simp: is_eligible_def user_exists_turns turns_def)
    show "inj (\<lambda>u. (last_claimed_at s' u, u))" by (simp add: inj_on_def)
  qed (use old new before in \<open>auto simp: less_prod_def\<close>)
  with row(3) show ?thesis by simp
qed

section \<open>Every other step leaves the turns alone\<close>

lemma update_start_times:
  assumes "jobs s' = update_where P f (jobs s)"
    and "\<And>j. j_user_id (f j) = j_user_id j \<and> j_started_at (f j) = j_started_at j"
  shows "start_times s' u = start_times s u"
proof -
  have "(if P j then f j else j) \<in> set (t_rows (jobs s'))" if "j \<in> set (t_rows (jobs s))" for j
    unfolding assms(1) in_update_where using that by blast
  moreover have "j_user_id (if P j then f j else j) = j_user_id j \<and> j_started_at (if P j then f j else j) = j_started_at j"
    for j using assms(2) by simp
  ultimately have "start_times s u \<subseteq> start_times s' u" unfolding start_times_def by fastforce
  moreover have "start_times s' u \<subseteq> start_times s u"
    unfolding start_times_def Bex_def assms(1) in_update_where using assms(2) by (force split: if_splits)
  ultimately show ?thesis by blast
qed

lemma claim_None_start_times:
  assumes "claim_next_job clk s = (None, s')"
  shows "start_times s' u = start_times s u" and "users s' = users s"
proof -
  from assms have "users s' = users s \<and> start_times s' u = start_times s u"
  proof (cases rule: claim_cases)
    case (expired row gid)
    have "start_times (cancel_expired (clk 2) (j_id row) s) u = start_times s u"
      by (rule update_start_times [where P = "\<lambda>j. j_id j = j_id row" and
            f = "\<lambda>j. j\<lparr>j_status := Cancelled, j_finished_at := Some (clk 2)\<rparr>"])
         (simp_all add: cancel_expired_def)
    with expired show ?thesis by (simp add: cancel_expired_def)
  qed simp_all
  then show "start_times s' u = start_times s u" "users s' = users s" by simp_all
qed

lemma submission_start_times:
  assumes "create_job clk uid p s = Inr (d, s')"
  shows "start_times s' u = start_times s u"
proof -
  from assms obtain grant where "s' = snd (insert_job (clk 2) uid p grant s)"
    by (auto simp: create_job_Inr submission_insert_Inr)
  then show ?thesis by (auto simp: start_times_def queue_simps new_job_def)
qed

text \<open>Only a successful claim stamps a start time.\<close>

lemma queue_step_start_times:
  assumes "queue_step s s'"
  shows "(\<forall>u. start_times s' u = start_times s u) \<or> (\<exists>clk c. claim_next_job clk s = (Some c, s'))"
  using assms
proof (cases rule: queue_step_shape)
  case (claimed clk r)
  then show ?thesis by (cases r) (auto dest: claim_None_start_times(1))
next
  case released
  then obtain P f where "keeps_limits f" "jobs s' = update_where P f (jobs s)" by (auto simp: releases_def)
  then have "start_times s' u = start_times s u" for u
    by (intro update_start_times [of s' P f]) (simp_all add: keeps_limits_def)
  then show ?thesis by blast
next
  case (granted gp clk uid actor g)
  then have "jobs s' = jobs s"
    by (auto simp: create_grant_def insert_row_def Let_def split: if_splits)
  then show ?thesis by (simp add: start_times_def)
qed (simp add: submission_start_times)

text \<open>C6: the scheduling query implements round robin. Read as a list of users in the order of their last
  start, the database behaves as the abstract scheduler does: the candidate is the oldest runnable job
  of the first user of the list who has one, a successful claim runs it and moves its user to the end
  of the list, and an unsuccessful one leaves the list as it is.\<close>
theorem claim_refines_round_robin:
  assumes "reachable s" and "distinct (map u_id (t_rows (users s)))" and "on_time clk s" and "claim_next_job clk s = (r, s')"
  shows "next_candidate s (clk 0) = rr_pick (runnable s (clk 0)) (turns s)
    \<and> (case r of
         None \<Rightarrow> turns s' = turns s
       | Some c \<Rightarrow> \<exists>row. rr_pick (runnable s (clk 0)) (turns s) = Some row
           \<and> cj_job c = row\<lparr>j_status := Compiling\<rparr> \<and> turns s' = rr_rotate (j_user_id row) (turns s))"
proof (cases r)
  case None
  note same = claim_None_start_times [OF assms(4) [unfolded None]]
  have "turns s' = turns s" by (rule turns_cong) (simp_all add: same)
  with None show ?thesis using pick_turns [OF reachable_keys [OF assms(1)]] by simp
next
  case (Some c)
  note run = assms(4) [unfolded Some]
  from claim_started [OF run] obtain row where "next_candidate s (clk 0) = Some row"
    "cj_job c = row\<lparr>j_status := Compiling\<rparr>" by metis
  with claimed_turns [OF assms(2,1,3) run] pick_turns [OF reachable_keys [OF assms(1)], of "clk 0"]
  have "rr_pick (runnable s (clk 0)) (turns s) = Some row" "cj_job c = row\<lparr>j_status := Compiling\<rparr>"
    "turns s' = rr_rotate (j_user_id row) (turns s)" by simp_all
  with Some show ?thesis using pick_turns [OF reachable_keys [OF assms(1)]] by auto
qed

section \<open>How long a user waits\<close>

text \<open>
  \<open>waiting u n s s'\<close>: from \<open>s\<close> to \<open>s'\<close>, \<open>n\<close> claims each served somebody else although \<open>u\<close> had a runnable
  job, and any other steps of the queue happened in between.
\<close>

inductive waiting :: "int \<Rightarrow> nat \<Rightarrow> db \<Rightarrow> db \<Rightarrow> bool" where
  start: "waiting u 0 s s"
| overtaken: "waiting u n s s1 \<Longrightarrow> on_time clk s1 \<Longrightarrow> runnable s1 (clk 0) u \<noteq> []
    \<Longrightarrow> claim_next_job clk s1 = (Some c, s2) \<Longrightarrow> j_user_id (cj_job c) \<noteq> u \<Longrightarrow> waiting u (Suc n) s s2"
| quiet: "waiting u n s s1 \<Longrightarrow> queue_step s1 s2 \<Longrightarrow> \<nexists>clk c. claim_next_job clk s1 = (Some c, s2)
    \<Longrightarrow> map u_id (t_rows (users s2)) = map u_id (t_rows (users s1)) \<Longrightarrow> waiting u n s s2"

lemma turns_distinct: "distinct (map u_id (t_rows (users s))) \<Longrightarrow> distinct (turns s)"
  by (simp add: turns_def)

lemma overtaken_before:
  assumes "distinct (map u_id (t_rows (users s)))" and "reachable s" and "on_time clk s" and "runnable s (clk 0) u \<noteq> []"
    and "claim_next_job clk s = (Some c, s')" and "j_user_id (cj_job c) \<noteq> u"
  shows "Suc (places_before u (turns s')) = places_before u (turns s)"
proof -
  let ?w = "j_user_id (cj_job c)"
  have here: "u \<in> set (turns s)"
    using assms(4) by (auto simp: filter_empty_conv runnable_def eligible_def select_where_def is_eligible_def
        simp flip: user_exists_turns)
  from claim_started [OF assms(5)] obtain row where row: "next_candidate s (clk 0) = Some row"
    "cj_job c = row\<lparr>j_status := Compiling\<rparr>" by metis
  then have "rr_pick (runnable s (clk 0)) (turns s) = Some row"
    using pick_turns [OF reachable_keys [OF assms(2)]] by simp
  then obtain w where w: "find (\<lambda>u. runnable s (clk 0) u \<noteq> []) (turns s) = Some w"
      "first_by (\<lambda>j. (j_created_at j, j_id j)) (runnable s (clk 0) w) = Some row"
    by (auto simp: rr_pick_def split: option.splits)
  from first_by_least(1) [OF w(2)] have "w = ?w" using row(2) by (simp add: runnable_iff)
  with w(1) have "?w \<in> set (takeWhile (\<lambda>v. v \<noteq> u) (turns s))"
    using find_before [of "\<lambda>u. runnable s (clk 0) u \<noteq> []" "turns s" ?w u] assms(4,6) here by simp
  from places_rotate [OF turns_distinct [OF assms(1)] this here] show ?thesis
    by (simp add: claimed_turns [OF assms(1,2,3,5)])
qed

lemma waiting_places:
  assumes "waiting u n s s'" and "reachable s" and "distinct (map u_id (t_rows (users s)))"
  shows "reachable s' \<and> map u_id (t_rows (users s')) = map u_id (t_rows (users s))
    \<and> n + places_before u (turns s') = places_before u (turns s)"
  using assms
proof (induction rule: waiting.induct)
  case (overtaken u n s s1 clk c s2)
  then have IH: "reachable s1" "map u_id (t_rows (users s1)) = map u_id (t_rows (users s))"
    "n + places_before u (turns s1) = places_before u (turns s)" by simp_all
  from IH(2) overtaken.prems have "distinct (map u_id (t_rows (users s1)))" by simp
  note before = overtaken_before [OF this IH(1) overtaken.hyps(2-5)]
  have "users s2 = users s1" using overtaken.hyps(4) by (cases rule: claim_cases) simp_all
  moreover have "reachable s2" using IH(1) queue_step.claim [OF overtaken.hyps(4)] by (rule reachable.step)
  ultimately show ?case using IH(2,3) before by simp
next
  case (quiet u n s s1 s2)
  then have IH: "reachable s1" "map u_id (t_rows (users s1)) = map u_id (t_rows (users s))"
    "n + places_before u (turns s1) = places_before u (turns s)" by simp_all
  from queue_step_start_times [OF quiet.hyps(2)] quiet.hyps(3) have "start_times s2 v = start_times s1 v" for v by blast
  from turns_cong [OF quiet.hyps(4) this] reachable.step [OF IH(1) quiet.hyps(2)] IH(2,3) quiet.hyps(4)
  show ?case by simp
qed simp

text \<open>C12: bounded waiting. While a user has a runnable job, claims serve at most as many others as stand
  before him in the list, and so fewer than there are users, whatever is submitted, finished,
  cancelled or granted in between.\<close>
theorem bounded_waiting:
  assumes "reachable s" and "distinct (map u_id (t_rows (users s)))" and "user_exists s u" and "waiting u n s s'"
  shows "n \<le> places_before u (turns s) \<and> places_before u (turns s) < length (t_rows (users s))"
proof -
  from assms(3) have "u \<in> set (turns s)" by (simp add: user_exists_turns)
  then have "places_before u (turns s) < length (turns s)" by (rule places_before_less)
  moreover have "length (turns s) = length (t_rows (users s))" by (simp add: turns_def)
  ultimately show ?thesis using waiting_places [OF assms(4,1,2)] by simp
qed

section \<open>The sample\<close>

lemma queued_users: "distinct (map u_id (t_rows (users queued_db)))" "user_exists queued_db 2"
  by code_simp+

lemma queued_on_time: "on_time (at 40) queued_db"
  by (simp add: queued_value on_time_def three_jobs_def sample_job_def new_job_def)

theorem claim_refines_round_robin_witness:
  "rr_pick (runnable queued_db (at 40 0)) (turns queued_db) = next_candidate queued_db (at 40 0)
   \<and> turns claimed_db = rr_rotate 1 (turns queued_db) \<and> turns claimed_db = [2, 1]"
proof -
  have one: "j_user_id (cj_job (the (fst (claim_next_job (at 40) queued_db)))) = 1" by code_simp
  from claim_refines_round_robin [OF queued_reachable queued_users(1) queued_on_time claimed_run] obtain row where
    "next_candidate queued_db (at 40 0) = rr_pick (runnable queued_db (at 40 0)) (turns queued_db)"
    "cj_job (the (fst (claim_next_job (at 40) queued_db))) = row\<lparr>j_status := Compiling\<rparr>"
    "turns claimed_db = rr_rotate (j_user_id row) (turns queued_db)" by auto
  with one have "rr_pick (runnable queued_db (at 40 0)) (turns queued_db) = next_candidate queued_db (at 40 0)"
    "turns claimed_db = rr_rotate 1 (turns queued_db)" by simp_all
  moreover have "turns claimed_db = [2, 1]" by code_simp
  ultimately show ?thesis by blast
qed

theorem bounded_waiting_witness:
  "waiting 2 1 queued_db claimed_db \<and> 1 \<le> places_before 2 (turns queued_db) \<and> places_before 2 (turns queued_db) < 2"
proof -
  have "runnable queued_db (at 40 0) 2 \<noteq> []"
    "j_user_id (cj_job (the (fst (claim_next_job (at 40) queued_db)))) \<noteq> 2" by code_simp+
  from waiting.overtaken [OF waiting.start queued_on_time this(1) claimed_run this(2)]
  have one: "waiting 2 1 queued_db claimed_db" by simp
  have "length (t_rows (users queued_db)) = 2" by code_simp
  with bounded_waiting [OF queued_reachable queued_users one] one show ?thesis by simp
qed

end
