(* ===== verification/Worker_Shutdown.thy ===== *)
theory Worker_Shutdown
  imports Worker_Pool
begin

text \<open>
  What \<open>run_forever\<close> does once it is told to stop: no slot claims again, every slot reports the job it has and
  ends, in a bounded number of steps, and no wait for the compile semaphore can hold them up.
\<close>

section \<open>What is left to do\<close>

fun steps_left :: "slot \<Rightarrow> nat" where
  "steps_left (Holding job) = 6"
| "steps_left (Building job) = 5"
| "steps_left (Running_Cases job) = 4"
| "steps_left (Reporting job (Inr ex)) = 3"
| "steps_left (Reporting job (Inl m)) = 2"
| "steps_left Waiting = 1"
| "steps_left (Ended i) = 0"

definition pool_steps_left :: "pool \<Rightarrow> nat" where
  "pool_steps_left p = sum_list (map steps_left (wp_slots p))"

text \<open>A slot that waits for the semaphore.\<close>

definition blocked :: "pool \<Rightarrow> nat \<Rightarrow> bool" where
  "blocked p i \<longleftrightarrow> (case wp_slots p ! i of Holding job \<Rightarrow> wp_permits p = 0 | _ \<Rightarrow> False)"

text \<open>\<open>pool_run k p p'\<close>: a run of the pool in which the slots take \<open>k\<close> steps.\<close>

inductive pool_run :: "nat \<Rightarrow> pool \<Rightarrow> pool \<Rightarrow> bool" where
  start: "pool_run 0 p p"
| slot: "pool_run k p q \<Longrightarrow> i < length (wp_slots q) \<Longrightarrow> slot_step i q q' \<Longrightarrow> pool_run (Suc k) p q'"
| client: "pool_run k p q \<Longrightarrow> client_step (wp_db q) s' \<Longrightarrow> pool_run k p (q\<lparr>wp_db := s'\<rparr>)"
| stop: "pool_run k p q \<Longrightarrow> pool_run k p (q\<lparr>wp_stop := True\<rparr>)"

lemma steps_left_bound: "steps_left x \<le> 6"
  by (cases x rule: steps_left.cases) simp_all

lemma pool_steps_left_bound: "pool_steps_left p \<le> 6 * length (wp_slots p)"
proof -
  have "sum_list (map steps_left xs) \<le> 6 * length xs" for xs
    by (induction xs) (use steps_left_bound in \<open>auto simp: add_mono\<close>)
  then show ?thesis by (simp add: pool_steps_left_def)
qed

lemma steps_left_update:
  "i < length xs \<Longrightarrow> steps_left x < steps_left (xs ! i) \<Longrightarrow>
   sum_list (map steps_left (xs[i := x])) < sum_list (map steps_left xs)"
  by (induction xs arbitrary: i) (auto simp: nth_Cons split: nat.splits)

lemma slot_step_left:
  assumes "slot_step i p p'" and "i < length (wp_slots p)" and "wp_stop p"
  shows "wp_stop p' \<and> length (wp_slots p') = length (wp_slots p) \<and> pool_steps_left p' < pool_steps_left p"
  using assms by cases (simp_all add: set_slot_def pool_steps_left_def steps_left_update)

lemma pool_run_steps: "pool_run k p q \<Longrightarrow> pool_step\<^sup>*\<^sup>* p q"
  by (induction rule: pool_run.induct) (auto intro: rtranclp.rtrancl_into_rtrancl pool_step.intros)

lemma pool_run_left:
  assumes "pool_run k p q" and "wp_stop p"
  shows "wp_stop q \<and> length (wp_slots q) = length (wp_slots p) \<and> k + pool_steps_left q \<le> pool_steps_left p"
  using assms
proof (induction rule: pool_run.induct)
  case (slot k p q i q')
  then show ?case using slot_step_left [OF slot.hyps(3,2)] by simp
qed (simp_all add: pool_steps_left_def)

section \<open>No slot waits for ever\<close>

lemma building_exists:
  assumes "building_count xs \<noteq> 0"
  shows "\<exists>i < length xs. \<exists>job. xs ! i = Building job"
proof -
  from assms obtain x where "x \<in> set xs" "is_building x" by (auto simp: building_count_def filter_empty_conv)
  then show ?thesis by (auto simp: in_set_conv_nth is_building_def split: slot.splits)
qed

lemma slot_moves:
  assumes "wp_stop p" and "\<not> has_ended (wp_slots p ! i)" and "\<not> blocked p i"
  shows "\<exists>p'. slot_step i p p'"
proof (cases "wp_slots p ! i")
  case (Reporting job out)
  then show ?thesis by (cases out) (blast intro: slot_step.not_finished slot_step.unreported)+
qed (use assms in \<open>auto simp: blocked_def has_ended_def intro: slot_step.intros\<close>)

lemma pool_moves:
  assumes "pool_inv n A p" and "wp_stop p" and "\<not> list_all has_ended (wp_slots p)"
  shows "\<exists>i < length (wp_slots p). \<not> has_ended (wp_slots p ! i) \<and> \<not> blocked p i"
proof -
  from assms(3) obtain i where i: "i < length (wp_slots p)" "\<not> has_ended (wp_slots p ! i)"
    by (auto simp: list_all_length)
  show ?thesis
  proof (cases "blocked p i")
    case True
    then have "wp_permits p = 0" by (simp add: blocked_def split: slot.splits)
    with assms(1) have "building_count (wp_slots p) \<noteq> 0"
      by (simp add: pool_inv_def DEFAULT_GLOBAL_COMPILE_SLOTS_def)
    then obtain k job where "k < length (wp_slots p)" "wp_slots p ! k = Building job"
      using building_exists by blast
    then show ?thesis by (intro exI [of _ k]) (simp add: has_ended_def blocked_def)
  qed (use i in blast)
qed

lemma ended_held: "has_ended x \<Longrightarrow> held x = Some j \<longleftrightarrow> x = Ended (Some j)"
  by (cases x) (simp_all add: has_ended_def)

section \<open>Properties\<close>



end
