(* ===== verification/Sha256.thy ===== *)
theory Sha256
  imports Broker_Wire "HOL-Library.Word"
begin

text \<open>
  \<open>hashlib.sha256(data).hexdigest()\<close> of the standard library (FIPS 180-4), computable in the logic: bytes are
  characters, the schedule and the working variables are 32-bit words with wrapping addition. The bitwise
  operations are written on the unsigned values, so that the simplifier can evaluate a digest.
\<close>

section \<open>Words\<close>

definition shr :: "nat \<Rightarrow> 32 word \<Rightarrow> 32 word" where
  "shr n x = word_of_int (uint x div 2 ^ n)"

definition rotr :: "nat \<Rightarrow> 32 word \<Rightarrow> 32 word" where
  "rotr n x = word_of_int (uint x div 2 ^ n + uint x mod 2 ^ n * 2 ^ (32 - n))"

definition xor32 :: "32 word \<Rightarrow> 32 word \<Rightarrow> 32 word" where
  "xor32 x y = word_of_int (semiring_bit_operations_class.xor (uint x) (uint y))"

definition and32 :: "32 word \<Rightarrow> 32 word \<Rightarrow> 32 word" where
  "and32 x y = word_of_int (semiring_bit_operations_class.and (uint x) (uint y))"

definition not32 :: "32 word \<Rightarrow> 32 word" where
  "not32 x = word_of_int (4294967295 - uint x)"

text \<open>They are the operations of the word library.\<close>

lemma shr_drop_bit: "shr n x = drop_bit n x"
proof -
  have "uint (drop_bit n x) = uint x div 2 ^ n"
    using uint_bounded [of x] unfolding unsigned_drop_bit_eq by (simp add: drop_bit_eq_div take_bit_int_eq_self)
  then show ?thesis unfolding shr_def by (metis word_of_int_uint)
qed

lemma xor32_xor: "xor32 x y = semiring_bit_operations_class.xor x y"
  by (simp add: xor32_def flip: unsigned_xor_eq)

lemma and32_and: "and32 x y = semiring_bit_operations_class.and x y"
  by (simp add: and32_def flip: unsigned_and_eq)

lemma not32_not: "not32 x = ring_bit_operations_class.not x"
  by (simp add: not32_def not_eq_complement)

text \<open>\<open>rotr\<close> is the rotation: the bits that leave on the right come back on the left.\<close>

lemma int_div_less:
  fixes a :: int
  assumes "a < c * b" and "0 < b"
  shows "a div b < c"
proof -
  have "0 \<le> a mod b" using assms(2) by simp
  with div_mult_mod_eq [of a b] assms(1) have "a div b * b < c * b" by linarith
  with assms(2) show ?thesis by simp
qed

lemma rotr_word_rotr:
  assumes "n < 32"
  shows "rotr n x = word_rotr n x"
proof -
  have "uint x < 2 ^ (32 - n) * 2 ^ n" using uint_bounded [of x] assms by (simp flip: power_add)
  then have "uint x div 2 ^ n < 2 ^ (32 - n)" by (rule int_div_less) simp
  then have high: "take_bit (32 - n) (drop_bit n (uint x)) = uint x div 2 ^ n"
    by (simp add: drop_bit_eq_div take_bit_int_eq_self pos_imp_zdiv_nonneg_iff)
  have "uint (word_rotr n x) = uint x div 2 ^ n + uint x mod 2 ^ n * 2 ^ (32 - n)"
    using assms by (simp add: uint_word_rotr_eq concat_bit_eq high push_bit_eq_mult unsigned_take_bit_eq
        flip: take_bit_eq_mod)
  then show ?thesis unfolding rotr_def by (metis word_of_int_uint)
qed

section \<open>Bytes\<close>

definition byte_value :: "char \<Rightarrow> int" where
  "byte_value c = of_char c"

definition be_word :: "string \<Rightarrow> 32 word" where
  "be_word s = word_of_int (foldl (\<lambda>n c. 256 * n + byte_value c) 0 s)"

text \<open>The last \<open>k\<close> bytes of \<open>n\<close>, big-endian.\<close>

fun be_bytes :: "nat \<Rightarrow> int \<Rightarrow> string" where
  "be_bytes 0 n = []"
| "be_bytes (Suc k) n = be_bytes k (n div 256) @ [char_of (nat (n mod 256))]"

text \<open>Consecutive pieces of \<open>k\<close> elements; what is left over is the last piece.\<close>

function pieces :: "nat \<Rightarrow> 'a list \<Rightarrow> 'a list list" where
  "pieces k xs = (if xs = [] \<or> k = 0 then [] else take k xs # pieces k (drop k xs))"
  by pat_completeness auto
termination by (relation "measure (length \<circ> snd)") auto

declare pieces.simps [simp del]

text \<open>A one bit, zeros up to 56 modulo 64 bytes, the length in bits.\<close>

definition padding :: "int \<Rightarrow> string" where
  "padding n = CHR 0x80 # replicate (nat ((55 - n) mod 64)) (CHR 0x00) @ be_bytes 8 (8 * n)"

definition padded :: "string \<Rightarrow> string" where
  "padded m = m @ padding (int (length m))"

section \<open>The compression function\<close>

definition round_constants :: "32 word list" where
  "round_constants =
     [0x428A2F98, 0x71374491, 0xB5C0FBCF, 0xE9B5DBA5, 0x3956C25B, 0x59F111F1, 0x923F82A4, 0xAB1C5ED5,
      0xD807AA98, 0x12835B01, 0x243185BE, 0x550C7DC3, 0x72BE5D74, 0x80DEB1FE, 0x9BDC06A7, 0xC19BF174,
      0xE49B69C1, 0xEFBE4786, 0x0FC19DC6, 0x240CA1CC, 0x2DE92C6F, 0x4A7484AA, 0x5CB0A9DC, 0x76F988DA,
      0x983E5152, 0xA831C66D, 0xB00327C8, 0xBF597FC7, 0xC6E00BF3, 0xD5A79147, 0x06CA6351, 0x14292967,
      0x27B70A85, 0x2E1B2138, 0x4D2C6DFC, 0x53380D13, 0x650A7354, 0x766A0ABB, 0x81C2C92E, 0x92722C85,
      0xA2BFE8A1, 0xA81A664B, 0xC24B8B70, 0xC76C51A3, 0xD192E819, 0xD6990624, 0xF40E3585, 0x106AA070,
      0x19A4C116, 0x1E376C08, 0x2748774C, 0x34B0BCB5, 0x391C0CB3, 0x4ED8AA4A, 0x5B9CCA4F, 0x682E6FF3,
      0x748F82EE, 0x78A5636F, 0x84C87814, 0x8CC70208, 0x90BEFFFA, 0xA4506CEB, 0xBEF9A3F7, 0xC67178F2]"

definition initial_state :: "32 word list" where
  "initial_state =
     [0x6A09E667, 0xBB67AE85, 0x3C6EF372, 0xA54FF53A, 0x510E527F, 0x9B05688C, 0x1F83D9AB, 0x5BE0CD19]"

text \<open>The next word of the schedule from the sixteen before it.\<close>

definition next_word :: "32 word list \<Rightarrow> 32 word" where
  "next_word ws =
     (let a = ws ! 1; b = ws ! 14;
          s0 = xor32 (xor32 (rotr 7 a) (rotr 18 a)) (shr 3 a);
          s1 = xor32 (xor32 (rotr 17 b) (rotr 19 b)) (shr 10 b)
      in hd ws + s0 + ws ! 9 + s1)"

text \<open>One round on the eight working variables; \<open>kw\<close> is the sum of its constant and its schedule word.\<close>

fun sha_round :: "32 word \<Rightarrow> 32 word list \<Rightarrow> 32 word list" where
  "sha_round kw [a, b, c, d, e, f, g, h] =
     (let s1 = xor32 (xor32 (rotr 6 e) (rotr 11 e)) (rotr 25 e);
          ch = xor32 (and32 e f) (and32 (not32 e) g);
          t1 = h + s1 + ch + kw;
          s0 = xor32 (xor32 (rotr 2 a) (rotr 13 a)) (rotr 22 a);
          maj = xor32 (xor32 (and32 a b) (and32 a c)) (and32 b c);
          t2 = s0 + maj
      in [t1 + t2, a, b, c, d + t1, e, f, g])"
| "sha_round kw hs = hs"

fun rounds :: "32 word list \<Rightarrow> 32 word list \<Rightarrow> 32 word list \<Rightarrow> 32 word list" where
  "rounds [] ws hs = hs"
| "rounds (k # ks) ws hs = rounds ks (tl ws @ [next_word ws]) (sha_round (k + hd ws) hs)"

definition hash_block :: "32 word list \<Rightarrow> string \<Rightarrow> 32 word list" where
  "hash_block hs block =
     map2 (+) hs (rounds round_constants (map be_word (pieces 4 block)) hs)"

definition sha256 :: "string \<Rightarrow> 32 word list" where
  "sha256 m = foldl hash_block initial_state (pieces 64 (padded m))"

section \<open>The hexadecimal digest\<close>

definition hex_word :: "32 word \<Rightarrow> string" where
  "hex_word x = hex_fixed 8 (unat x)"

definition hexdigest :: "32 word list \<Rightarrow> string" where
  "hexdigest ws = concat (map hex_word ws)"

text \<open>The same digits computed on integers, for evaluation.\<close>

fun hex_digits :: "nat \<Rightarrow> int \<Rightarrow> string" where
  "hex_digits 0 n = []"
| "hex_digits (Suc k) n = hex_digits k (n div 16) @ [hex_char (nat (n mod 16))]"

lemma hex_digits_fixed: "0 \<le> n \<Longrightarrow> hex_digits k n = hex_fixed k (nat n)"
proof (induction k arbitrary: n)
  case (Suc k)
  note IH = Suc.IH [OF pos_imp_zdiv_nonneg_iff [THEN iffD2, OF zero_less_numeral Suc.prems]]
  have "nat (n div 16) = nat n div 16" by (simp add: nat_div_distrib Suc.prems)
  moreover have "nat (n mod 16) = nat n mod 16" by (simp add: nat_mod_distrib Suc.prems)
  ultimately show ?case by (simp only: hex_digits.simps hex_fixed.simps IH)
qed simp

lemma hex_word_code [code]: "hex_word x = hex_digits 8 (uint x)"
  using hex_digits_fixed [of "uint x" 8] by (simp add: hex_word_def)

section \<open>Shape\<close>

lemma sha_round_length: "length (sha_round kw hs) = length hs"
  by (cases "(kw, hs)" rule: sha_round.cases) (simp_all add: Let_def)

lemma rounds_length: "length (rounds ks ws hs) = length hs"
  by (induction ks ws hs rule: rounds.induct) (simp_all add: sha_round_length)

lemma hash_block_length: "length (hash_block hs block) = length hs"
  by (simp add: hash_block_def rounds_length)

lemma sha256_length: "length (sha256 m) = 8"
proof -
  have "length (foldl hash_block hs bs) = length hs" for bs hs
    by (induction bs arbitrary: hs) (simp_all add: hash_block_length)
  then show ?thesis by (simp add: sha256_def initial_state_def)
qed

lemma be_bytes_length [simp]: "length (be_bytes k n) = k"
  by (induction k arbitrary: n) simp_all

lemma padded_length: "64 dvd length (padded m)"
proof -
  have "64 dvd n + (1 + ((55 - n) mod 64 + 8))" for n :: int
  proof -
    obtain q where "(55 - n) mod 64 = (55 - n) - 64 * q" using minus_mult_div_eq_mod [symmetric] by blast
    then have "n + (1 + ((55 - n) mod 64 + 8)) = 64 * (1 - q)" by (simp add: algebra_simps)
    then show ?thesis by (rule dvdI)
  qed
  from this [of "int (length m)"] have "int 64 dvd int (length (padded m))"
    unfolding padded_def padding_def by simp
  then show ?thesis by (simp only: of_nat_dvd_iff)
qed

lemma hexdigest_length: "length (hexdigest ws) = 8 * length ws"
  by (induction ws) (simp_all add: hexdigest_def hex_word_def)

lemma hexdigest_lower: "c \<in> set (hexdigest ws) \<Longrightarrow> lower_hex c"
  by (auto simp: hexdigest_def hex_word_def hex_fixed_lower)

section \<open>Nothing is lost but in the compression\<close>

lemma hex_char_inject:
  assumes "a < 16" and "b < 16"
  shows "hex_char a = hex_char b \<longleftrightarrow> a = b"
proof -
  have "distinct ''0123456789abcdef''" "a < length ''0123456789abcdef''" "b < length ''0123456789abcdef''"
    using assms by simp_all
  then show ?thesis unfolding hex_char_def by (rule nth_eq_iff_index_eq)
qed

lemma hex_fixed_inject: "m < 16 ^ k \<Longrightarrow> n < 16 ^ k \<Longrightarrow> hex_fixed k m = hex_fixed k n \<longleftrightarrow> m = n"
proof (induction k arbitrary: m n)
  case (Suc k)
  have "a div 16 < 16 ^ k" if "a < 16 ^ Suc k" for a :: nat
    using that by (simp add: less_mult_imp_div_less mult.commute)
  then have "hex_fixed (Suc k) m = hex_fixed (Suc k) n \<longleftrightarrow> m div 16 = n div 16 \<and> m mod 16 = n mod 16"
    using Suc by (simp add: hex_char_inject)
  then show ?case by (metis div_mult_mod_eq)
qed simp

lemma unat_bound32: "unat (x :: 32 word) < 16 ^ 8"
  using unsigned_less [where ?'a = nat, of x] by simp

lemma hexdigest_inject:
  assumes "length xs = length ys"
  shows "hexdigest xs = hexdigest ys \<longleftrightarrow> xs = ys"
  using assms
proof (induction xs ys rule: list_induct2)
  case (Cons x xs y ys)
  have "hex_word x = hex_word y \<longleftrightarrow> x = y"
    using hex_fixed_inject [of "unat x" 8 "unat y"] unat_bound32 [of x] unat_bound32 [of y]
    by (simp add: hex_word_def word_unat_eq_iff)
  with Cons.IH show ?case by (simp add: hexdigest_def hex_word_def)
qed simp

lemma be_bytes_inject:
  "0 \<le> m \<Longrightarrow> m < 256 ^ k \<Longrightarrow> 0 \<le> n \<Longrightarrow> n < 256 ^ k \<Longrightarrow> be_bytes k m = be_bytes k n \<longleftrightarrow> m = n"
proof (induction k arbitrary: m n)
  case (Suc k)
  have div256: "0 \<le> a div 256 \<and> a div 256 < 256 ^ k" if "0 \<le> a" "a < 256 ^ Suc k" for a :: int
    using that int_div_less [of a "256 ^ k" 256] by (simp add: mult.commute pos_imp_zdiv_nonneg_iff)
  have byte: "(of_char (char_of (nat (a mod 256)) :: char) :: nat) = nat (a mod 256)" for a :: int
    by (simp add: take_bit_nat_eq_self nat_less_iff)
  have "(char_of (nat (m mod 256)) :: char) = char_of (nat (n mod 256)) \<longleftrightarrow> nat (m mod 256) = nat (n mod 256)"
    by (metis byte)
  then have "(char_of (nat (m mod 256)) :: char) = char_of (nat (n mod 256)) \<longleftrightarrow> m mod 256 = n mod 256"
    by (simp only: eq_nat_nat_iff pos_mod_sign zero_less_numeral)
  then have "be_bytes (Suc k) m = be_bytes (Suc k) n \<longleftrightarrow> m div 256 = n div 256 \<and> m mod 256 = n mod 256"
    using Suc.IH [of "m div 256" "n div 256"] div256 [of m] div256 [of n] Suc.prems by simp
  then show ?case by (metis div_mult_mod_eq)
qed simp

text \<open>The padding keeps messages apart that are shorter than \<open>2 ^ 61\<close> bytes.\<close>

lemma padded_inject:
  assumes "length m < 2 ^ 61" and "length n < 2 ^ 61"
  shows "padded m = padded n \<longleftrightarrow> m = n"
proof
  assume same: "padded m = padded n"
  have last: "drop (length (padded k) - 8) (padded k) = be_bytes 8 (8 * int (length k))" for k
    by (simp add: padded_def padding_def)
  have "int (length m) < 2 ^ 61" "int (length n) < 2 ^ 61"
    using assms by (simp_all only: of_nat_less_numeral_power_cancel_iff)
  then have "length m = length n"
    using last [of m] last [of n] same be_bytes_inject [of "8 * int (length m)" 8 "8 * int (length n)"] by simp
  with same show "m = n" by (simp add: padded_def)
qed simp

end
