(* ===== verification/Security.thy ===== *)
theory Security
  imports Sha256
begin

text \<open>
  \<open>security.py\<close>: password hashing through the \<open>argon2\<close> package (third-party, a parameter), the three kinds of
  random token, and the digest under which tokens are stored. The bytes \<open>os.urandom\<close> delivers are an argument;
  the base64 text and the digest are computed.
\<close>

section \<open>Passwords\<close>

text \<open>What \<open>PasswordHasher.verify\<close> may raise: the two exceptions the code catches, and others.\<close>

datatype argon2_error =
    VerifyMismatchError
  | InvalidHashError
  | Argon2_Error string

record argon2 =
  argon2_hash :: "nat \<Rightarrow> nat \<Rightarrow> nat \<Rightarrow> string \<Rightarrow> string"
  argon2_verify :: "string \<Rightarrow> string \<Rightarrow> argon2_error + bool"

text \<open>\<open>_PASSWORDS\<close>: time cost 3, 64 MiB, two lanes.\<close>

definition hash_password :: "argon2 \<Rightarrow> string \<Rightarrow> string" where
  "hash_password argon password = argon2_hash argon 3 65536 2 password"

definition verify_password :: "argon2 \<Rightarrow> string \<Rightarrow> string \<Rightarrow> argon2_error + bool" where
  "verify_password argon encoded password =
     (case argon2_verify argon encoded password of
        Inl VerifyMismatchError \<Rightarrow> Inr False
      | Inl InvalidHashError \<Rightarrow> Inr False
      | r \<Rightarrow> r)"

section \<open>Random tokens\<close>

definition token_alphabet :: string where
  "token_alphabet = ''ABCDEFGHIJKLMNOPQRSTUVWXYZabcdefghijklmnopqrstuvwxyz0123456789-_''"

definition b64_char :: "nat \<Rightarrow> char" where
  "b64_char n = token_alphabet ! n"

definition byte :: "char \<Rightarrow> nat" where
  "byte c = of_char c"

text \<open>\<open>base64.urlsafe_b64encode\<close>: three bytes are four characters; a shorter rest is filled with \<open>=\<close>.\<close>

fun urlsafe_b64encode :: "string \<Rightarrow> string" where
  "urlsafe_b64encode [] = []"
| "urlsafe_b64encode [a] =
     [b64_char (byte a div 4), b64_char (byte a mod 4 * 16), CHR ''='', CHR ''='']"
| "urlsafe_b64encode [a, b] =
     [b64_char (byte a div 4), b64_char (byte a mod 4 * 16 + byte b div 16), b64_char (byte b mod 16 * 4), CHR ''='']"
| "urlsafe_b64encode (a # b # c # s) =
     [b64_char (byte a div 4), b64_char (byte a mod 4 * 16 + byte b div 16),
      b64_char (byte b mod 16 * 4 + byte c div 64), b64_char (byte c mod 64)] @ urlsafe_b64encode s"

text \<open>\<open>secrets.token_urlsafe\<close> on the bytes it draws.\<close>

definition token_urlsafe :: "string \<Rightarrow> string" where
  "token_urlsafe random = rstrip_by (\<lambda>c. c = CHR ''='') (urlsafe_b64encode random)"

text \<open>Each of the three asks for its own number of bytes, 32, 48 and 32.\<close>

definition api_token_bytes :: nat where "api_token_bytes = 32"
definition session_token_bytes :: nat where "session_token_bytes = 48"
definition csrf_token_bytes :: nat where "csrf_token_bytes = 32"

definition new_api_token :: "(nat \<Rightarrow> string) \<Rightarrow> string" where
  "new_api_token urandom = ''rdp_'' @ token_urlsafe (urandom api_token_bytes)"

definition new_session_token :: "(nat \<Rightarrow> string) \<Rightarrow> string" where
  "new_session_token urandom = token_urlsafe (urandom session_token_bytes)"

definition new_csrf_token :: "(nat \<Rightarrow> string) \<Rightarrow> string" where
  "new_csrf_token urandom = token_urlsafe (urandom csrf_token_bytes)"

section \<open>Digests\<close>

definition token_hash :: "string \<Rightarrow> string" where
  "token_hash token = hexdigest (sha256 (utf8_encode token))"

text \<open>\<open>hmac.compare_digest\<close> takes ASCII strings only.\<close>

definition compare_digest :: "string \<Rightarrow> string \<Rightarrow> bool result" where
  "compare_digest a b =
     (if list_all (\<lambda>c. byte c < 128) (a @ b) then Inr (a = b)
      else Inl (TypeError ''comparing strings with non-ASCII characters is not supported''))"

definition token_matches :: "string \<Rightarrow> string \<Rightarrow> bool result" where
  "token_matches encoded token = compare_digest encoded (token_hash token)"

section \<open>Reading a token back\<close>

definition b64_value :: "char \<Rightarrow> nat" where
  "b64_value c = length (takeWhile (\<lambda>d. d \<noteq> c) token_alphabet)"

fun urlsafe_decode :: "string \<Rightarrow> string" where
  "urlsafe_decode (w # x # y # z # s) =
     [char_of (b64_value w * 4 + b64_value x div 16), char_of (b64_value x mod 16 * 16 + b64_value y div 4),
      char_of (b64_value y mod 4 * 64 + b64_value z)] @ urlsafe_decode s"
| "urlsafe_decode [w, x, y] =
     [char_of (b64_value w * 4 + b64_value x div 16), char_of (b64_value x mod 16 * 16 + b64_value y div 4)]"
| "urlsafe_decode [w, x] = [char_of (b64_value w * 4 + b64_value x div 16)]"
| "urlsafe_decode s = []"

lemma b64_value_char: "n < 64 \<Longrightarrow> b64_value (b64_char n) = n"
proof -
  assume "n < 64"
  moreover have "list_all (\<lambda>n. b64_value (b64_char n) = n) [0..<64]" by code_simp
  ultimately show ?thesis by (simp add: list_all_iff)
qed

lemma b64_char_token: "n < 64 \<Longrightarrow> b64_char n \<in> set token_alphabet"
  unfolding b64_char_def by (rule nth_mem) (simp add: token_alphabet_def)

lemma byte_bound: "byte c < 256"
  by (simp add: byte_def)

lemma sextets:
  "byte a div 4 < 64" "byte a mod 4 * 16 + byte b div 16 < 64" "byte b mod 16 * 4 + byte c div 64 < 64"
  "byte a mod 4 * 16 < 64" "byte b mod 16 * 4 < 64" "byte c mod 64 < 64"
proof -
  have "byte a div 4 < 64" "byte b div 16 < 16" "byte c div 64 < 4"
    using byte_bound [of a] byte_bound [of b] byte_bound [of c] by (simp_all add: less_mult_imp_div_less)
  moreover have "byte a mod 4 < 4" "byte b mod 16 < 16" by simp_all
  ultimately show "byte a div 4 < 64" "byte a mod 4 * 16 + byte b div 16 < 64" "byte b mod 16 * 4 + byte c div 64 < 64"
    "byte a mod 4 * 16 < 64" "byte b mod 16 * 4 < 64" by linarith+
qed simp

lemma char_of_byte: "char_of (byte c) = c"
  by (simp add: byte_def)

text \<open>What the decoder puts together again.\<close>

lemma joined_bytes:
  "byte a div 4 * 4 + (byte a mod 4 * 16 + byte b div 16) div 16 = byte a"
  "(byte a mod 4 * 16 + byte b div 16) mod 16 * 16 + (byte b mod 16 * 4 + byte c div 64) div 4 = byte b"
  "(byte b mod 16 * 4 + byte c div 64) mod 4 * 64 + byte c mod 64 = byte c"
  "byte a div 4 * 4 + byte a mod 4 * 16 div 16 = byte a"
  "(byte a mod 4 * 16 + byte b div 16) mod 16 * 16 + byte b mod 16 * 4 div 4 = byte b"
proof -
  have small: "byte b div 16 < 16" "byte c div 64 < 4"
    using byte_bound [of b] byte_bound [of c] by (simp_all add: less_mult_imp_div_less)
  then show "byte a div 4 * 4 + (byte a mod 4 * 16 + byte b div 16) div 16 = byte a"
    "(byte a mod 4 * 16 + byte b div 16) mod 16 * 16 + (byte b mod 16 * 4 + byte c div 64) div 4 = byte b"
    "(byte b mod 16 * 4 + byte c div 64) mod 4 * 64 + byte c mod 64 = byte c"
    "byte a div 4 * 4 + byte a mod 4 * 16 div 16 = byte a"
    "(byte a mod 4 * 16 + byte b div 16) mod 16 * 16 + byte b mod 16 * 4 div 4 = byte b"
    by (simp_all add: div_mult_mod_eq)
qed

lemma no_filler: "b64_char n \<noteq> CHR ''=''" if "n < 64"
  using b64_char_token [OF that] by (auto simp: token_alphabet_def)

lemma token_urlsafe_simps:
  "token_urlsafe [] = []"
  "token_urlsafe [a] = [b64_char (byte a div 4), b64_char (byte a mod 4 * 16)]"
  "token_urlsafe [a, b] =
     [b64_char (byte a div 4), b64_char (byte a mod 4 * 16 + byte b div 16), b64_char (byte b mod 16 * 4)]"
  "token_urlsafe (a # b # c # s) =
     [b64_char (byte a div 4), b64_char (byte a mod 4 * 16 + byte b div 16),
      b64_char (byte b mod 16 * 4 + byte c div 64), b64_char (byte c mod 64)] @ token_urlsafe s"
  by (simp_all add: token_urlsafe_def rstrip_by_def no_filler sextets dropWhile_append)

lemma urlsafe_decode_token: "urlsafe_decode (token_urlsafe s) = s"
  by (induction s rule: urlsafe_b64encode.induct)
    (simp_all only: token_urlsafe_simps append_Cons append_Nil urlsafe_decode.simps b64_value_char sextets
      joined_bytes char_of_byte)

lemma token_urlsafe_set: "set (token_urlsafe s) \<subseteq> set token_alphabet"
  by (induction s rule: urlsafe_b64encode.induct)
    (auto simp: token_urlsafe_simps b64_char_token sextets)

lemma token_urlsafe_length: "length (token_urlsafe s) = (4 * length s + 2) div 3"
  by (induction s rule: urlsafe_b64encode.induct) (simp_all add: token_urlsafe_simps)

text \<open>A token has no character that \<open>str.strip\<close> removes.\<close>

lemma api_token_plain: "\<forall>c \<in> set (new_api_token urandom). \<not> is_py_space c"
proof -
  have "\<forall>c \<in> set token_alphabet \<union> set ''rdp_''. \<not> is_py_space c" by code_simp
  then show ?thesis using token_urlsafe_set [of "urandom api_token_bytes"] by (auto simp: new_api_token_def)
qed

section \<open>Properties\<close>

text \<open>C32: a generated token carries all its random bytes. The text of an API token can be decoded to the 32
  bytes drawn for it, so tokens differ whenever the bytes do; it has 47 characters, of an alphabet that
  needs no quoting, and the control plane reads exactly it out of \<open>Bearer\<close> followed by the token.\<close>
theorem api_token_roundtrip:
  assumes "\<And>n. length (urandom n) = n"
  shows "urlsafe_decode (drop 4 (new_api_token urandom)) = urandom 32
    \<and> length (new_api_token urandom) = 47
    \<and> set (new_api_token urandom) \<subseteq> set token_alphabet
    \<and> strip (drop 7 (''Bearer '' @ new_api_token urandom)) = new_api_token urandom"
proof (intro conjI)
  show "urlsafe_decode (drop 4 (new_api_token urandom)) = urandom 32"
    by (simp add: new_api_token_def urlsafe_decode_token api_token_bytes_def)
  show "length (new_api_token urandom) = 47"
    by (simp add: new_api_token_def token_urlsafe_length api_token_bytes_def assms)
  show "set (new_api_token urandom) \<subseteq> set token_alphabet"
    using token_urlsafe_set [of "urandom api_token_bytes"] by (auto simp: new_api_token_def token_alphabet_def)
  show "strip (drop 7 (''Bearer '' @ new_api_token urandom)) = new_api_token urandom"
    using strip_plain [OF api_token_plain] by simp
qed

theorem api_token_roundtrip_witness:
  "urlsafe_decode (drop 4 (new_api_token (\<lambda>n. replicate n CHR ''k''))) = replicate 32 CHR ''k''
   \<and> new_api_token (\<lambda>n. replicate n CHR ''k'') = ''rdp_a2tra2tra2tra2tra2tra2tra2tra2tra2tra2tra2s''"
proof
  show "urlsafe_decode (drop 4 (new_api_token (\<lambda>n. replicate n CHR ''k''))) = replicate 32 CHR ''k''"
    using api_token_roundtrip [of "\<lambda>n. replicate n CHR ''k''"] by simp
  show "new_api_token (\<lambda>n. replicate n CHR ''k'') = ''rdp_a2tra2tra2tra2tra2tra2tra2tra2tra2tra2tra2s''"
    by code_simp
qed

section \<open>The stored digest\<close>

lemma byte_char_of: "n < 256 \<Longrightarrow> byte (char_of n) = n"
  by (simp add: byte_def take_bit_nat_eq_self)

lemma utf8_char_byte:
  "utf8_char c = (if byte c < 128 then [c] else [char_of (192 + byte c div 64), char_of (128 + byte c mod 64)])"
  by (simp add: utf8_char_def byte_def Let_def)

lemma utf8_char_inject: "utf8_char c @ s = utf8_char d @ t \<longleftrightarrow> c = d \<and> s = t"
proof
  assume same: "utf8_char c @ s = utf8_char d @ t"
  have two: "byte (char_of (192 + byte x div 64)) = 192 + byte x div 64"
    "byte (char_of (128 + byte x mod 64)) = 128 + byte x mod 64" for x
  proof -
    have "byte x div 64 < 4" "byte x mod 64 < 64" using byte_bound [of x] by (simp_all add: less_mult_imp_div_less)
    then show "byte (char_of (192 + byte x div 64)) = 192 + byte x div 64"
      "byte (char_of (128 + byte x mod 64)) = 128 + byte x mod 64" by (intro byte_char_of; linarith)+
  qed
  have "byte (hd (utf8_char c)) = byte (hd (utf8_char d))"
    using arg_cong [OF same, of hd] by (simp add: utf8_char_byte split: if_splits)
  then have width: "byte c < 128 \<longleftrightarrow> byte d < 128"
    by (auto simp: utf8_char_byte two split: if_splits)
  have "byte c = byte d \<and> s = t"
  proof (cases "byte c < 128")
    case True
    with same width show ?thesis by (simp add: utf8_char_byte)
  next
    case False
    with same width have "(char_of (192 + byte c div 64) :: char) = char_of (192 + byte d div 64)"
      "(char_of (128 + byte c mod 64) :: char) = char_of (128 + byte d mod 64)" "s = t"
      by (simp_all only: utf8_char_byte if_False append_Cons append_Nil list.inject)
    then have "byte (char_of (192 + byte c div 64)) = byte (char_of (192 + byte d div 64))"
      "byte (char_of (128 + byte c mod 64)) = byte (char_of (128 + byte d mod 64))" by (simp_all only:)
    then have "byte c div 64 = byte d div 64" "byte c mod 64 = byte d mod 64" unfolding two by simp_all
    with \<open>s = t\<close> show ?thesis by (metis div_mult_mod_eq)
  qed
  then show "c = d \<and> s = t" by (metis char_of_byte)
qed simp

lemma utf8_encode_inject: "utf8_encode s = utf8_encode t \<longleftrightarrow> s = t"
proof (induction s arbitrary: t)
  case Nil
  show ?case by (cases t) (simp_all add: utf8_encode_def utf8_char_byte)
next
  case (Cons c s)
  then show ?case by (cases t) (simp_all add: utf8_encode_def utf8_char_inject, simp add: utf8_char_byte)
qed

lemma token_hash_inject: "token_hash s = token_hash t \<longleftrightarrow> sha256 (utf8_encode s) = sha256 (utf8_encode t)"
  by (simp add: token_hash_def hexdigest_inject sha256_length)

lemma token_hash_length [simp]: "length (token_hash t) = 64"
  by (simp add: token_hash_def hexdigest_length sha256_length)

lemma token_hash_nonempty [simp]: "token_hash t \<noteq> []"
  using token_hash_length [of t] by fastforce

lemma utf8_short: "length t < 2 ^ 60 \<Longrightarrow> length (utf8_encode t) < 2 ^ 61"
proof -
  have "length (utf8_encode t) \<le> 2 * length t"
    by (induction t) (simp_all add: utf8_encode_def utf8_char_byte)
  then show "length t < 2 ^ 60 \<Longrightarrow> length (utf8_encode t) < 2 ^ 61" by simp
qed

text \<open>C33: what is stored of a token. The stored value is 64 lower-case hexadecimal digits of the SHA-256
  value of the UTF-8 text; two tokens are stored alike only if SHA-256 itself collides on them, for
  the encoding, the padding and the digits keep all texts below \<open>2 ^ 60\<close> characters apart. On the
  one-block test vector of FIPS 180-4 the digest is the published one.\<close>
theorem token_digest_faithful:
  assumes "length t < 2 ^ 60" and "length t' < 2 ^ 60"
  shows "length (token_hash t) = 64 \<and> set (token_hash t) \<subseteq> set ''0123456789abcdef''
    \<and> (token_hash t = token_hash t' \<longleftrightarrow>
         foldl hash_block initial_state (pieces 64 (padded (utf8_encode t)))
         = foldl hash_block initial_state (pieces 64 (padded (utf8_encode t'))))
    \<and> (padded (utf8_encode t) = padded (utf8_encode t') \<longleftrightarrow> t = t')
    \<and> token_hash ''abc'' = ''ba7816bf8f01cfea414140de5dae2223b00361a396177a9cb410ff61f20015ad''"
proof (intro conjI)
  show "length (token_hash t) = 64" by simp
  show "set (token_hash t) \<subseteq> set ''0123456789abcdef''"
    using hexdigest_lower unfolding token_hash_def lower_hex_def by blast
  show "token_hash t = token_hash t' \<longleftrightarrow>
         foldl hash_block initial_state (pieces 64 (padded (utf8_encode t)))
         = foldl hash_block initial_state (pieces 64 (padded (utf8_encode t')))"
    unfolding token_hash_inject sha256_def ..
  show "padded (utf8_encode t) = padded (utf8_encode t') \<longleftrightarrow> t = t'"
    using padded_inject [OF utf8_short [OF assms(1)] utf8_short [OF assms(2)]] utf8_encode_inject [of t t'] by blast
  show "token_hash ''abc'' = ''ba7816bf8f01cfea414140de5dae2223b00361a396177a9cb410ff61f20015ad''"
    by code_simp
qed

theorem token_digest_faithful_witness:
  "length (token_hash ''rdp_first'') = 64
   \<and> padded (utf8_encode ''rdp_first'') \<noteq> padded (utf8_encode ''rdp_top_secret'')"
  using token_digest_faithful [of "''rdp_first''" "''rdp_top_secret''"] by simp

end
