(* ===== verification/Token_Access.thy ===== *)
theory Token_Access
  imports Security App_Sessions
begin

text \<open>
  The tokens of \<open>Security\<close> in the control plane of \<open>App\<close>: what an administrator is shown after a rotation is a
  working credential of exactly that developer, and the earlier one is dead.
\<close>

section \<open>A rotation in the database\<close>

lemma rotated_row:
  assumes "accounts_inv s" and "c \<in> set (t_rows (users s))" and "rotate_developer_token th (u_id c) tok s = Inr (Some u, s')"
  shows "u = c\<lparr>u_api_token_hash := Some (th tok)\<rparr>" and "u \<in> set (t_rows (users s'))" and "accounts_inv s'"
proof -
  show inv: "accounts_inv s'" by (rule account_step_inv [OF account_step.rotate [OF assms(3)] assms(1)])
  let ?f = "\<lambda>u. u\<lparr>u_api_token_hash := Some (th tok)\<rparr>"
  from assms(3) have s': "users s' = update_where (\<lambda>u. u_id u = u_id c) ?f (users s)"
    and found: "get_user s' (u_id c) = Some u"
    by (auto simp: rotate_developer_token_def update_user_row_def Let_def split: if_splits list.splits)
  from found show mem: "u \<in> set (t_rows (users s'))" by (auto simp: get_user_def select_where_def dest!: fetchone_in)
  from found have "u_id u = u_id c" by (auto simp: get_user_def select_where_def dest!: fetchone_in)
  moreover have "?f c \<in> set (t_rows (users s'))" using assms(2) unfolding s' in_update_where by auto
  ultimately show "u = ?f c" using accounts_inv_unique(1) [OF inv mem] by simp
qed

lemma found_by_public_id:
  assumes "accounts_inv s" and "u \<in> set (t_rows (users s))"
  shows "get_user_by_public_id s (u_public_id u) = Some u"
proof -
  have "select_where (\<lambda>q. u_public_id q = u_public_id u) (users s) \<noteq> []"
    using assms(2) by (auto simp: select_where_def filter_empty_conv)
  then obtain q where q: "get_user_by_public_id s (u_public_id u) = Some q"
    unfolding get_user_by_public_id_def by (metis fetchone_None not_None_eq)
  then have "q \<in> set (t_rows (users s))" "u_public_id q = u_public_id u"
    by (auto simp: get_user_by_public_id_def select_where_def dest!: fetchone_in)
  moreover have "clash_free q u" if "u_id q \<noteq> u_id u" "q \<in> set (t_rows (users s))"
    using assms that by (simp add: accounts_inv_def users_inv_def)
  ultimately have "q = u" using accounts_inv_unique(1) [OF assms(1) _ assms(2)] by (auto simp: clash_free_def)
  with q show ?thesis by simp
qed

section \<open>A rotation through the control plane\<close>

lemma rotation_run:
  assumes "rq_route req = Rotate_Token pid" and "serve cfg env req p = (a, p')" and "an_body a = Token_Rotated pid tok"
  obtains c u s where "c \<in> set (t_rows (users (pl_db p)))" and "u_public_id c = pid" and "u_role c = Developer"
    and "rotate_developer_token (cf_token_hash cfg) (u_id c) (e_api_token env) (pl_db p) = Inr (Some u, s)"
    and "users (pl_db p') = users s" and "tok = e_api_token env"
proof -
  from assms obtain b where run: "rotate_user_token cfg env pid req p = (Inr b, p')" and b: "an_body b = Token_Rotated pid tok"
    by (auto simp: serve_def dispatch_route_def secured_def answer_with_def split: prod.splits sum.splits refusal.splits)
  from run obtain admin p1 where "csrf_admin cfg env req p = (Inr admin, p1)"
    and rest: "(if cf_managed_mode cfg then refuse 403 ''managed instances require offline token rotation''
       else andthen (developer_from_public_id pid) (\<lambda>current.
         andthen (on_db (rotate_developer_token (cf_token_hash cfg) (u_id current) (e_api_token env))) (\<lambda>changed.
         if changed = None then refuse 404 ''developer not found''
         else followed (audited env admin ''user.token.rotate'' ''user'' pid [])
           (ret (answer_with 200 (Token_Rotated pid (e_api_token env))))))) p1 = (Inr b, p')"
    unfolding rotate_user_token_def by auto
  then have "p1 = p" using csrf_admin_Inr(2) by blast
  with rest obtain c p2 where c: "developer_from_public_id pid p = (Inr c, p2)"
    and rest: "andthen (on_db (rotate_developer_token (cf_token_hash cfg) (u_id c) (e_api_token env))) (\<lambda>changed.
         if changed = None then refuse 404 ''developer not found''
         else followed (audited env admin ''user.token.rotate'' ''user'' pid [])
           (ret (answer_with 200 (Token_Rotated pid (e_api_token env))))) p2 = (Inr b, p')"
    by (auto split: if_splits)
  from c have found: "p2 = p" "c \<in> set (t_rows (users (pl_db p)))" "u_public_id c = pid" "u_role c = Developer"
    by (auto simp: developer_from_public_id_def reading_def on_db_def get_user_by_public_id_def select_where_def
        split: if_splits option.splits dest!: fetchone_in)
  from rest obtain u s where rot: "rotate_developer_token (cf_token_hash cfg) (u_id c) (e_api_token env) (pl_db p) = Inr (Some u, s)"
    and rest: "followed (audited env admin ''user.token.rotate'' ''user'' pid [])
           (ret (answer_with 200 (Token_Rotated pid (e_api_token env)))) (p\<lparr>pl_db := s\<rparr>) = (Inr b, p')"
    by (auto simp: on_db_def found(1) split: sum.splits prod.splits if_splits)
  from rest have "users (pl_db p') = users s" and "b = answer_with 200 (Token_Rotated pid (e_api_token env))"
    by (auto simp: audited_def storing_def on_db_def audit_def Let_def insert_row_def split: sum.splits if_splits option.splits)
  with that [OF found(2-4) rot] b show ?thesis by (simp add: answer_with_def)
qed

section \<open>Property\<close>

text \<open>C17: a rotated token works. When an administrator is shown a token for a developer, the token is the
  freshly generated one, it is stored as its SHA-256 digest only, and from then on a request that
  carries it behind \<open>Bearer\<close> is taken for exactly this developer, as long as the account is active,
  while no text with another digest is.\<close>
theorem rotated_token_admits:
  assumes "accounts_inv (pl_db p)" and "cf_token_hash cfg = token_hash" and "e_api_token env = new_api_token urandom"
    and "rq_route req = Rotate_Token pid" and "serve cfg env req p = (a, p')" and "an_body a = Token_Rotated pid tok"
  shows "tok = new_api_token urandom
    \<and> (\<exists>u. get_user_by_public_id (pl_db p') pid = Some u \<and> u_role u = Developer
        \<and> u_api_token_hash u = Some (token_hash tok)
        \<and> (u_status u = Active \<longrightarrow>
            (\<forall>req'. rq_authorization req' = Some (''Bearer '' @ tok) \<longrightarrow> developer_user cfg req' p' = (Inr u, p'))
            \<and> (\<forall>old. token_hash old \<noteq> token_hash tok \<longrightarrow> get_user_by_api_token token_hash (pl_db p') old \<noteq> Some u)))"
proof -
  obtain c u s where c: "c \<in> set (t_rows (users (pl_db p)))" "u_public_id c = pid" "u_role c = Developer"
    and rot: "rotate_developer_token (cf_token_hash cfg) (u_id c) (e_api_token env) (pl_db p) = Inr (Some u, s)"
    and same: "users (pl_db p') = users s" and tok: "tok = e_api_token env"
    by (rule rotation_run [OF assms(4-6)])
  note row = rotated_row [OF assms(1) c(1) rot]
  have found: "get_user_by_public_id (pl_db p') pid = Some u"
    using found_by_public_id [OF row(3,2)] row(1) c(2) same by (simp add: get_user_by_public_id_def)
  have hash: "u_api_token_hash u = Some (token_hash tok)" using row(1) assms(2) tok by simp
  have plain: "strip tok = tok" using strip_plain [OF api_token_plain] assms(3) tok by simp
  have works: "developer_user cfg req' p' = (Inr u, p')"
    if "u_status u = Active" "rq_authorization req' = Some (''Bearer '' @ tok)" for req'
  proof -
    have "get_user_by_api_token (cf_token_hash cfg) (pl_db p') tok = Some u"
      using rotate_token_replaces [OF assms(1) rot that(1)] same tok by (simp add: get_user_by_api_token_def)
    with that(2) plain row(1) c(3) show ?thesis by (simp add: developer_user_def reading_def on_db_def andthen_def)
  qed
  have "get_user_by_api_token token_hash (pl_db p') old \<noteq> Some u" if "token_hash old \<noteq> token_hash tok" for old
    using that hash by (auto simp: get_user_by_api_token_def select_where_def dest!: fetchone_in)
  with found hash works row(1) c(3) tok assms(3) show ?thesis by auto
qed

section \<open>A sample\<close>

definition stored_plane :: plane where
  "stored_plane = \<lparr>pl_db = accounts_db\<lparr>sessions := \<lparr>t_rows = [\<lparr>s_id = 1, s_user_id = 1,
     s_token_hash = token_hash ''k'', s_csrf_token = ''c'', s_expires_at = 100, s_created_at = 0\<rparr>], t_seq = 1\<rparr>\<rparr>,
     pl_images = Map.empty\<rparr>"

definition hashing_config :: app_config where
  "hashing_config = sample_config\<lparr>cf_token_hash := token_hash\<rparr>"

definition drawn :: "nat \<Rightarrow> string" where
  "drawn n = replicate n CHR ''k''"

definition token_env :: app_env where
  "token_env = (sample_env 5)\<lparr>e_api_token := new_api_token drawn\<rparr>"

lemma stored_inv: "accounts_inv (pl_db stored_plane)"
  using control_inv by (simp add: accounts_inv_def users_inv_def sessions_inv_def control_db_def stored_plane_def keys_ok_def)

lemma sample_rotation:
  "an_body (fst (serve hashing_config token_env (admin_request (Rotate_Token zero_uuid)) stored_plane))
     = Token_Rotated zero_uuid (new_api_token drawn)"
proof -
  have "''r'' \<noteq> zero_uuid" by (simp add: zero_uuid_def)
  then show ?thesis
    using zero_uuid_canonical
    by (simp add: serve_simps sample_simps rotate_user_token_def rotate_developer_token_def is_developer_def
        update_user_row_def unique_violation_def List.map_filter_simps Let_def hashing_config_def token_env_def
        stored_plane_def)
qed

theorem rotated_token_admits_witness:
  "\<exists>u. get_user_by_public_id (pl_db (snd (serve hashing_config token_env (admin_request (Rotate_Token zero_uuid)) stored_plane)))
      zero_uuid = Some u \<and> u_api_token_hash u = Some (token_hash (new_api_token drawn))"
proof -
  have route: "rq_route (admin_request (Rotate_Token zero_uuid)) = Rotate_Token zero_uuid"
    and config: "cf_token_hash hashing_config = token_hash" "e_api_token token_env = new_api_token drawn"
    by (simp_all add: admin_request_def hashing_config_def token_env_def)
  from rotated_token_admits [OF stored_inv config route surjective_pairing sample_rotation] show ?thesis by blast
qed

end
