(* ===== verification/Arguments.thy ===== *)
theory Arguments
  imports Start_Up Command_Line
begin

text \<open>
  The argument parsers of \<open>cli.py\<close> and of \<open>verify_bootstrap.py\<close>: their options as tables, and what \<open>argparse\<close> makes of
  a list of arguments by them: long options, their unambiguous abbreviations, \<open>--option=value\<close>, conversions,
  defaults and required options. An outcome \<open>None\<close> is a parser that prints its help or a usage error and ends the
  process. Arguments that are just \<open>--\<close> are not read. What \<open>float\<close> accepts is a parameter.
\<close>

section \<open>Tables of options\<close>

datatype conversion = As_Text | As_Int | As_Float

datatype option_action =
    Stores conversion
  | Appends conversion
  | Stores_True
  | Shows_Help

type_synonym option_table = "(string \<times> option_action) list"

definition help_options :: option_table where
  "help_options = [(''-h'', Shows_Help), (''--help'', Shows_Help)]"

definition root_options :: option_table where
  "root_options = help_options @ [(''--data-dir'', Stores As_Text), (''--workspace-root'', Stores As_Text)]"

definition init_options :: option_table where
  "init_options = help_options @ [(''--username'', Stores As_Text)]"

definition bootstrap_options :: option_table where
  "bootstrap_options = help_options @
     [(''--instance'', Stores As_Text), (''--username'', Stores As_Text), (''--release'', Stores As_Text),
      (''--credential-dir'', Stores As_Text)]"

definition serve_options :: option_table where
  "serve_options = help_options @
     [(''--host'', Stores As_Text), (''--port'', Stores As_Int), (''--insecure-cookie'', Stores_True),
      (''--broker-socket'', Stores As_Text), (''--worker-uid'', Appends As_Int)]"

definition worker_options :: option_table where
  "worker_options = help_options @
     [(''--poll-interval'', Stores As_Float), (''--broker-socket'', Stores As_Text), (''--sandbox-exec'', Stores As_Text),
      (''--unsafe-local-runner'', Stores_True)]"

definition gateway_options :: option_table where
  "gateway_options = help_options @ [(''--user'', Appends As_Text), (''--output'', Stores As_Text)]"

definition verify_options :: option_table where
  "verify_options = help_options @
     [(''--database'', Stores As_Text), (''--release'', Stores As_Text), (''--workspace-root'', Stores As_Text),
      (''--env-dir'', Stores As_Text), (''--credential-dir'', Stores As_Text), (''--caddyfile'', Stores As_Text)]"

section \<open>One argument\<close>

datatype argument_kind =
    Positional
  | Names string option_action "string option"
  | Unknown

definition before_equals :: "string \<Rightarrow> string" where
  "before_equals a = takeWhile (\<lambda>c. c \<noteq> CHR ''='') a"

definition after_equals :: "string \<Rightarrow> string option" where
  "after_equals a =
     (case dropWhile (\<lambda>c. c \<noteq> CHR ''='') a of [] \<Rightarrow> None | _ # v \<Rightarrow> Some v)"

text \<open>The pattern \<open>-\\d+|-\\d*\\.\\d+\<close> of \<open>argparse\<close>.\<close>

definition negative_number :: "string \<Rightarrow> bool" where
  "negative_number a \<longleftrightarrow>
     (case a of
        [] \<Rightarrow> False
      | c # s \<Rightarrow> c = CHR ''-'' \<and>
          (s \<noteq> [] \<and> list_all is_digit s
           \<or> (let fraction = dropWhile is_digit s
               in length fraction \<ge> 2 \<and> hd fraction = CHR ''.'' \<and> list_all is_digit (tl fraction))))"

text \<open>
  \<open>_parse_optional\<close>. An ambiguous abbreviation, like an option nobody knows, makes the parser fail sooner or later;
  a text behind the one-letter option \<open>-h\<close> shows the help or is an error.
\<close>

definition read_argument :: "option_table \<Rightarrow> string \<Rightarrow> argument_kind" where
  "read_argument table a =
     (if \<not> starts_with a ''-'' then Positional
      else case map_of table a of
        Some act \<Rightarrow> Names a act None
      | None \<Rightarrow>
          if length a = 1 then Positional
          else case (if after_equals a = None then None else map_of table (before_equals a)) of
            Some act \<Rightarrow> Names (before_equals a) act (after_equals a)
          | None \<Rightarrow>
              (case (if starts_with a ''--'' then filter (\<lambda>(flag, _). starts_with flag (before_equals a)) table
                     else filter (\<lambda>(flag, _). flag = take 2 a) table) of
                 [] \<Rightarrow> if negative_number a \<or> sp \<in> set a then Positional else Unknown
               | [(flag, act)] \<Rightarrow>
                   Names flag act (if starts_with a ''--'' then after_equals a else Some (drop 2 a))
               | _ \<Rightarrow> Unknown))"

section \<open>A list of arguments\<close>

definition convertible :: "(string \<Rightarrow> bool) \<Rightarrow> conversion \<Rightarrow> string \<Rightarrow> bool" where
  "convertible float_ok conv v =
     (case conv of As_Text \<Rightarrow> True | As_Int \<Rightarrow> is_ok (py_int v) | As_Float \<Rightarrow> float_ok v)"

text \<open>The values given, in order; a switch has the value \<open>None\<close>.\<close>

type_synonym settings = "(string \<times> string option) list"

definition value_conversion :: "option_action \<Rightarrow> conversion option" where
  "value_conversion act = (case act of Stores c \<Rightarrow> Some c | Appends c \<Rightarrow> Some c | _ \<Rightarrow> None)"

text \<open>One option with its value, and the arguments behind them.\<close>

definition read_setting ::
    "(string \<Rightarrow> bool) \<Rightarrow> option_table \<Rightarrow> string \<Rightarrow> string list \<Rightarrow> ((string \<times> string option) \<times> string list) option" where
  "read_setting float_ok table a rest =
     (case read_argument table a of
        Names flag act explicit \<Rightarrow>
          (case value_conversion act of
             None \<Rightarrow> if act = Stores_True \<and> explicit = None then Some ((flag, None), rest) else None
           | Some conv \<Rightarrow>
               (case (explicit, rest) of
                  (Some v, _) \<Rightarrow> if convertible float_ok conv v then Some ((flag, Some v), rest) else None
                | (None, v # rest') \<Rightarrow>
                    if read_argument table v = Positional \<and> convertible float_ok conv v
                    then Some ((flag, Some v), rest') else None
                | (None, []) \<Rightarrow> None))
      | _ \<Rightarrow> None)"

lemma read_setting_Some:
  assumes "read_setting float_ok table a rest = Some ((flag, v), rest')"
  shows "\<exists>act explicit. read_argument table a = Names flag act explicit"
    and "set rest' \<subseteq> set rest" and "length rest' \<le> length rest"
  using assms by (auto simp: read_setting_def split: argument_kind.splits option.splits list.splits if_splits)

text \<open>The options of a command: every argument has to belong to one of them.\<close>

function scan_options :: "(string \<Rightarrow> bool) \<Rightarrow> option_table \<Rightarrow> string list \<Rightarrow> settings option" where
  "scan_options float_ok table [] = Some []"
| "scan_options float_ok table (a # rest) =
     (case read_setting float_ok table a rest of
        None \<Rightarrow> None
      | Some (setting, rest') \<Rightarrow> map_option (Cons setting) (scan_options float_ok table rest'))"
  by pat_completeness auto
termination
  by (relation "measure (\<lambda>(_, _, arguments). length arguments)")
    (auto dest: read_setting_Some(3) simp: less_Suc_eq_le)

text \<open>The options before the command; the command is the first argument that belongs to none.\<close>

function scan_root :: "(string \<Rightarrow> bool) \<Rightarrow> string list \<Rightarrow> (settings \<times> string \<times> string list) option" where
  "scan_root float_ok [] = None"
| "scan_root float_ok (a # rest) =
     (if read_argument root_options a = Positional then Some ([], a, rest)
      else case read_setting float_ok root_options a rest of
        None \<Rightarrow> None
      | Some (setting, rest') \<Rightarrow>
          map_option (\<lambda>(opts, command). (setting # opts, command)) (scan_root float_ok rest'))"
  by pat_completeness auto
termination
  by (relation "measure (\<lambda>(_, arguments). length arguments)")
    (auto dest: read_setting_Some(3) simp: less_Suc_eq_le)

section \<open>The parsed arguments\<close>

definition values_of :: "settings \<Rightarrow> string \<Rightarrow> string list" where
  "values_of opts flag = List.map_filter (\<lambda>(f, v). if f = flag then v else None) opts"

text \<open>The last value of an option counts.\<close>

definition option_of :: "settings \<Rightarrow> string \<Rightarrow> string option" where
  "option_of opts flag = (case values_of opts flag of [] \<Rightarrow> None | vs \<Rightarrow> Some (last vs))"

definition default_of :: "settings \<Rightarrow> string \<Rightarrow> string \<Rightarrow> string" where
  "default_of opts flag fallback = (case option_of opts flag of None \<Rightarrow> fallback | Some v \<Rightarrow> v)"

definition int_value :: "string \<Rightarrow> int" where
  "int_value v = (case py_int v of Inl _ \<Rightarrow> 0 | Inr i \<Rightarrow> i)"

definition switched_on :: "settings \<Rightarrow> string \<Rightarrow> bool" where
  "switched_on opts flag \<longleftrightarrow> (flag, None) \<in> set opts"

datatype command =
    Init_Admin "string option" string
  | Bootstrap_Instance "string option" "string option" string string string string
  | Serve serve_args string int
  | Worker worker_args string
  | Render_Gateway "string list" "string option"

definition parse_command :: "(string \<Rightarrow> bool) \<Rightarrow> settings \<Rightarrow> string \<Rightarrow> string list \<Rightarrow> command option" where
  "parse_command float_ok root name rest =
     (let data = option_of root ''--data-dir''; workspaces = option_of root ''--workspace-root'';
          read = (\<lambda>table f. map_option f (scan_options float_ok table rest))
      in if name = ''init-admin'' then
           read init_options (\<lambda>opts. Init_Admin data (default_of opts ''--username'' ''admin''))
         else if name = ''bootstrap-instance'' then
           Option.bind (scan_options float_ok bootstrap_options rest) (\<lambda>opts.
             case (option_of opts ''--instance'', option_of opts ''--username'') of
               (Some instance, Some username) \<Rightarrow>
                 Some (Bootstrap_Instance data workspaces instance username
                   (default_of opts ''--release'' ''/opt/remote-dev/current'')
                   (default_of opts ''--credential-dir'' ''/etc/remote-dev/credentials''))
             | _ \<Rightarrow> None)
         else if name = ''serve'' then
           read serve_options (\<lambda>opts. Serve
             \<lparr>sa_data_dir = data, sa_workspace_root = workspaces,
              sa_insecure_cookie = switched_on opts ''--insecure-cookie'',
              sa_broker_socket = option_of opts ''--broker-socket'',
              sa_worker_uid = map int_value (values_of opts ''--worker-uid'')\<rparr>
             (default_of opts ''--host'' ''127.0.0.1'') (int_value (default_of opts ''--port'' ''9000'')))
         else if name = ''worker'' then
           read worker_options (\<lambda>opts. Worker
             \<lparr>wa_data_dir = data, wa_broker_socket = option_of opts ''--broker-socket'',
              wa_sandbox_exec = default_of opts ''--sandbox-exec'' ''/usr/libexec/remote-dev/sandbox-exec'',
              wa_unsafe_local_runner = switched_on opts ''--unsafe-local-runner''\<rparr>
             (default_of opts ''--poll-interval'' ''0.25''))
         else if name = ''render-gateway'' then
           read gateway_options (\<lambda>opts. Render_Gateway (values_of opts ''--user'') (option_of opts ''--output''))
         else None)"

definition parse_args :: "(string \<Rightarrow> bool) \<Rightarrow> string list \<Rightarrow> command option" where
  "parse_args float_ok arguments =
     Option.bind (scan_root float_ok arguments) (\<lambda>(root, name, rest). parse_command float_ok root name rest)"

text \<open>The six paths of \<open>verify_bootstrap.py\<close>, all required.\<close>

definition parse_verify_args :: "string list \<Rightarrow> string list option" where
  "parse_verify_args arguments =
     Option.bind (scan_options (\<lambda>_. False) verify_options arguments) (\<lambda>opts.
       let found = map (option_of opts) [''--database'', ''--release'', ''--workspace-root'', ''--env-dir'',
         ''--credential-dir'', ''--caddyfile'']
       in if None \<in> set found then None else Some (map the found))"

section \<open>Which argument names an option\<close>

lemma before_equals_prefix: "starts_with a (before_equals a)"
  unfolding starts_with_iff before_equals_def by (metis takeWhile_dropWhile_id)

lemma filter_single: "filter P xs = [x] \<Longrightarrow> P x"
  by (metis (mono_tags, lifting) filter_eq_ConsD)

lemma read_argument_cases:
  assumes "read_argument table a = Names flag act v"
  obtains "a = flag"
    | "before_equals a = flag"
    | "starts_with a ''--''" and "filter (\<lambda>(f, _). starts_with f (before_equals a)) table = [(flag, act)]"
    | "\<not> starts_with a ''--''" and "flag = take 2 a"
proof (cases "starts_with a ''-'' \<and> map_of table a = None \<and> length a \<noteq> 1")
  case False
  with assms that(1) show ?thesis by (auto simp: read_argument_def split: if_splits option.splits)
next
  case True
  show ?thesis
  proof (cases "if after_equals a = None then None else map_of table (before_equals a)")
    case (Some act')
    with assms True that(2) show ?thesis by (simp add: read_argument_def)
  next
    case None
    show ?thesis
    proof (cases "starts_with a ''--''")
      case two: True
      with assms True None that(3) show ?thesis by (auto simp: read_argument_def split: list.splits if_splits)
    next
      case False
      with assms True None have "filter (\<lambda>(f, _). f = take 2 a) table = [(flag, act)]"
        by (auto simp: read_argument_def split: list.splits if_splits)
      from filter_single [OF this] that(4) [OF False] show ?thesis by simp
    qed
  qed
qed

text \<open>An abbreviation that does not also abbreviate \<open>--help\<close> shows the first letter of its option.\<close>

lemma switch_named:
  assumes "read_argument table a = Names flag act v" and "(''--help'', help) \<in> set table" and "flag \<noteq> ''--help''"
    and "flag = CHR ''-'' # CHR ''-'' # c # rest"
  shows "starts_with a [CHR ''-'', CHR ''-'', c]"
  using assms(1)
proof (cases rule: read_argument_cases)
  case 1
  with assms(4) show ?thesis by simp
next
  case 2
  with before_equals_prefix [of a] assms(4) show ?thesis by (auto simp: starts_with_iff)
next
  case 3
  let ?p = "before_equals a"
  have flag: "starts_with flag ?p" using arg_cong [OF 3(2), of set] by auto
  have "\<not> starts_with ''--help'' ?p"
  proof
    assume "starts_with ''--help'' ?p"
    then have "(''--help'', help) \<in> set (filter (\<lambda>(f, _). starts_with f ?p) table)" using assms(2) by simp
    with 3(2) assms(3) show False by simp
  qed
  moreover obtain r where "a = CHR ''-'' # CHR ''-'' # r" using 3(1) by (auto simp: starts_with_iff)
  then obtain q where p: "?p = CHR ''-'' # CHR ''-'' # q" by (simp add: before_equals_def)
  ultimately have "q \<noteq> []" by auto
  with flag p assms(4) have "starts_with ?p [CHR ''-'', CHR ''-'', c]" by (cases q) simp_all
  with before_equals_prefix [of a] show ?thesis by (auto simp: starts_with_iff)
next
  case 4
  with assms(4) have "length (take 2 a) = length (CHR ''-'' # CHR ''-'' # c # rest)" by simp
  then show ?thesis by simp
qed

lemma scan_options_named:
  assumes "scan_options float_ok table arguments = Some opts" and "(flag, v) \<in> set opts"
  shows "\<exists>a \<in> set arguments. \<exists>act explicit. read_argument table a = Names flag act explicit"
  using assms
proof (induction float_ok table arguments arbitrary: opts rule: scan_options.induct)
  case (2 float_ok table a rest)
  then obtain setting rest' opts' where step: "read_setting float_ok table a rest = Some (setting, rest')"
    and opts: "scan_options float_ok table rest' = Some opts'" "opts = setting # opts'"
    by (auto split: option.splits)
  show ?case
  proof (cases "(flag, v) = setting")
    case True
    with step read_setting_Some(1) show ?thesis by fastforce
  next
    case False
    with opts(2) "2.prems"(2) have "(flag, v) \<in> set opts'" by simp
    from "2.IH" [OF step refl opts(1) this] show ?thesis
      using step read_setting_Some(2) by (cases setting) fastforce
  qed
qed simp

lemma scan_root_rest: "scan_root float_ok arguments = Some (root, name, rest) \<Longrightarrow> set rest \<subseteq> set arguments"
proof (induction float_ok arguments arbitrary: root rule: scan_root.induct)
  case (2 float_ok a arguments)
  show ?case
  proof (cases "read_argument root_options a = Positional")
    case False
    with "2.prems" obtain flag v rest' root' where
      step: "read_setting float_ok root_options a arguments = Some ((flag, v), rest')"
      "scan_root float_ok rest' = Some (root', name, rest)"
      by (auto split: option.splits)
    from "2.IH" [OF False step(1) refl step(2)] read_setting_Some(2) [OF step(1)] show ?thesis by auto
  qed (use "2.prems" in auto)
qed simp

lemma read_switch:
  assumes "scan_options float_ok table rest = Some opts" and "switched_on opts flag"
    and "(''--help'', help) \<in> set table" and "flag \<noteq> ''--help''" and "flag = CHR ''-'' # CHR ''-'' # c # letters"
  shows "\<exists>a \<in> set rest. starts_with a [CHR ''-'', CHR ''-'', c]"
  using scan_options_named [OF assms(1)] switch_named [OF _ assms(3,4,5)] assms(2) unfolding switched_on_def by blast

lemma parse_args_worker:
  assumes "parse_args float_ok arguments = Some (Worker wa poll)" and "wa_unsafe_local_runner wa"
  shows "\<exists>a \<in> set arguments. starts_with a ''--u''"
proof -
  from assms obtain root rest opts where "scan_root float_ok arguments = Some (root, ''worker'', rest)"
    and "scan_options float_ok worker_options rest = Some opts" "switched_on opts ''--unsafe-local-runner''"
    by (auto simp: parse_args_def parse_command_def Let_def bind_eq_Some_conv split: if_splits option.splits)
  with read_switch [of float_ok worker_options rest opts "''--unsafe-local-runner''" Shows_Help] scan_root_rest
  show ?thesis by (fastforce simp: worker_options_def help_options_def)
qed

lemma parse_args_serve:
  assumes "parse_args float_ok arguments = Some (Serve sa host port)" and "sa_insecure_cookie sa"
  shows "\<exists>a \<in> set arguments. starts_with a ''--i''"
proof -
  from assms obtain root rest opts where "scan_root float_ok arguments = Some (root, ''serve'', rest)"
    and "scan_options float_ok serve_options rest = Some opts" "switched_on opts ''--insecure-cookie''"
    by (auto simp: parse_args_def parse_command_def Let_def bind_eq_Some_conv split: if_splits option.splits)
  with read_switch [of float_ok serve_options rest opts "''--insecure-cookie''" Shows_Help] scan_root_rest
  show ?thesis by (fastforce simp: serve_options_def help_options_def)
qed

section \<open>The units of the deployment\<close>

text \<open>The arguments of \<open>remote-dev-worker.service\<close> and of \<open>remote-dev-control.service\<close>, which inserts the uid of the
  worker's account.\<close>

definition worker_unit :: "string list" where
  "worker_unit =
     [''worker'', ''--broker-socket'', ''/run/remote-dev/control-worker.sock'',
      ''--sandbox-exec'', ''/opt/remote-dev/current/libexec/sandbox-exec'']"

definition control_unit :: "nat \<Rightarrow> string list" where
  "control_unit uid =
     [''serve'', ''--host'', ''127.0.0.1'', ''--port'', ''9000'',
      ''--broker-socket'', ''/run/remote-dev/control-worker.sock'', ''--worker-uid'', nat_text uid]"

lemma worker_unit_parsed:
  "parse_args float_ok worker_unit = Some (Worker
     \<lparr>wa_data_dir = None, wa_broker_socket = Some ''/run/remote-dev/control-worker.sock'',
      wa_sandbox_exec = ''/opt/remote-dev/current/libexec/sandbox-exec'', wa_unsafe_local_runner = False\<rparr> ''0.25'')"
  by code_simp

lemma py_int_nat_text: "py_int (nat_text n) = Inr (int n)"
proof -
  have plain: "\<not> is_py_space c \<and> c \<noteq> CHR ''-'' \<and> c \<noteq> CHR ''+'' \<and> c \<noteq> CHR ''_''" if "is_digit c" for c
    using that by (auto simp: is_digit_def is_py_space_def)
  then have digits: "\<forall>c \<in> set (nat_text n). is_digit c" "strip (nat_text n) = nat_text n"
    using nat_text_digits [of _ n] strip_plain by blast+
  moreover have "hd (nat_text n) \<noteq> CHR ''-''" "hd (nat_text n) \<noteq> CHR ''+''"
    using digits(1) plain by (metis hd_in_set nat_text_nonempty)+
  moreover have "split_on CHR ''_'' (nat_text n) = [nat_text n]"
    by (rule split_on_no_sep) (use digits(1) plain in blast)
  ultimately show ?thesis by (simp add: py_int_def Let_def list_all_iff)
qed

lemma nat_text_positional: "read_argument table (nat_text n) = Positional"
proof -
  have "is_digit (hd (nat_text n))" using nat_text_digits hd_in_set nat_text_nonempty by metis
  then have "\<not> starts_with (nat_text n) ''-''" by (cases "nat_text n") (auto simp: is_digit_def)
  then show ?thesis by (simp add: read_argument_def)
qed

lemma control_unit_parsed:
  "parse_args float_ok (control_unit uid) = Some (Serve
     \<lparr>sa_data_dir = None, sa_workspace_root = None, sa_insecure_cookie = False,
      sa_broker_socket = Some ''/run/remote-dev/control-worker.sock'', sa_worker_uid = [int uid]\<rparr> ''127.0.0.1'' 9000)"
proof -
  have names: "read_argument serve_options ''--host'' = Names ''--host'' (Stores As_Text) None"
    "read_argument serve_options ''--port'' = Names ''--port'' (Stores As_Int) None"
    "read_argument serve_options ''--broker-socket'' = Names ''--broker-socket'' (Stores As_Text) None"
    "read_argument serve_options ''--worker-uid'' = Names ''--worker-uid'' (Appends As_Int) None"
    "read_argument serve_options ''127.0.0.1'' = Positional" "read_argument serve_options ''9000'' = Positional"
    "read_argument serve_options ''/run/remote-dev/control-worker.sock'' = Positional"
    "read_argument root_options ''serve'' = Positional"
    by code_simp+
  have "int_text 9000 = ''9000''" by code_simp
  then have port: "py_int ''9000'' = Inr 9000" using py_int_nat_text [of 9000] int_text_pos [of 9000] by simp
  note setting = read_setting_def value_conversion_def convertible_def nat_text_positional py_int_nat_text names port
  have "read_setting float_ok serve_options ''--host'' (''127.0.0.1'' # r) = Some ((''--host'', Some ''127.0.0.1''), r)"
    "read_setting float_ok serve_options ''--port'' (''9000'' # r) = Some ((''--port'', Some ''9000''), r)"
    "read_setting float_ok serve_options ''--broker-socket'' (''/run/remote-dev/control-worker.sock'' # r)
      = Some ((''--broker-socket'', Some ''/run/remote-dev/control-worker.sock''), r)"
    "read_setting float_ok serve_options ''--worker-uid'' (nat_text uid # r) = Some ((''--worker-uid'', Some (nat_text uid)), r)" for r
    by (simp_all add: setting)
  then have scan: "scan_options float_ok serve_options (tl (control_unit uid))
      = Some [(''--host'', Some ''127.0.0.1''), (''--port'', Some ''9000''),
          (''--broker-socket'', Some ''/run/remote-dev/control-worker.sock''), (''--worker-uid'', Some (nat_text uid))]"
    (is "_ = Some ?opts")
    by (simp add: control_unit_def)
  have read: "option_of ?opts ''--broker-socket'' = Some ''/run/remote-dev/control-worker.sock''"
    "map int_value (values_of ?opts ''--worker-uid'') = [int uid]" "\<not> switched_on ?opts ''--insecure-cookie''"
    "default_of ?opts ''--host'' d = ''127.0.0.1''" "int_value (default_of ?opts ''--port'' d) = 9000" for d
    by (simp_all add: option_of_def values_of_def default_of_def switched_on_def int_value_def List.map_filter_simps
        py_int_nat_text port)
  have "scan_root float_ok (control_unit uid) = Some ([], ''serve'', tl (control_unit uid))"
    by (simp add: control_unit_def names)
  then show ?thesis
    by (simp add: parse_args_def parse_command_def scan read) (simp add: option_of_def values_of_def List.map_filter_simps)
qed

lemma delegated_start:
  assumes "\<not> wa_unsafe_local_runner wa"
  shows "\<exists>w h'. cmd_worker sample_environment delegated_kernel id (\<lambda>_. True) (Inr (''0::/w'' @ [nl])) wa bare_host = (Inr w, h')"
proof -
  let ?exists = "\<lambda>p. real_exists delegated_kernel p bare_host"
  have "discover ?exists ''/sys/fs/cgroup'' (''0::/w'' @ [nl]) = Inr ''/sys/fs/cgroup/w''"
    using discover_unified [of "''w''" ?exists "''/sys/fs/cgroup''"]
    by (simp add: join_path_def lstrip_slashes_def is_line_break_def real_exists_def delegated_kernel_def)
  moreover obtain h' where "activate (real_cgroups delegated_kernel) ''/sys/fs/cgroup/w'' 77 bare_host = (Inr (), h')"
    using delegated_activation by blast
  ultimately show ?thesis
    using assms by (simp add: cmd_worker_def Let_def sample_environment_def sandboxed_runner_def)
qed

section \<open>Properties\<close>


text \<open>The abbreviation \<open>--uns\<close> is accepted and switches the sandbox off.\<close>

definition unsafe_arguments :: "string list" where
  "unsafe_arguments = [''--data-dir=/d'', ''worker'', ''--uns'', ''--poll=1'']"

lemma unsafe_parsed:
  "parse_args (\<lambda>_. True) unsafe_arguments = Some (Worker
     \<lparr>wa_data_dir = Some ''/d'', wa_broker_socket = None,
      wa_sandbox_exec = ''/usr/libexec/remote-dev/sandbox-exec'', wa_unsafe_local_runner = True\<rparr> ''1'')"
  by code_simp


text \<open>C19: the shipped units fit together. The argument lists of the two systemd units are accepted; the worker they
  start is sandboxed, on the socket that the service listens on, and of all peers the service admits exactly
  the uid its unit names.\<close>
theorem shipped_units_agree:
  assumes "parse_args float_ok worker_unit = Some (Worker wa poll)"
    and "parse_args float_ok (control_unit uid) = Some (Serve sa host port)"
    and "cmd_worker en k resolve executable self_cgroup wa h = (Inr w, h')"
    and "cmd_serve en' uuid now cfg sa s = Inr sv"
  shows "host = ''127.0.0.1'' \<and> port = 9000 \<and> sv_socket sv = ws_socket w
    \<and> (\<exists>work bwrap launcher m. ws_runner w = Sandboxed_Runner work worker_limits bwrap launcher m)
    \<and> cf_secure_cookies (sv_config sv)
    \<and> (\<forall>peer. allowed_uid (sv_allowed (sv_server sv)) peer \<longleftrightarrow> pr_uid peer = int uid)"
proof -
  have wa: "wa_broker_socket wa = Some ''/run/remote-dev/control-worker.sock''" "\<not> wa_unsafe_local_runner wa"
    using assms(1) unfolding worker_unit_parsed by auto
  have sa: "sa_broker_socket sa = Some ''/run/remote-dev/control-worker.sock''" "sa_worker_uid sa = [int uid]"
    "\<not> sa_insecure_cookie sa" "host = ''127.0.0.1''" "port = 9000"
    using assms(2) unfolding control_unit_parsed by auto
  have "\<exists>work bwrap launcher m. ws_runner w = Sandboxed_Runner work worker_limits bwrap launcher m"
    using assms(3) wa(2) by (rule cmd_worker_sandboxed) blast
  moreover have "ws_socket w = ''/run/remote-dev/control-worker.sock''"
    using assms(3) wa by (auto simp: cmd_worker_def Let_def socket_path_def given_def lift_def split: if_splits)
  moreover have "sv_socket sv = ''/run/remote-dev/control-worker.sock''" "cf_secure_cookies (sv_config sv)"
    "sv_allowed (sv_server sv) = [int uid]"
    using assms(4) sa by (auto simp: cmd_serve_def Let_def socket_path_def given_def new_server_def
        default_max_message_bytes_def worker_uids_def split: if_splits)
  ultimately show ?thesis using sa by (simp add: allowed_uid_def)
qed

theorem shipped_units_agree_witness:
  "\<exists>wa sa w h' sv. parse_args (\<lambda>_. True) worker_unit = Some (Worker wa ''0.25'')
     \<and> parse_args (\<lambda>_. True) (control_unit 991) = Some (Serve sa ''127.0.0.1'' 9000)
     \<and> cmd_worker sample_environment delegated_kernel id (\<lambda>_. True) (Inr (''0::/w'' @ [nl])) wa bare_host = (Inr w, h')
     \<and> cmd_serve sample_environment numbered (at 0 0) sample_config sa empty_db = Inr sv \<and> sv_socket sv = ws_socket w"
proof -
  let ?wa = "\<lparr>wa_data_dir = None, wa_broker_socket = Some ''/run/remote-dev/control-worker.sock'',
      wa_sandbox_exec = ''/opt/remote-dev/current/libexec/sandbox-exec'', wa_unsafe_local_runner = False\<rparr>"
  let ?sa = "\<lparr>sa_data_dir = None, sa_workspace_root = None, sa_insecure_cookie = False,
      sa_broker_socket = Some ''/run/remote-dev/control-worker.sock'', sa_worker_uid = [int 991]\<rparr>"
  obtain w h' where worker: "cmd_worker sample_environment delegated_kernel id (\<lambda>_. True) (Inr (''0::/w'' @ [nl])) ?wa bare_host
      = (Inr w, h')"
    using delegated_start [of ?wa] by auto
  obtain sv where service: "cmd_serve sample_environment numbered (at 0 0) sample_config ?sa empty_db = Inr sv"
    by (simp add: cmd_serve_def Let_def initialize_def migrate_user_public_ids_def current_users_def add_column_def
        empty_db_def empty_table_def new_server_def default_max_message_bytes_def)
  from shipped_units_agree [OF worker_unit_parsed control_unit_parsed worker service] show ?thesis
    using worker service worker_unit_parsed control_unit_parsed by blast
qed

end
