(* ===== verification/Spec2Isabelle.thy ===== *)
theory Spec2Isabelle
  imports Headers Queue_Properties Queue_Outcomes Account_Properties Worker_Runner Runner_Properties
    Sandbox_Properties Case_Layout Schemas Workspace App_Outcomes App_Sessions Sandbox_Command Gateway
    Bootstrap_Recovery Verify_Bootstrap Worker_Pool Cgroup_Host Broker_Server Command_Line Start_Up Results_Shown
    Round_Robin Worker_Shutdown Token_Access Arguments
begin

text \<open>
  A verification development for MultiCode, the control plane and job worker of a small remote
  development service (package \<open>src/src/remote_dev\<close>, named below by file).

  \<^bold>\<open>The program.\<close> A control process (\<open>app.py\<close>, FastAPI) answers developers and administrators over HTTP
  and owns an SQLite database (\<open>database.py\<close>): accounts, sessions, login throttling, the header policy,
  extensions, quota grants, an audit log and the job queue. Requests are validated by \<open>schemas.py\<close> and,
  for the sources of jobs, by the include policy of \<open>headers.py\<close>. A worker process (\<open>worker.py\<close>) has no access
  to the database: it claims jobs and reports results over a Unix socket, one JSON line each way
  (\<open>broker.py\<close>). It compiles and runs a job with a runner (\<open>runner.py\<close>), in production inside bubblewrap and a
  cgroup of its own for every process (\<open>cgroup_v2.py\<close>). \<open>workspace_image.py\<close> makes the file system images
  of the developers, \<open>gateway_config.py\<close> the configuration of the reverse proxy in front of their editors,
  \<open>cli.py\<close> starts everything and bootstraps instances offline, \<open>verify_bootstrap.py\<close> checks a deployed release.

  \<^bold>\<open>Conventions.\<close> A class or row is a \<open>record\<close>, an enumeration a \<open>datatype\<close>, a Python exception a value of
  \<open>py_error\<close> on the left of a sum; code whose effects stay when it raises is an action of \<open>Effects\<close>
  (value or exception, with the state reached), a database operation, which is a transaction, returns
  no state when it raises. Python integers are \<open>int\<close>; the credentials of a peer, where the width shows, are words.
  Strings are lists of code points below 256. Clock readings, random tokens, hashes, external programs, what
  the kernel shows and which system call fails are parameters, so every statement holds for all of them.
  Definitions keep the names of the code; the operations are executable.

  \<^bold>\<open>Bases.\<close> \<open>Prelude\<close>: exceptions, Python strings, reading SQL results. \<open>Effects\<close>: actions, numerals, lines and
  words. \<open>Uuid\<close>: \<open>str(uuid.UUID(v)) == v\<close>, the test repeated at every boundary, with a characterisation.
  \<open>Execution\<close>: \<open>constants.py\<close>, job states, result dataclasses. \<open>Db_Schema\<close>: the tables, one record per row type,
  and the statements queries are made of; the id discipline of a table is the locale \<open>keyed_row\<close>.

  \<^bold>\<open>Include policy\<close> (\<open>Headers\<close>, for \<open>headers.py\<close>): the comment scanner, the directive matcher and the
  check; a source is accepted iff every directive names a permitted header, and two ways around it.

  \<^bold>\<open>Job queue\<close> (\<open>Db_Jobs\<close>, for \<open>database.py\<close> from \<open>create_job\<close> to \<open>get_grant\<close>): submission, scheduling, completion,
  cancellation and grants. \<open>Job_Queue\<close> makes the operations the transitions \<open>queue_step\<close> and proves the
  invariant of the reachable states; \<open>Queue_Order\<close> the life cycle of a row and the scheduling order;
  \<open>Case_Layout\<close> the stability of case rows; \<open>Queue_Outcomes\<close> and \<open>Queue_Properties\<close> the results of single
  operations and the properties across steps, with witnesses over \<open>Queue_Sample\<close>. \<open>Round_Robin\<close> states an abstract
  scheduler, a list of users that rotates, and shows that the SQL query implements it, so that waiting is bounded.

  \<^bold>\<open>Accounts\<close> (\<open>Db_Accounts\<close>, the rest of \<open>database.py\<close>): users, sessions, throttling, policy, extensions,
  audit. \<open>Account_Invariant\<close> proves that every sequence of operations keeps the tables well-formed,
  \<open>Account_Properties\<close> what sessions and tokens authenticate. \<open>Db_Migration\<close> is \<open>initialize\<close> with the migration
  of an older users table.

  \<^bold>\<open>Broker\<close> (\<open>broker.py\<close>): \<open>Broker_Wire\<close> holds JSON text, schema checks, request handler, framing and client;
  \<open>Broker_Codec\<close> the round trips; \<open>Broker_Properties\<close> the fragmentation of requests and the refinement of the
  database by the client over the socket; \<open>Broker_Server\<close> whom a server serves, and its life cycle on the socket
  path as a step relation.

  \<^bold>\<open>Runner\<close> (\<open>runner.py\<close>): \<open>Runner\<close> holds the polling loop, the classification of an end, a case, a submission
  and both runners; \<open>Runner_Laws\<close> and \<open>Runner_Properties\<close> show that they return (when the polls advance the clock),
  the shape of their results, the wall limit and the equivalence of both without cgroups.
  The loop may run for ever, so it is a \<open>partial_function (option)\<close>: \<open>None\<close> is not returning, no fuel is used anywhere.
  \<open>Sandbox_Command\<close> has the command lines, resource limits and the peak memory reading. \<open>Cgroup\<close> is the manager over
  the interface \<open>CgroupFilesystem\<close>; \<open>Cgroup_Laws\<close> proves its guarantees in the locales \<open>cgroup_files\<close> and
  \<open>reliable_cgroup_files\<close>, interpreted by the in-memory files there and by the files of the host in \<open>Cgroup_Host\<close>;
  \<open>Sandbox_Properties\<close> joins runner and groups. \<open>Runner_Sample\<close> has the runs of the witnesses.

  \<^bold>\<open>Worker\<close> (\<open>worker.py\<close>): \<open>Worker\<close> is \<open>process_one\<close> over the locale \<open>job_broker\<close>, interpreted by the database broker
  and by the socket client; \<open>Worker_Runner\<close> follows a job through claim, run and report; \<open>Worker_Pool\<close> is
  \<open>run_forever\<close>, whose slots interleave with each other and with requests; \<open>Worker_Shutdown\<close> bounds what happens after a stop request.

  \<^bold>\<open>HTTP application\<close> (\<open>app.py\<close>): \<open>Schemas\<close> has the validators, \<open>Workspace\<close> the images, \<open>App\<close> every route with its
  dependencies, answers, cookies and audit entries. \<open>App_Laws\<close> states how handlers compose (locales
  \<open>kept_relation\<close> and \<open>route_relation\<close>); \<open>App_Steps\<close> shows that a request is a sequence of steps of the queue and of
  the accounts, so that their invariants hold after any history (\<open>App_Histories\<close>); \<open>App_Access\<close> is about authority,
  \<open>App_Outcomes\<close> about submissions and isolation, \<open>App_Sessions\<close> about logins. \<open>Results_Shown\<close> spans the program:
  what a developer reads back of a job is what the runner produced.

  \<^bold>\<open>Tokens\<close> (\<open>security.py\<close>): \<open>Sha256\<close> is the digest of the standard library, computable in the logic and checked on a
  published vector; \<open>Security\<close> the password functions over Argon2, the random tokens and what is stored of them;
  \<open>Token_Access\<close> follows a rotated token from the administrator's answer to the developer's next request. The other
  theories take hashing functions and fresh tokens as parameters, which these definitions instantiate.

  \<^bold>\<open>Deployment\<close>: \<open>Gateway\<close> (\<open>gateway_config.py\<close>) with an independent reader of the rendered text; \<open>Bootstrap\<close>
  (\<open>bootstrap_instance\<close> of \<open>cli.py\<close>), where every changing system call may fail or be the last one, and its crash
  recovery in \<open>Bootstrap_Recovery\<close>; \<open>Verify_Bootstrap\<close> (\<open>verify_bootstrap.py\<close>) and what a verified release
  guarantees; \<open>Command_Line\<close> with the one-shot commands of \<open>cli.py\<close>; \<open>Start_Up\<close> with \<open>serve\<close> and \<open>worker\<close>, which ties
  the services to the guarantees of the components they are built from; \<open>Arguments\<close> with the option tables of the
  parsers and what \<open>argparse\<close> makes of arguments by them, down to the units the deployment ships.

  \<^bold>\<open>Not modelled.\<close> FastAPI, SQLite and \<open>socketserver\<close> themselves: routing is the match on a route, a transaction is
  atomic, connections are served one after the other in any order. Password prompts, help texts, \<open>uvicorn\<close>
  and the static pages; an argument that is just \<open>--\<close>, whose reading depends on the version of \<open>argparse\<close>. Argon2, a third-party package, is a parameter.
  The regular expressions and \<open>uuid.UUID\<close> are modelled for code points below 256. What a submitted program
  does is not modelled: a view lists what the runner is shown of it.

  The properties are in the theories of the components, each with a sentence on what it states and a witness
  on concrete data where it has hypotheses. Some prove behaviour the code probably does not intend.
\<close>

end
